theory Spec2Isabelle
  imports Complex_Main
begin

section \<open>Numbers and constants\<close>

text \<open>
  JavaScript numbers are modelled as reals (levels and counters, which the game only ever
  steps by whole units, as integers). \<open>Math.round\<close> rounds half up.
\<close>

definition Math_round :: "real \<Rightarrow> real" where
  "Math_round v = real_of_int \<lfloor>v + 1 / 2\<rfloor>"

definition NATIVE_WIDTH :: real where "NATIVE_WIDTH = 1366"
definition NATIVE_HEIGHT :: real where "NATIVE_HEIGHT = 768"
definition FACTOR_SLOW :: real where "FACTOR_SLOW = 16"
definition FACTOR_SLOWER :: real where "FACTOR_SLOWER = 42"
definition FACTOR_SLOWEST :: real where "FACTOR_SLOWEST = 192"
definition PLAYER_SPEED :: real where "PLAYER_SPEED = 300"
definition BOT_SPEED_NORMAL :: real where "BOT_SPEED_NORMAL = PLAYER_SPEED"
definition BULLET_SPEED_NORMAL :: real where "BULLET_SPEED_NORMAL = PLAYER_SPEED * 5"

record speeds =
  normal :: real
  slow :: real
  slower :: real
  slowest :: real

definition speeds_player :: real where "speeds_player = PLAYER_SPEED"
definition speeds_dodge :: real where "speeds_dodge = PLAYER_SPEED * 2"

definition speeds_bot :: speeds where
  "speeds_bot = \<lparr>normal = PLAYER_SPEED,
     slow = Math_round (BOT_SPEED_NORMAL / FACTOR_SLOW),
     slower = Math_round (BOT_SPEED_NORMAL / FACTOR_SLOWER),
     slowest = Math_round (BOT_SPEED_NORMAL / FACTOR_SLOWEST)\<rparr>"

definition speeds_bullet :: speeds where
  "speeds_bullet = \<lparr>normal = BULLET_SPEED_NORMAL,
     slow = Math_round (BULLET_SPEED_NORMAL / FACTOR_SLOW),
     slower = Math_round (BULLET_SPEED_NORMAL / FACTOR_SLOWER),
     slowest = Math_round (BULLET_SPEED_NORMAL / FACTOR_SLOWEST)\<rparr>"

definition player_radius :: real where "player_radius = 25"
definition bullet_width :: real where "bullet_width = 16"

definition baseFireRate :: real where "baseFireRate = 1 / 2"
definition fastFireFactor :: real where "fastFireFactor = 1 / 2"
definition initFireDelay :: real where "initFireDelay = 1 / 8"
definition hotswitchTimeout :: real where "hotswitchTimeout = 5 / 2"
definition superhotswitchTimeout :: real where "superhotswitchTimeout = 1 / 2"

definition ANGLE_1DEG :: real where "ANGLE_1DEG = 1 * pi / 180"

section \<open>The engine, as far as the game consults it\<close>

text \<open>
  Phaser itself is not part of the repository. Its random generator and its pure geometry
  helpers are taken as parameters: \<open>rnd_frac ph i\<close> is what the \<open>i\<close>-th draw of the
  level returns when that draw is \<open>rnd.frac()\<close>, \<open>rnd_realInRange ph i lo hi\<close> when it is
  \<open>rnd.realInRange(lo, hi)\<close>, and so on. The game state counts the draws made so far.
\<close>

record phaser =
  rnd_frac :: "nat \<Rightarrow> real"
  rnd_realInRange :: "nat \<Rightarrow> real \<Rightarrow> real \<Rightarrow> real"
  rnd_between :: "nat \<Rightarrow> real \<Rightarrow> real \<Rightarrow> real"
  rnd_sign :: "nat \<Rightarrow> real"
  angleBetween :: "real \<times> real \<Rightarrow> real \<times> real \<Rightarrow> real"
  distanceBetween :: "real \<times> real \<Rightarrow> real \<times> real \<Rightarrow> real"
  reverseAngle :: "real \<Rightarrow> real"
  normalizeAngle :: "real \<Rightarrow> real"

text \<open>
  The documented contract of the generator: \<open>frac\<close> lies in \<open>[0, 1)\<close>, a ranged draw lies
  within the bounds it was asked for, and \<open>sign\<close> is \<open>-1\<close> or \<open>1\<close>.
\<close>

definition rnd_contract :: "phaser \<Rightarrow> bool" where
  "rnd_contract ph \<longleftrightarrow>
     (\<forall>i. 0 \<le> rnd_frac ph i \<and> rnd_frac ph i < 1) \<and>
     (\<forall>i lo hi. lo \<le> hi \<longrightarrow> lo \<le> rnd_realInRange ph i lo hi \<and> rnd_realInRange ph i lo hi \<le> hi) \<and>
     (\<forall>i lo hi. lo \<le> hi \<longrightarrow> lo \<le> rnd_between ph i lo hi \<and> rnd_between ph i lo hi \<le> hi) \<and>
     (\<forall>i. rnd_sign ph i = -1 \<or> rnd_sign ph i = 1)"

section \<open>Mutators and the speed law\<close>

record Mutators =
  freelook :: bool
  fasttime :: bool
  freezetime :: bool
  fastgun :: bool
  bighead :: bool
  chibi :: bool
  dodge :: bool
  lmtdbull :: bool
  superhotswitch :: bool
  secondchance :: bool
  godmode :: bool

text \<open>\<open>Supercold.Game.prototype._getSpeed\<close>.\<close>

definition Game_getSpeed :: "Mutators \<Rightarrow> bool \<Rightarrow> bool \<Rightarrow> bool \<Rightarrow> speeds \<Rightarrow> real" where
  "Game_getSpeed m playerAlive playerMoved playerRotated sp =
     (if \<not> playerAlive then slow sp
      else if playerMoved then normal sp
      else if freezetime m then 0
      else if fasttime m then slow sp
      else if playerRotated then slower sp
      else slowest sp)"

text \<open>
  The speed law as the specification words it, to compare \<open>_getSpeed\<close> with: an ordered
  list of rules, each a condition and the tier it yields, of which the first that matches
  wins.
\<close>

datatype tier = Frozen | Slowest | Slower | Slow | Normal

definition tier_value :: "speeds \<Rightarrow> tier \<Rightarrow> real" where
  "tier_value sp t =
     (case t of Frozen \<Rightarrow> 0 | Slowest \<Rightarrow> slowest sp | Slower \<Rightarrow> slower sp
              | Slow \<Rightarrow> slow sp | Normal \<Rightarrow> normal sp)"

definition spec_speed_rules :: "Mutators \<Rightarrow> bool \<Rightarrow> bool \<Rightarrow> bool \<Rightarrow> (bool \<times> tier) list" where
  "spec_speed_rules m playerAlive playerMoved playerRotated =
     [(\<not> playerAlive, Slow),
      (playerMoved, Normal),
      (freezetime m, Frozen),
      (fasttime m, Slow),
      (playerRotated, Slower),
      (True, Slowest)]"

fun spec_first_match :: "(bool \<times> 'a) list \<Rightarrow> 'a option" where
  "spec_first_match [] = None"
| "spec_first_match ((c, t) # rules) = (if c then Some t else spec_first_match rules)"

section \<open>Sprites\<close>

text \<open>
  The prototype chain \<open>Sprite \<rightarrow> LiveSprite \<rightarrow> Player / Bot\<close> and \<open>Sprite \<rightarrow> Bullet\<close> is a chain
  of record extensions. \<open>spr_x\<close>, \<open>spr_y\<close> are the sprite's \<open>x\<close>, \<open>y\<close>; the \<open>body_\<close> and
  \<open>velocity_\<close> fields are those of its physics body.
\<close>

record Sprite =
  alive :: bool
  exists :: bool
  spr_x :: real
  spr_y :: real
  body_x :: real
  body_y :: real
  body_rotation :: real
  velocity_x :: real
  velocity_y :: real

datatype gun = Pistol | Burst | Burst3 | Blunderbuss | Shotgun | DbShotgun | Rifle

text \<open>
  Weapon objects are shared: every bot holding a rifle holds the same \<open>Rifle\<close> object of
  \<open>this._weapons\<close>, the player has a weapon object of their own. A sprite's \<open>weapon\<close>
  field is therefore a reference into a store of weapon objects.
\<close>

datatype weapon_ref = PlayerWeapon | BotWeapon gun

datatype entity = ThePlayer | TheBot nat

datatype bullet_group = PlayerBullets | BotBullets

record LiveSprite = Sprite +
  remainingTime :: real
  weapon :: "weapon_ref option"
  dodging :: bool
  direction :: real
  duration :: real
  radius :: real

record Player = LiveSprite +
  dodgeRemainingTime :: real

text \<open>The closures returned by \<open>newForwardMover\<close> and its siblings, defunctionalised.\<close>

datatype mover =
    ForwardMover
  | DistantMover real
  | StrafingMover real real
  | StrafingDistantMover real real

record Bot = LiveSprite +
  move :: mover

record Bullet = Sprite +
  name :: nat
  owner :: "entity option"

text \<open>
  \<open>Phaser.Sprite.prototype.kill\<close>, \<open>reset\<close> and \<open>revive\<close> as the engine documents them (the
  signals they dispatch are run by the callers below, where the game registered a handler).
\<close>

definition Phaser_kill :: "'a Sprite_scheme \<Rightarrow> 'a Sprite_scheme" where
  "Phaser_kill s = s\<lparr>alive := False, exists := False\<rparr>"

definition Phaser_reset :: "real \<Rightarrow> real \<Rightarrow> 'a Sprite_scheme \<Rightarrow> 'a Sprite_scheme" where
  "Phaser_reset px py s =
     s\<lparr>spr_x := px, spr_y := py, body_x := px, body_y := py,
       velocity_x := 0, velocity_y := 0, alive := True, exists := True\<rparr>"

definition Phaser_revive :: "'a Sprite_scheme \<Rightarrow> 'a Sprite_scheme" where
  "Phaser_revive s = s\<lparr>alive := True, exists := True\<rparr>"

text \<open>\<open>Sprite.prototype.moveForward\<close>.\<close>

definition moveForward :: "real \<Rightarrow> real \<Rightarrow> 'a Sprite_scheme \<Rightarrow> 'a Sprite_scheme" where
  "moveForward rot speed s =
     s\<lparr>velocity_x := speed * cos rot, velocity_y := speed * sin rot\<rparr>"

definition setZeroVelocity :: "'a Sprite_scheme \<Rightarrow> 'a Sprite_scheme" where
  "setZeroVelocity s = s\<lparr>velocity_x := 0, velocity_y := 0\<rparr>"

text \<open>\<open>LiveSprite.prototype.reset\<close>, \<open>Bot.prototype.reset\<close>, \<open>Bullet.prototype.reset\<close>.\<close>

definition LiveSprite_reset :: "real \<Rightarrow> real \<Rightarrow> 'a LiveSprite_scheme \<Rightarrow> 'a LiveSprite_scheme" where
  "LiveSprite_reset px py s =
     (Phaser_reset px py s)\<lparr>remainingTime := 0, weapon := None,
        dodging := False, direction := 0, duration := 0\<rparr>"

definition Bot_reset :: "real \<Rightarrow> real \<Rightarrow> Bot \<Rightarrow> Bot" where
  "Bot_reset px py b = (LiveSprite_reset px py b)\<lparr>remainingTime := initFireDelay\<rparr>"

definition Bullet_reset :: "real \<Rightarrow> real \<Rightarrow> Bullet \<Rightarrow> Bullet" where
  "Bullet_reset px py b = (Phaser_reset px py b)\<lparr>owner := None\<rparr>"

text \<open>The bot constructor followed by \<open>BotGroup.prototype.create\<close>, for a group of scale \<open>sc\<close>.\<close>

definition new_Bot :: "real \<Rightarrow> real \<Rightarrow> real \<Rightarrow> Bot" where
  "new_Bot sc px py =
     \<lparr>alive = True, exists = True, spr_x = px, spr_y = py, body_x = px, body_y = py,
      body_rotation = 0, velocity_x = 0, velocity_y = 0,
      remainingTime = initFireDelay, weapon = None, dodging = False, direction = 0,
      duration = 0, radius = player_radius * sc, move = ForwardMover\<rparr>"

text \<open>The bullet constructor followed by \<open>BulletGroup.prototype.create\<close> (which creates it
  with \<open>exists = false\<close>); \<open>n\<close> is the running \<open>Bullet.count\<close>.\<close>

definition new_Bullet :: "nat \<Rightarrow> Bullet" where
  "new_Bullet n =
     \<lparr>alive = False, exists = False, spr_x = 0, spr_y = 0, body_x = 0, body_y = 0,
      body_rotation = 0, velocity_x = 0, velocity_y = 0, name = n, owner = None\<rparr>"

section \<open>Weapons\<close>

text \<open>
  \<open>fireFactor\<close> and \<open>bulletCount\<close> are the rifle's \<open>fireFactor\<close> and \<open>_bulletCount\<close>; the other
  constructors do not set them and no code reads them there.
\<close>

record Weapon =
  kind :: gun
  bullets :: bullet_group
  fireRate :: real
  fireFactor :: real
  bulletCount :: int

definition Rifle_BULLET_COUNT :: int where "Rifle_BULLET_COUNT = 10"
definition Rifle_FIRE_RATE :: real where "Rifle_FIRE_RATE = baseFireRate / 4"
definition Rifle_OFFSET :: real where "Rifle_OFFSET = 16"
definition Burst_OFFSET :: real where "Burst_OFFSET = 16"
definition Burst3_OFFSET :: real where "Burst3_OFFSET = 16"
definition Blunderbuss_ANGLE :: real where "Blunderbuss_ANGLE = 13 * ANGLE_1DEG"
definition Blunderbuss_ANGLE_DIFF :: real where "Blunderbuss_ANGLE_DIFF = 2 * ANGLE_1DEG"
definition Blunderbuss_OFFSET :: real where "Blunderbuss_OFFSET = 5"
definition Shotgun_ANGLE :: real where "Shotgun_ANGLE = 20 * ANGLE_1DEG"
definition Shotgun_ANGLE_DIFF :: real where "Shotgun_ANGLE_DIFF = 2 * ANGLE_1DEG"
definition DbShotgun_ANGLE :: real where "DbShotgun_ANGLE = 10 * ANGLE_1DEG"
definition DbShotgun_ANGLE_DIFF :: real where "DbShotgun_ANGLE_DIFF = 2 * ANGLE_1DEG"
definition DbShotgun_OFFSET :: real where "DbShotgun_OFFSET = 6"

text \<open>The constructors \<open>Pistol\<close>, \<open>Burst\<close>, ..., \<open>Rifle\<close>, by the kind constructed.\<close>

definition new_Weapon :: "gun \<Rightarrow> bullet_group \<Rightarrow> real \<Rightarrow> Weapon" where
  "new_Weapon k grp ff =
     (let base = \<lparr>kind = k, bullets = grp, fireRate = baseFireRate * ff,
                   fireFactor = 0, bulletCount = 0\<rparr>
      in case k of
           Pistol \<Rightarrow> base
         | Burst \<Rightarrow> base
         | Burst3 \<Rightarrow> base\<lparr>fireRate := fireRate base * 1.111\<rparr>
         | Blunderbuss \<Rightarrow> base\<lparr>fireRate := fireRate base * 1.2\<rparr>
         | Shotgun \<Rightarrow> base\<lparr>fireRate := fireRate base * 1.111\<rparr>
         | DbShotgun \<Rightarrow> base
         | Rifle \<Rightarrow> \<lparr>kind = Rifle, bullets = grp, fireRate = Rifle_FIRE_RATE * ff,
                      fireFactor = ff, bulletCount = Rifle_BULLET_COUNT\<rparr>)"

text \<open>
  What a weapon's \<open>fire\<close> asks of its bullet group: one entry per bullet, holding the
  position the entity has been moved to at that moment and the bullet's rotation.
\<close>

type_synonym shot = "real \<times> real \<times> real"

definition Pistol_shots :: "real \<Rightarrow> real \<Rightarrow> real \<Rightarrow> shot list" where
  "Pistol_shots ex ey rot = [(ex, ey, rot)]"

definition Burst_shots :: "real \<Rightarrow> real \<Rightarrow> real \<Rightarrow> shot list" where
  "Burst_shots ex ey rot =
     (let offsetX = Burst_OFFSET * cos (rot + pi / 2) / 2;
          offsetY = Burst_OFFSET * sin (rot + pi / 2) / 2
      in [(ex + offsetX, ey + offsetY, rot), (ex - offsetX, ey - offsetY, rot)])"

definition Burst3_shots :: "real \<Rightarrow> real \<Rightarrow> real \<Rightarrow> shot list" where
  "Burst3_shots ex ey rot =
     (let offsetX = Burst3_OFFSET * cos (rot + pi / 2);
          offsetY = Burst3_OFFSET * sin (rot + pi / 2)
      in [(ex + offsetX, ey + offsetY, rot), (ex - offsetX, ey - offsetY, rot), (ex, ey, rot)])"

text \<open>The loop of \<open>Blunderbuss.prototype.fire\<close>: \<open>k\<close> iterations left, \<open>n\<close> the next draw.\<close>

fun Blunderbuss_loop ::
  "phaser \<Rightarrow> nat \<Rightarrow> nat \<Rightarrow> real \<Rightarrow> real \<Rightarrow> real \<Rightarrow> real \<Rightarrow> real \<Rightarrow> real \<Rightarrow> shot list" where
  "Blunderbuss_loop ph 0 n factor cx cy offsetX offsetY rot = []"
| "Blunderbuss_loop ph (Suc k) n factor cx cy offsetX offsetY rot =
     (cx, cy, rot + factor * Blunderbuss_ANGLE
        + rnd_realInRange ph n (- Blunderbuss_ANGLE_DIFF) Blunderbuss_ANGLE_DIFF)
     # Blunderbuss_loop ph k (Suc n) (factor + 1) (cx + offsetX) (cy + offsetY) offsetX offsetY rot"

definition Blunderbuss_shots :: "phaser \<Rightarrow> nat \<Rightarrow> real \<Rightarrow> real \<Rightarrow> real \<Rightarrow> shot list" where
  "Blunderbuss_shots ph n ex ey rot =
     (let offsetX = Blunderbuss_OFFSET * cos (rot + pi / 2);
          offsetY = Blunderbuss_OFFSET * sin (rot + pi / 2);
          factor = - 3 / 2
      in Blunderbuss_loop ph 4 n factor (ex + factor * offsetX) (ey + factor * offsetY)
           offsetX offsetY rot)"

definition Shotgun_shots :: "phaser \<Rightarrow> nat \<Rightarrow> real \<Rightarrow> real \<Rightarrow> real \<Rightarrow> shot list" where
  "Shotgun_shots ph n ex ey rot =
     (let angle = Shotgun_ANGLE; diff = Shotgun_ANGLE_DIFF
      in [(ex, ey, rot - angle + rnd_realInRange ph n (- 3 * diff) diff),
          (ex, ey, rot + rnd_realInRange ph (n + 1) (- diff) diff),
          (ex, ey, rot + angle + rnd_realInRange ph (n + 2) (- diff) (3 * diff))])"

text \<open>The loop of \<open>DbShotgun.prototype.fire\<close>, \<open>i\<close> running from \<open>-2\<close> for \<open>k\<close> iterations.\<close>

fun DbShotgun_loop ::
  "phaser \<Rightarrow> nat \<Rightarrow> nat \<Rightarrow> int \<Rightarrow> real \<Rightarrow> real \<Rightarrow> real \<Rightarrow> real \<Rightarrow> real \<Rightarrow> shot list" where
  "DbShotgun_loop ph 0 n i ex ey offsetX offsetY rot = []"
| "DbShotgun_loop ph (Suc k) n i ex ey offsetX offsetY rot =
     (ex + real_of_int i * offsetX, ey + real_of_int i * offsetY,
      rot + real_of_int i * DbShotgun_ANGLE
        + rnd_realInRange ph n (- DbShotgun_ANGLE_DIFF) DbShotgun_ANGLE_DIFF)
     # DbShotgun_loop ph k (Suc n) (i + 1) ex ey offsetX offsetY rot"

definition DbShotgun_shots :: "phaser \<Rightarrow> nat \<Rightarrow> real \<Rightarrow> real \<Rightarrow> real \<Rightarrow> shot list" where
  "DbShotgun_shots ph n ex ey rot =
     DbShotgun_loop ph 5 n (- 2) ex ey
       (DbShotgun_OFFSET * cos (rot + pi / 2)) (DbShotgun_OFFSET * sin (rot + pi / 2)) rot"

definition Rifle_shots :: "phaser \<Rightarrow> nat \<Rightarrow> real \<Rightarrow> real \<Rightarrow> real \<Rightarrow> shot list" where
  "Rifle_shots ph n ex ey rot =
     (let offset = rnd_between ph n (- Rifle_OFFSET) Rifle_OFFSET;
          offsetX = offset * cos (rot + pi / 2);
          offsetY = offset * sin (rot + pi / 2)
      in [(ex + offsetX, ey + offsetY, rot)])"

text \<open>
  The tail of \<open>Rifle.prototype.fire\<close>: the rifle's variable fire rate. \<open>n\<close> is the draw that
  follows the one spent on the muzzle offset; the result carries the next free draw.
\<close>

definition Rifle_cadence :: "phaser \<Rightarrow> nat \<Rightarrow> Weapon \<Rightarrow> Weapon \<times> nat" where
  "Rifle_cadence ph n w =
     (let c = bulletCount w - 1
      in if c > 0
         then (w\<lparr>bulletCount := c,
                 fireRate := Rifle_FIRE_RATE * fireFactor w * rnd_realInRange ph n 0.9 1.4\<rparr>,
               Suc n)
         else (w\<lparr>bulletCount := Rifle_BULLET_COUNT,
                 fireRate := Rifle_FIRE_RATE * fireFactor w * 3.5\<rparr>,
               n))"

text \<open>
  The \<open>fire\<close> method of each weapon, by dynamic dispatch on the weapon's kind: the shots it
  requests, the weapon afterwards and the next free draw.
\<close>

definition Weapon_fire :: "phaser \<Rightarrow> nat \<Rightarrow> Weapon \<Rightarrow> real \<Rightarrow> real \<Rightarrow> real \<Rightarrow> shot list \<times> Weapon \<times> nat" where
  "Weapon_fire ph n w ex ey rot =
     (case kind w of
        Pistol \<Rightarrow> (Pistol_shots ex ey rot, w, n)
      | Burst \<Rightarrow> (Burst_shots ex ey rot, w, n)
      | Burst3 \<Rightarrow> (Burst3_shots ex ey rot, w, n)
      | Blunderbuss \<Rightarrow> (Blunderbuss_shots ph n ex ey rot, w, n + 4)
      | Shotgun \<Rightarrow> (Shotgun_shots ph n ex ey rot, w, n + 3)
      | DbShotgun \<Rightarrow> (DbShotgun_shots ph n ex ey rot, w, n + 5)
      | Rifle \<Rightarrow> (let (w', n') = Rifle_cadence ph (Suc n) w
                  in (Rifle_shots ph n ex ey rot, w', n')))"

section \<open>The game state\<close>

text \<open>The world: a fixed-size space with \<open>(0, 0)\<close> in the centre (\<open>_setWorldBounds\<close>).\<close>

definition CELLDIM :: real where "CELLDIM = 40"
definition world_width :: real where "world_width = CELLDIM * 56"
definition world_height :: real where "world_height = CELLDIM * 42"
definition PADDING_width :: real where "PADDING_width = Math_round (NATIVE_WIDTH / 2)"
definition PADDING_height :: real where "PADDING_height = Math_round (NATIVE_HEIGHT / 2)"
definition bounds_left :: real where
  "bounds_left = - Math_round ((world_width + 2 * PADDING_width) / 2)"
definition bounds_top :: real where
  "bounds_top = - Math_round ((world_height + 2 * PADDING_height) / 2)"
definition bounds_right :: real where
  "bounds_right = bounds_left + (world_width + 2 * PADDING_width)"
definition bounds_bottom :: real where
  "bounds_bottom = bounds_top + (world_height + 2 * PADDING_height)"

text \<open>A bullet is referred to by its group and its index among the group's children.\<close>

type_synonym bullet_ref = "bullet_group \<times> nat"

text \<open>A bullet trail, as far as the simulation (not the renderer) touches it.\<close>

record BulletTrail =
  trail_alive :: bool
  trail_bullet :: "bullet_ref option"
  trail_refX :: real
  trail_refY :: real
  trail_rotation :: real

text \<open>
  The fade tweens of a hotswitch and the callback waiting on the bot's tween: \<open>swap\<close> while
  fading out, \<open>endHotswitch\<close> while fading back in. The number is the clicked bot's index.
\<close>

datatype tween = NoTween | FadeOut nat | FadeIn nat

text \<open>
  The state of \<open>Supercold.Game\<close> during a level. \<open>weapons\<close> is the store of weapon objects,
  \<open>trails\<close> and \<open>liveTrails\<close> belong to the bullet trail painter, \<open>rnd_count\<close> counts the
  draws made from the generator. The last seven fields record effects that leave the
  simulation: whether the hotswitch handler is still attached to the bots' input signal,
  whether the player still collides with bullets, the pending hotswitch tween, how often the
  win sequence \<open>_superhot\<close> has been started and the level it saved, whether the lose
  overlay has been put up, and how often the camera has flashed (once per swap).
\<close>

record Game =
  level :: int
  mutators :: Mutators
  counts_bots :: int
  counts_bullets :: int
  next_botTime :: real
  next_hotSwitch :: real
  elapsedTime :: real
  hotswitching :: bool
  player :: Player
  bots :: "Bot list"
  playerBullets :: "Bullet list"
  botBullets :: "Bullet list"
  weapons :: "weapon_ref \<Rightarrow> Weapon"
  trails :: "BulletTrail list"
  liveTrails :: "nat \<rightharpoonup> nat"
  Bullet_count :: nat
  rnd_count :: nat
  inputHandler :: bool
  playerCollidesBullets :: bool
  botTween :: tween
  superhot_calls :: nat
  savedLevel :: "int option"
  loseOverlay :: bool
  camera_flashes :: nat

definition bullets_of :: "bullet_group \<Rightarrow> Game \<Rightarrow> Bullet list" where
  "bullets_of grp g = (case grp of PlayerBullets \<Rightarrow> playerBullets g | BotBullets \<Rightarrow> botBullets g)"

definition set_bullets :: "bullet_group \<Rightarrow> Bullet list \<Rightarrow> Game \<Rightarrow> Game" where
  "set_bullets grp bs g =
     (case grp of PlayerBullets \<Rightarrow> g\<lparr>playerBullets := bs\<rparr> | BotBullets \<Rightarrow> g\<lparr>botBullets := bs\<rparr>)"

text \<open>The index of the first child with a property, as \<open>Phaser.Group.getFirst\<close> searches.\<close>

fun firstIndex :: "('a \<Rightarrow> bool) \<Rightarrow> 'a list \<Rightarrow> nat option" where
  "firstIndex P [] = None"
| "firstIndex P (c # cs) = (if P c then Some 0 else map_option Suc (firstIndex P cs))"

subsection \<open>The bullet trail painter\<close>

text \<open>\<open>this.trails.getFirstDead(CREATE_IF_NULL, x, y)\<close>: a dead trail, reset, or a new one.\<close>

definition BulletTrail_reset :: "BulletTrail \<Rightarrow> BulletTrail" where
  "BulletTrail_reset t = t\<lparr>trail_alive := True, trail_refX := 0, trail_refY := 0\<rparr>"

definition new_BulletTrail :: BulletTrail where
  "new_BulletTrail =
     \<lparr>trail_alive = True, trail_bullet = None, trail_refX = 0, trail_refY = 0, trail_rotation = 0\<rparr>"

definition trails_getFirstDead :: "Game \<Rightarrow> nat \<times> Game" where
  "trails_getFirstDead g =
     (case firstIndex (\<lambda>t. \<not> trail_alive t) (trails g) of
        Some i \<Rightarrow> (i, g\<lparr>trails := (trails g)[i := BulletTrail_reset (trails g ! i)]\<rparr>)
      | None \<Rightarrow> (length (trails g), g\<lparr>trails := trails g @ [new_BulletTrail]\<rparr>))"

text \<open>\<open>BulletTrail.prototype.start\<close> and \<open>stop\<close>; \<open>b\<close> is the bullet the trail follows.\<close>

definition BulletTrail_start :: "bullet_ref \<Rightarrow> Bullet \<Rightarrow> BulletTrail \<Rightarrow> BulletTrail" where
  "BulletTrail_start r b t =
     t\<lparr>trail_rotation := body_rotation b, trail_bullet := Some r,
       trail_refX := spr_x b, trail_refY := spr_y b\<rparr>"

definition BulletTrail_stop :: "Bullet \<Rightarrow> BulletTrail \<Rightarrow> BulletTrail" where
  "BulletTrail_stop b t = t\<lparr>trail_refX := spr_x b, trail_refY := spr_y b, trail_bullet := None\<rparr>"

text \<open>\<open>BulletTrailPainter.prototype.startTrail\<close> and \<open>stopTrail\<close>, the handlers that
  \<open>customizeBullet\<close> adds to every bullet's \<open>onRevived\<close> and \<open>onKilled\<close> signals.\<close>

definition startTrail :: "bullet_ref \<Rightarrow> Game \<Rightarrow> Game" where
  "startTrail r g =
     (let b = bullets_of (fst r) g ! snd r;
          (t, g1) = trails_getFirstDead g
      in g1\<lparr>trails := (trails g1)[t := BulletTrail_start r b (trails g1 ! t)],
            liveTrails := (liveTrails g1)(name b \<mapsto> t)\<rparr>)"

definition stopTrail :: "bullet_ref \<Rightarrow> Game \<Rightarrow> Game" where
  "stopTrail r g =
     (let b = bullets_of (fst r) g ! snd r
      in case liveTrails g (name b) of
           None \<Rightarrow> g
         | Some t \<Rightarrow> g\<lparr>trails := (trails g)[t := BulletTrail_stop b (trails g ! t)],
                        liveTrails := (liveTrails g)(name b := None)\<rparr>)"

subsection \<open>Bullets\<close>

text \<open>
  \<open>Bullet.prototype.kill\<close>: the engine's \<open>kill\<close>, which dispatches \<open>onKilled\<close> and so runs
  \<open>stopTrail\<close>. A reference from a contact always names a child of the group; outside the
  group's range there is no bullet and nothing happens.
\<close>

definition Bullet_kill :: "bullet_ref \<Rightarrow> Game \<Rightarrow> Game" where
  "Bullet_kill r g =
     (let bs = bullets_of (fst r) g
      in if snd r < length bs
         then stopTrail r (set_bullets (fst r) (bs[snd r := Phaser_kill (bs ! snd r)]) g)
         else g)"

text \<open>\<open>this.bullets.getFirstExists(!EXISTS, CREATE_IF_NULL)\<close>: the first bullet that does not
  exist, or a new one appended to the group.\<close>

definition bullets_getFirstExists :: "bullet_group \<Rightarrow> Game \<Rightarrow> nat \<times> Game" where
  "bullets_getFirstExists grp g =
     (let bs = bullets_of grp g
      in case firstIndex (\<lambda>b. \<not> exists b) bs of
           Some i \<Rightarrow> (i, g)
         | None \<Rightarrow> (length bs,
             set_bullets grp (bs @ [new_Bullet (Bullet_count g)])
               (g\<lparr>Bullet_count := Suc (Bullet_count g)\<rparr>)))"

text \<open>
  \<open>Bullet.prototype.fire\<close>: the bullet is placed in front of the entity (standing at the
  shot's position, with radius \<open>rad\<close>), takes the entity as its owner and is revived, which
  dispatches \<open>onRevived\<close> and so runs \<open>startTrail\<close>.
\<close>

definition Bullet_fire :: "entity \<Rightarrow> real \<Rightarrow> shot \<Rightarrow> bullet_ref \<Rightarrow> Game \<Rightarrow> Game" where
  "Bullet_fire ent rad sh r g =
     (case sh of (ex, ey, rot) \<Rightarrow>
        let bs = bullets_of (fst r) g;
            offset = rad + Math_round (3 / 4 * bullet_width);
            b1 = Bullet_reset (ex + offset * cos rot) (ey + offset * sin rot) (bs ! snd r);
            b2 = b1\<lparr>owner := Some ent, body_rotation := rot\<rparr>;
            b3 = Phaser_revive b2
        in startTrail r (set_bullets (fst r) (bs[snd r := b3]) g))"

text \<open>The bullets a weapon's \<open>fire\<close> requests, taken from its group one after the other.\<close>

fun fire_shots :: "entity \<Rightarrow> real \<Rightarrow> bullet_group \<Rightarrow> shot list \<Rightarrow> Game \<Rightarrow> Game" where
  "fire_shots ent rad grp [] g = g"
| "fire_shots ent rad grp (sh # shs) g =
     (case bullets_getFirstExists grp g of
        (i, g1) \<Rightarrow> fire_shots ent rad grp shs (Bullet_fire ent rad sh (grp, i) g1))"

text \<open>
  \<open>LiveSprite.prototype.fire\<close> for an entity standing at \<open>(ex, ey)\<close> with rotation \<open>rot\<close>:
  \<open>this.weapon.fire(this)\<close>, then the weapon's fire rate for the caller to store in
  \<open>remainingTime\<close>. Without a weapon the call throws: \<open>None\<close>.
\<close>

definition LiveSprite_fire ::
  "phaser \<Rightarrow> entity \<Rightarrow> real \<Rightarrow> real \<Rightarrow> real \<Rightarrow> real \<Rightarrow> weapon_ref option \<Rightarrow> Game \<Rightarrow> (real \<times> Game) option" where
  "LiveSprite_fire ph ent ex ey rot rad wr g =
     (case wr of
        None \<Rightarrow> None
      | Some r \<Rightarrow>
          (case Weapon_fire ph (rnd_count g) (weapons g r) ex ey rot of
             (shots, w', n') \<Rightarrow>
               Some (fireRate w',
                     fire_shots ent rad (bullets w') shots
                       (g\<lparr>weapons := (weapons g)(r := w'), rnd_count := n'\<rparr>))))"

section \<open>The player\<close>

definition Player_DODGE_RELOAD_TIME :: real where "Player_DODGE_RELOAD_TIME = 0.075"

text \<open>The \<open>Player\<close> constructor at \<open>(px, py)\<close> with scale \<open>sc\<close>, holding the weapon that
  \<open>create\<close> assigns right after.\<close>

definition new_Player :: "real \<Rightarrow> real \<Rightarrow> real \<Rightarrow> Player" where
  "new_Player px py sc =
     \<lparr>alive = True, exists = True, spr_x = px, spr_y = py, body_x = px, body_y = py,
      body_rotation = 0, velocity_x = 0, velocity_y = 0,
      remainingTime = 0, weapon = Some PlayerWeapon, dodging = False, direction = 0,
      duration = 0, radius = player_radius * sc,
      dodgeRemainingTime = Player_DODGE_RELOAD_TIME\<rparr>"

text \<open>\<open>Player.prototype.rotate\<close>; \<open>newRotation\<close> is the angle to the pointer.\<close>

definition Player_rotate :: "real \<Rightarrow> Player \<Rightarrow> bool \<times> Player" where
  "Player_rotate newRotation p = (body_rotation p \<noteq> newRotation, p\<lparr>body_rotation := newRotation\<rparr>)"

text \<open>\<open>Player.prototype.dodge\<close>.\<close>

definition Player_dodge :: "real \<Rightarrow> Player \<Rightarrow> Player" where
  "Player_dodge dir p =
     (if \<not> dodging p \<and> dodgeRemainingTime p \<le> 0
      then p\<lparr>dodging := True, duration := 0.075, direction := dir\<rparr>
      else p)"

text \<open>\<open>Player.prototype.advance\<close>.\<close>

definition Player_advance :: "bool \<Rightarrow> real \<Rightarrow> real \<Rightarrow> Player \<Rightarrow> Player" where
  "Player_advance moved dir e p =
     (let p1 = p\<lparr>remainingTime := remainingTime p - e,
                  dodgeRemainingTime := dodgeRemainingTime p - e\<rparr>
      in if dodging p1
         then (let p2 = (moveForward (direction p1) speeds_dodge p1)\<lparr>duration := duration p1 - e\<rparr>
               in if duration p2 \<le> 0
                  then p2\<lparr>dodging := False, dodgeRemainingTime := Player_DODGE_RELOAD_TIME\<rparr>
                  else p2)
         else if moved then moveForward dir speeds_player p1
         else setZeroVelocity p1)"

text \<open>The player's \<open>fire\<close> (inherited from \<open>LiveSprite\<close>).\<close>

definition Player_fire :: "phaser \<Rightarrow> Game \<Rightarrow> Game option" where
  "Player_fire ph g =
     (let p = player g
      in case LiveSprite_fire ph ThePlayer (spr_x p) (spr_y p) (body_rotation p) (radius p)
                (weapon p) g of
           None \<Rightarrow> None
         | Some (rate, g1) \<Rightarrow> Some (g1\<lparr>player := (player g1)\<lparr>remainingTime := rate\<rparr>\<rparr>))"

section \<open>The bots\<close>

definition Bot_VIEW_ANGLE :: real where "Bot_VIEW_ANGLE = pi / 2.25"

definition upd_bot :: "nat \<Rightarrow> (Bot \<Rightarrow> Bot) \<Rightarrow> Game \<Rightarrow> Game" where
  "upd_bot i f g = g\<lparr>bots := (bots g)[i := f (bots g ! i)]\<rparr>"

text \<open>The movers: what \<open>this.move(this, speed, player)\<close> does for each closure.\<close>

definition Bot_move :: "phaser \<Rightarrow> real \<Rightarrow> Player \<Rightarrow> Bot \<Rightarrow> Bot" where
  "Bot_move ph speed p b =
     (let d = distanceBetween ph (spr_x b, spr_y b) (spr_x p, spr_y p);
          rot = body_rotation b
      in case move b of
           ForwardMover \<Rightarrow> moveForward rot speed b
         | DistantMover dmin \<Rightarrow> moveForward rot (if d < dmin then 0 else speed) b
         | StrafingMover dmin dir \<Rightarrow>
             if d < dmin then moveForward (rot + dir * 0.8) speed b else moveForward rot speed b
         | StrafingDistantMover dmin dir \<Rightarrow>
             if d < dmin then moveForward (rot + dir) speed b else moveForward rot speed b)"

text \<open>\<open>Bot.prototype.fire\<close>: the weapon is fired with a jittered rotation, which is put back
  afterwards.\<close>

definition Bot_fire :: "phaser \<Rightarrow> nat \<Rightarrow> Game \<Rightarrow> Game option" where
  "Bot_fire ph i g =
     (let b = bots g ! i;
          rotation = body_rotation b;
          angle = 2 * ANGLE_1DEG;
          jitter = rnd_realInRange ph (rnd_count g) (- angle) angle;
          g0 = g\<lparr>rnd_count := Suc (rnd_count g)\<rparr>
      in case LiveSprite_fire ph (TheBot i) (spr_x b) (spr_y b) (rotation + jitter) (radius b)
                (weapon b) g0 of
           None \<Rightarrow> None
         | Some (rate, g1) \<Rightarrow>
             Some (upd_bot i (\<lambda>b. b\<lparr>remainingTime := rate, body_rotation := rotation\<rparr>) g1))"

text \<open>\<open>Bot.prototype._fire\<close>: hesitate one time in five, else fire. Reading the fire rate of a
  missing weapon throws.\<close>

definition Bot__fire :: "phaser \<Rightarrow> int \<Rightarrow> nat \<Rightarrow> Game \<Rightarrow> Game option" where
  "Bot__fire ph lv i g =
     (let g0 = g\<lparr>rnd_count := Suc (rnd_count g)\<rparr>
      in if rnd_frac ph (rnd_count g) \<le> 1 / 5
         then (case weapon (bots g ! i) of
                 None \<Rightarrow> None
               | Some r \<Rightarrow>
                   Some (upd_bot i
                     (\<lambda>b. b\<lparr>remainingTime :=
                        rnd_between ph (rnd_count g0) 0
                          (max (fireRate (weapons g r) * (1 - real_of_int lv / 100)) 0)\<rparr>)
                     (g0\<lparr>rnd_count := Suc (rnd_count g0)\<rparr>)))
         else Bot_fire ph i g0)"

text \<open>\<open>Bot.prototype._dodge\<close>.\<close>

definition Bot__dodge :: "phaser \<Rightarrow> real \<Rightarrow> nat \<Rightarrow> Game \<Rightarrow> Game" where
  "Bot__dodge ph durationFix i g =
     upd_bot i
       (\<lambda>b. b\<lparr>dodging := True, duration := 0.25 + durationFix,
               direction := (if rnd_between ph (rnd_count g) 0 1 \<noteq> 0 then 1 else - 1) * pi / 2\<rparr>)
       (g\<lparr>rnd_count := Suc (rnd_count g)\<rparr>)"

text \<open>
  The roll \<open>rnd.frac() <= 1 / (desiredFps * 1.2 * slowFactor)\<close> with
  \<open>slowFactor = physicsElapsed / elapsedTime\<close>. With no elapsed time (frozen bullets) the
  slow factor is \<open>Infinity\<close> in JavaScript and the chance \<open>0\<close>; \<open>physicsElapsed\<close> and
  \<open>desiredFps\<close> are positive in the engine.
\<close>

definition dodge_roll :: "real \<Rightarrow> real \<Rightarrow> real \<Rightarrow> real \<Rightarrow> bool" where
  "dodge_roll f fps pe e = (if e = 0 then f \<le> 0 else f \<le> 1 / (fps * 1.2 * (pe / e)))"

text \<open>\<open>Bot.prototype.advance\<close>, in the parts of its body: the attempt to shoot, the dodge
  in progress, and the move followed by its two chances to start a dodge (the random one
  and the one in reaction to the player's shot).\<close>

definition Bot_advance_shoot :: "phaser \<Rightarrow> real \<Rightarrow> int \<Rightarrow> nat \<Rightarrow> Game \<Rightarrow> Game option" where
  "Bot_advance_shoot ph e lv i g =
     (let p = player g;
          g1 = upd_bot i (\<lambda>b. b\<lparr>remainingTime := remainingTime b - e\<rparr>) g;
          g2 = upd_bot i
                 (\<lambda>b. b\<lparr>body_rotation := angleBetween ph (spr_x b, spr_y b) (spr_x p, spr_y p)\<rparr>) g1;
          b = bots g2 ! i
      in if distanceBetween ph (spr_x b, spr_y b) (spr_x p, spr_y p)
              < (NATIVE_WIDTH + NATIVE_HEIGHT) / 2
         then (if remainingTime b \<le> 0 then Bot__fire ph lv i g2 else Some g2)
         else Some g2)"

definition Bot_advance_dodging :: "real \<Rightarrow> real \<Rightarrow> Bot \<Rightarrow> Bot" where
  "Bot_advance_dodging e speed b =
     (let b1 = (moveForward (body_rotation b + direction b) speed b)\<lparr>duration := duration b - e\<rparr>
      in if duration b1 \<le> 0 then b1\<lparr>dodging := False\<rparr> else b1)"

definition Bot_random_dodge :: "phaser \<Rightarrow> real \<Rightarrow> real \<Rightarrow> real \<Rightarrow> int \<Rightarrow> nat \<Rightarrow> Game \<Rightarrow> Game" where
  "Bot_random_dodge ph pe fps e lv i g =
     (let f = rnd_frac ph (rnd_count g);
          g1 = g\<lparr>rnd_count := Suc (rnd_count g)\<rparr>
      in if dodge_roll f fps pe e then Bot__dodge ph (0.004 * real_of_int lv) i g1 else g1)"

definition Bot_reactive_dodge :: "phaser \<Rightarrow> int \<Rightarrow> bool \<Rightarrow> nat \<Rightarrow> Game \<Rightarrow> Game" where
  "Bot_reactive_dodge ph lv playerFired i g =
     (if playerFired
      then (let angleDiff = reverseAngle ph (body_rotation (player g))
                              - normalizeAngle ph (body_rotation (bots g ! i))
            in if angleDiff < Bot_VIEW_ANGLE \<and> angleDiff > - Bot_VIEW_ANGLE
               then (let f = rnd_frac ph (rnd_count g);
                         g1 = g\<lparr>rnd_count := Suc (rnd_count g)\<rparr>
                     in if f \<le> 1 / 4 + min (2 / 4) (2 / 4 * real_of_int lv / 100)
                        then Bot__dodge ph (0.005 * real_of_int lv) i g1
                        else g1)
               else g)
      else g)"

definition Bot_advance_move ::
  "phaser \<Rightarrow> real \<Rightarrow> real \<Rightarrow> real \<Rightarrow> real \<Rightarrow> int \<Rightarrow> bool \<Rightarrow> nat \<Rightarrow> Game \<Rightarrow> Game" where
  "Bot_advance_move ph pe fps e speed lv playerFired i g =
     Bot_reactive_dodge ph lv playerFired i
       (Bot_random_dodge ph pe fps e lv i
          (upd_bot i (Bot_move ph speed (player g)) g))"

definition Bot_advance ::
  "phaser \<Rightarrow> real \<Rightarrow> real \<Rightarrow> real \<Rightarrow> real \<Rightarrow> int \<Rightarrow> bool \<Rightarrow> nat \<Rightarrow> Game \<Rightarrow> Game option" where
  "Bot_advance ph pe fps e speed lv playerFired i g =
     (case Bot_advance_shoot ph e lv i g of
        None \<Rightarrow> None
      | Some g1 \<Rightarrow>
          if dodging (bots g1 ! i)
          then Some (upd_bot i (Bot_advance_dodging e speed) g1)
          else Some (Bot_advance_move ph pe fps e speed lv playerFired i g1))"

text \<open>\<open>BotGroup.prototype.advance\<close>: the loop over the children, \<open>k\<close> of them left from
  index \<open>i\<close> on (the length is read once, before the loop).\<close>

fun BotGroup_advance_loop ::
  "phaser \<Rightarrow> real \<Rightarrow> real \<Rightarrow> real \<Rightarrow> real \<Rightarrow> int \<Rightarrow> bool \<Rightarrow> nat \<Rightarrow> nat \<Rightarrow> Game \<Rightarrow> Game option" where
  "BotGroup_advance_loop ph pe fps e speed lv playerFired 0 i g = Some g"
| "BotGroup_advance_loop ph pe fps e speed lv playerFired (Suc k) i g =
     (if alive (bots g ! i)
      then (case Bot_advance ph pe fps e speed lv playerFired i g of
              None \<Rightarrow> None
            | Some g1 \<Rightarrow> BotGroup_advance_loop ph pe fps e speed lv playerFired k (Suc i) g1)
      else BotGroup_advance_loop ph pe fps e speed lv playerFired k (Suc i) g)"

definition BotGroup_advance ::
  "phaser \<Rightarrow> real \<Rightarrow> real \<Rightarrow> real \<Rightarrow> real \<Rightarrow> int \<Rightarrow> bool \<Rightarrow> Game \<Rightarrow> Game option" where
  "BotGroup_advance ph pe fps e speed lv playerFired g =
     BotGroup_advance_loop ph pe fps e speed lv playerFired (length (bots g)) 0 g"

text \<open>\<open>BulletGroup.prototype.advance\<close>.\<close>

definition BulletGroup_advance :: "real \<Rightarrow> Bullet list \<Rightarrow> Bullet list" where
  "BulletGroup_advance speed bs =
     map (\<lambda>b. if alive b then moveForward (body_rotation b) speed b else b) bs"

section \<open>The level: start, spawning, the tick\<close>

text \<open>The getters \<open>superhot\<close>, \<open>_hotswitchTimeout\<close> and \<open>_spriteScale\<close>.\<close>

definition countLiving :: "Bot list \<Rightarrow> nat" where
  "countLiving bs = length (filter alive bs)"

definition superhot :: "Game \<Rightarrow> bool" where
  "superhot g \<longleftrightarrow> counts_bots g = 0 \<and> countLiving (bots g) = 0"

definition Game_hotswitchTimeout :: "Game \<Rightarrow> real" where
  "Game_hotswitchTimeout g =
     (if superhotswitch (mutators g) then superhotswitchTimeout else hotswitchTimeout)"

definition bigheadScale :: real where "bigheadScale = 1.5"
definition chibiScale :: real where "chibiScale = 0.667"

definition spriteScale :: "Mutators \<Rightarrow> real" where
  "spriteScale m =
     (if bighead m \<and> chibi m then 1
      else if bighead m then bigheadScale
      else if chibi m then chibiScale
      else 1)"

text \<open>\<open>Supercold.Game.prototype.init\<close>: the number of bots of a level and the bullet budget.\<close>

definition init_bots :: "int \<Rightarrow> int" where
  "init_bots lv =
     (if lv = 9 \<or> lv = 19 \<or> lv = 29 \<or> lv = 39 \<or> lv = 49 \<or> lv = 74 then 6 + lv
      else if lv mod 10 = 0 then lv
      else 5 + \<lfloor>real_of_int lv * 0.666\<rfloor>)"

definition init_bullets :: "Mutators \<Rightarrow> int \<Rightarrow> int" where
  "init_bullets m nbots = (if lmtdbull m then nbots * 3 else - 1)"

text \<open>\<open>_createPlayerWeapon\<close>: the best gun that the stored selection enables.\<close>

definition playerGun :: "(gun \<Rightarrow> bool) \<Rightarrow> gun" where
  "playerGun guns =
     (if guns Rifle then Rifle
      else if guns DbShotgun then DbShotgun
      else if guns Shotgun then Shotgun
      else if guns Blunderbuss then Blunderbuss
      else if guns Burst3 then Burst3
      else if guns Burst then Burst
      else Pistol)"

text \<open>\<open>_assignBotWeapon\<close>: the gun chosen for a level and a roll \<open>chance\<close>.\<close>

definition assignBotWeapon :: "int \<Rightarrow> real \<Rightarrow> gun" where
  "assignBotWeapon lv chance =
     (if lv = 9 then Burst
      else if lv = 19 then Blunderbuss
      else if lv = 29 then Shotgun
      else if lv = 39 then Burst3
      else if lv = 49 then DbShotgun
      else if lv = 74 then Rifle
      else if chance < 0.02 then Rifle
      else if chance < 0.05 then DbShotgun
      else if chance < 0.20 then Shotgun
      else if chance < 0.25 then Blunderbuss
      else if chance < 0.42 then Burst3
      else if chance < 0.66 then Burst
      else Pistol)"

text \<open>\<open>_setBotMovement\<close>: the mover chosen, from draw \<open>n\<close> on, and the next free draw.\<close>

definition setBotMovement :: "phaser \<Rightarrow> nat \<Rightarrow> int \<Rightarrow> mover \<times> nat" where
  "setBotMovement ph n lv =
     (let distance = 300; chance = rnd_frac ph n
      in if lv \<ge> 20
         then (if chance < 2 / 10
               then (StrafingMover (rnd_between ph (n + 1) distance (distance + 100))
                       (rnd_sign ph (n + 2) * pi / 2), n + 3)
               else if chance < 4 / 10
               then (StrafingDistantMover (rnd_between ph (n + 1) distance (distance + 100))
                       (rnd_sign ph (n + 2) * pi / 2), n + 3)
               else if chance < 7 / 10
               then (DistantMover (rnd_between ph (n + 1) distance (distance + 100)), n + 2)
               else (ForwardMover, n + 1))
         else (if chance < 1 / 5
               then (StrafingDistantMover (rnd_between ph (n + 1) distance (distance + 150))
                       (rnd_sign ph (n + 2) * pi / 2), n + 3)
               else if chance < 3 / 5
               then (DistantMover (rnd_between ph (n + 1) distance (distance + 150)), n + 2)
               else (ForwardMover, n + 1)))"

text \<open>\<open>this._groups.bots.getFirstDead(CREATE_IF_NULL, x, y)\<close>: a dead bot, reset, or a new
  one appended to the group.\<close>

definition bots_getFirstDead :: "real \<Rightarrow> real \<Rightarrow> Game \<Rightarrow> nat \<times> Game" where
  "bots_getFirstDead px py g =
     (case firstIndex (\<lambda>b. \<not> alive b) (bots g) of
        Some i \<Rightarrow> (i, upd_bot i (Bot_reset px py) g)
      | None \<Rightarrow> (length (bots g),
                   g\<lparr>bots := bots g @ [new_Bot (spriteScale (mutators g)) px py]\<rparr>))"

text \<open>\<open>Supercold.Game.prototype._spawnBot\<close>.\<close>

definition Game_spawnBot :: "phaser \<Rightarrow> bool \<Rightarrow> Game \<Rightarrow> Game" where
  "Game_spawnBot ph closer g =
     (let p = player g;
          radius0 = ((NATIVE_WIDTH + NATIVE_HEIGHT) / 2) / 2;
          rad = (if closer then radius0 - (2 * player_radius) * 2 else radius0);
          n = rnd_count g;
          angle = rnd_realInRange ph n 0 (2 * pi);
          px0 = spr_x p + rad * cos angle;
          py0 = spr_y p + rad * sin angle;
          px = (if px0 < 0 then max px0 bounds_left else min px0 bounds_right);
          py = (if py0 < 0 then max py0 bounds_top else min py0 bounds_bottom);
          g1 = g\<lparr>counts_bots := counts_bots g - 1\<rparr>;
          (i, g2) = bots_getFirstDead px py g1;
          chance = rnd_frac ph (n + 1) * max 0.2 (1 - (real_of_int (level g) - 1) / 100);
          (mv, n') = setBotMovement ph (n + 2) (level g)
      in (upd_bot i (\<lambda>b. b\<lparr>weapon := Some (BotWeapon (assignBotWeapon (level g) chance)),
                             move := mv\<rparr>) g2)
         \<lparr>rnd_count := n'\<rparr>)"

text \<open>
  \<open>init\<close> followed by \<open>create\<close>: the state in which a level starts. \<open>guns\<close> is the stored gun
  selection, \<open>cnt\<close> the value of the global \<open>Bullet.count\<close>, \<open>e0\<close> the state object's
  \<open>_elapsedTime\<close> left over from before.
\<close>

definition Game_create :: "phaser \<Rightarrow> int \<Rightarrow> Mutators \<Rightarrow> (gun \<Rightarrow> bool) \<Rightarrow> nat \<Rightarrow> real \<Rightarrow> Game" where
  "Game_create ph lv m guns cnt e0 =
     (let sc = spriteScale m;
          rad = player_radius * sc;
          px = rnd_sign ph 0 * rnd_between ph 1 0 (bounds_right - PADDING_width - rad);
          py = rnd_sign ph 2 * rnd_between ph 3 0 (bounds_bottom - PADDING_height - rad);
          g0 = \<lparr>level = lv, mutators = m,
                 counts_bots = init_bots lv, counts_bullets = init_bullets m (init_bots lv),
                 next_botTime = 0, next_hotSwitch = 0, elapsedTime = e0, hotswitching = False,
                 player = new_Player px py sc, bots = [], playerBullets = [], botBullets = [],
                 weapons = (\<lambda>r. case r of
                     PlayerWeapon \<Rightarrow> new_Weapon (playerGun guns) PlayerBullets
                                       (if fastgun m then fastFireFactor else 1)
                   | BotWeapon k \<Rightarrow> new_Weapon k BotBullets 1),
                 trails = [], liveTrails = Map.empty, Bullet_count = cnt, rnd_count = 4,
                 inputHandler = True, playerCollidesBullets = True, botTween = NoTween,
                 superhot_calls = 0, savedLevel = None, loseOverlay = False,
                 camera_flashes = 0\<rparr>;
          g1 = Game_spawnBot ph True g0
      in g1\<lparr>next_botTime := rnd_realInRange ph (rnd_count g1) 0.05 0.10,
            rnd_count := Suc (rnd_count g1),
            next_hotSwitch := Game_hotswitchTimeout g1,
            hotswitching := False\<rparr>)"

text \<open>\<open>Supercold.Game.prototype._firePlayerBullet\<close>: whether a bullet was fired, and the
  game afterwards.\<close>

definition Game_firePlayerBullet :: "phaser \<Rightarrow> Game \<Rightarrow> (bool \<times> Game) option" where
  "Game_firePlayerBullet ph g =
     (if remainingTime (player g) > 0 \<or> counts_bullets g = 0 then Some (False, g)
      else case Player_fire ph g of
             None \<Rightarrow> None
           | Some g1 \<Rightarrow> Some (True, g1\<lparr>counts_bullets := counts_bullets g1 - 1\<rparr>))"

text \<open>What the host hands to one call of \<open>update\<close>: the keys and the pointer as sampled, the
  angle from the player to the pointer, and the clock.\<close>

record dirkeys =
  key_up :: bool
  key_down :: bool
  key_left :: bool
  key_right :: bool

record Input =
  wasd :: dirkeys
  cursors :: dirkeys
  fireKey_isDown :: bool
  dodgeKey_isDown :: bool
  fireButton_isDown :: bool
  fireButton_shiftKey :: bool
  angleToPointer :: real
  physicsElapsed :: real
  desiredFps :: real

text \<open>The local variables of \<open>Supercold.Game.prototype.update\<close>.\<close>

definition verVec_y :: "Input \<Rightarrow> real" where
  "verVec_y inp =
     (if key_up (wasd inp) \<or> key_up (cursors inp) then 1
      else if key_down (wasd inp) \<or> key_down (cursors inp) then - 1
      else 0)"

definition horVec_x :: "Input \<Rightarrow> real" where
  "horVec_x inp =
     (if key_left (wasd inp) \<or> key_left (cursors inp) then - 1
      else if key_right (wasd inp) \<or> key_right (cursors inp) then 1
      else 0)"

definition update_playerMoved :: "Input \<Rightarrow> Game \<Rightarrow> bool" where
  "update_playerMoved inp g \<longleftrightarrow> (verVec_y inp \<noteq> 0 \<or> horVec_x inp \<noteq> 0) \<or> dodging (player g)"

definition update_playerRotated :: "Input \<Rightarrow> Game \<Rightarrow> bool" where
  "update_playerRotated inp g \<longleftrightarrow>
     fst (Player_rotate (angleToPointer inp) (player g)) \<and> \<not> freelook (mutators g)"

definition update_bulletSpeed :: "Input \<Rightarrow> Game \<Rightarrow> real" where
  "update_bulletSpeed inp g =
     Game_getSpeed (mutators g) (alive (player g)) (update_playerMoved inp g)
       (update_playerRotated inp g) speeds_bullet"

definition update_botSpeed :: "Input \<Rightarrow> Game \<Rightarrow> real" where
  "update_botSpeed inp g =
     Game_getSpeed (mutators g) (alive (player g)) (update_playerMoved inp g)
       (update_playerRotated inp g) speeds_bot"

definition update_elapsedTime :: "Input \<Rightarrow> Game \<Rightarrow> real" where
  "update_elapsedTime inp g =
     physicsElapsed inp * (update_bulletSpeed inp g / normal speeds_bullet)"

text \<open>\<open>Supercold.Game.prototype.update\<close>, in the order of its body: the player's controls,
  the hotswitch cooldown, the spawn countdown, the bots, the bullets.\<close>

definition update_player :: "phaser \<Rightarrow> Input \<Rightarrow> bool \<Rightarrow> real \<Rightarrow> Game \<Rightarrow> (bool \<times> Game) option" where
  "update_player ph inp moved e g =
     (if alive (player g)
      then (case (if (fireButton_isDown inp \<and> \<not> fireButton_shiftKey inp) \<or> fireKey_isDown inp
                  then Game_firePlayerBullet ph g
                  else Some (False, g)) of
              None \<Rightarrow> None
            | Some (playerFired, g1) \<Rightarrow>
                (let newDirection = angleBetween ph (0, verVec_y inp) (horVec_x inp, 0);
                     p1 = (if moved \<and> dodge (mutators g1) \<and> dodgeKey_isDown inp
                           then Player_dodge newDirection (player g1)
                           else player g1)
                 in Some (playerFired, g1\<lparr>player := Player_advance moved newDirection e p1\<rparr>)))
      else Some (False, g))"

definition update_hotSwitch :: "real \<Rightarrow> Game \<Rightarrow> Game" where
  "update_hotSwitch e g =
     (if \<not> hotswitching g then g\<lparr>next_hotSwitch := next_hotSwitch g - e\<rparr> else g)"

definition update_spawn :: "phaser \<Rightarrow> real \<Rightarrow> Game \<Rightarrow> Game" where
  "update_spawn ph e g =
     (if counts_bots g > 0
      then (let g1 = g\<lparr>next_botTime := next_botTime g - e\<rparr>
            in if next_botTime g1 \<le> 0
               then (let g2 = Game_spawnBot ph False g1
                     in g2\<lparr>next_botTime :=
                             rnd_realInRange ph (rnd_count g2)
                               (max (1.2 - 0.010 * real_of_int (level g2)) 0.5)
                               (max (1.8 - 0.015 * real_of_int (level g2)) 0.5),
                           rnd_count := Suc (rnd_count g2)\<rparr>)
               else g1)
      else g)"

definition Game_update :: "phaser \<Rightarrow> Input \<Rightarrow> Game \<Rightarrow> Game option" where
  "Game_update ph inp g =
     (if superhot g then Some g
      else (let moved = update_playerMoved inp g;
                bulletSpeed = update_bulletSpeed inp g;
                botSpeed = update_botSpeed inp g;
                e = update_elapsedTime inp g;
                g1 = g\<lparr>player := snd (Player_rotate (angleToPointer inp) (player g)),
                       elapsedTime := e\<rparr>
            in case update_player ph inp moved e g1 of
                 None \<Rightarrow> None
               | Some (playerFired, g2) \<Rightarrow>
                   (case BotGroup_advance ph (physicsElapsed inp) (desiredFps inp) e botSpeed
                           (level g2) playerFired (update_spawn ph e (update_hotSwitch e g2)) of
                      None \<Rightarrow> None
                    | Some g3 \<Rightarrow>
                        Some (g3\<lparr>playerBullets := BulletGroup_advance bulletSpeed (playerBullets g3),
                                 botBullets := BulletGroup_advance bulletSpeed (botBullets g3)\<rparr>))))"

section \<open>Collision handlers\<close>

text \<open>\<open>bulletHandler\<close>: each bullet kills itself; the other one is killed by its own call.\<close>

definition bulletHandler :: "bullet_ref \<Rightarrow> bullet_ref \<Rightarrow> Game \<Rightarrow> Game" where
  "bulletHandler myBullet otherBullet g = Bullet_kill myBullet g"

text \<open>\<open>Supercold.Game.prototype._superhot\<close>: the player stops, the next level is saved and the
  victory sequence is scheduled.\<close>

definition Game_superhot :: "Game \<Rightarrow> Game" where
  "Game_superhot g =
     g\<lparr>player := setZeroVelocity (player g),
       savedLevel := Some (level g + 1),
       superhot_calls := Suc (superhot_calls g)\<rparr>"

text \<open>\<open>Supercold.Game.prototype._botKillHandler\<close>.\<close>

definition Game_botKillHandler :: "nat \<Rightarrow> bullet_ref \<Rightarrow> Game \<Rightarrow> Game" where
  "Game_botKillHandler i r g =
     (if \<not> alive (bots g ! i) then g
      else (let g1 = upd_bot i Phaser_kill g;
                g2 = Bullet_kill r g1
            in if superhot g2 then Game_superhot g2 else g2))"

text \<open>\<open>Supercold.Game.prototype._lose\<close>.\<close>

definition Game_lose :: "bullet_ref \<Rightarrow> Game \<Rightarrow> Game" where
  "Game_lose r g =
     (if \<not> alive (bullets_of (fst r) g ! snd r) then g
      else (let g1 = Bullet_kill r g
            in if \<not> alive (player g1) then g1
               else if secondchance (mutators g1)
               then g1\<lparr>mutators := (mutators g1)\<lparr>secondchance := False\<rparr>\<rparr>
               else if superhot g1 \<or> godmode (mutators g1) then g1
               else g1\<lparr>loseOverlay := True, inputHandler := False,
                       playerCollidesBullets := False,
                       player := Phaser_kill (player g1)\<rparr>))"

text \<open>
  The physics engine reports a contact between two bodies by calling, for each of the two,
  the callback that body registered for the other's collision group. The registrations are
  those of \<open>customizeBullet\<close> (bullets against bullets), \<open>_spawnBot\<close> (bots against bullets)
  and \<open>create\<close> (the player against bullets, until \<open>_lose\<close> removes the player's collision
  groups).
\<close>

datatype body_ref = PlayerBody | BotBody nat | BulletBody bullet_ref

definition callback :: "body_ref \<Rightarrow> body_ref \<Rightarrow> Game \<Rightarrow> Game" where
  "callback a b g =
     (case (a, b) of
        (BulletBody r, BulletBody r') \<Rightarrow> bulletHandler r r' g
      | (BotBody i, BulletBody r) \<Rightarrow> Game_botKillHandler i r g
      | (PlayerBody, BulletBody r) \<Rightarrow> if playerCollidesBullets g then Game_lose r g else g
      | _ \<Rightarrow> g)"

definition contact :: "body_ref \<Rightarrow> body_ref \<Rightarrow> Game \<Rightarrow> Game" where
  "contact a b g = callback b a (callback a b g)"

section \<open>The hotswitch\<close>

record Pointer =
  leftButton_isDown :: bool
  leftButton_shiftKey :: bool
  rightButton_isDown :: bool

text \<open>The handler \<open>hotswitch\<close> that \<open>_addBotInputHandler\<close> adds to the bots' input signal,
  called for a click on bot \<open>i\<close>.\<close>

definition hotswitch :: "nat \<Rightarrow> Pointer \<Rightarrow> Game \<Rightarrow> Game" where
  "hotswitch i pointer g =
     (if \<not> ((leftButton_isDown pointer \<and> leftButton_shiftKey pointer) \<or> rightButton_isDown pointer)
      then g
      else if next_hotSwitch g > 0 then g
      else if hotswitching g then g
      else g\<lparr>hotswitching := True, botTween := FadeOut i\<rparr>)"

text \<open>The callbacks \<open>swap\<close> (when the fade-out completes) and \<open>endHotswitch\<close> (when the
  fade-in completes).\<close>

definition swap :: "nat \<Rightarrow> Game \<Rightarrow> Game" where
  "swap i g =
     (let p = player g; b = bots g ! i
      in g\<lparr>player := p\<lparr>body_x := body_x b, body_y := body_y b\<rparr>,
           bots := (bots g)[i := b\<lparr>body_x := body_x p, body_y := body_y p\<rparr>],
           camera_flashes := Suc (camera_flashes g),
           next_hotSwitch := Game_hotswitchTimeout g,
           botTween := FadeIn i\<rparr>)"

definition endHotswitch :: "Game \<Rightarrow> Game" where
  "endHotswitch g = g\<lparr>hotswitching := False, botTween := NoTween\<rparr>"

section \<open>Events of a level\<close>

text \<open>
  What can happen to the game between the start of a level and its end: a tick of the host
  loop, a click on a bot (delivered while the handler is attached), the completion of the
  bot's running tween, a contact reported by the physics step, and a bullet found outside
  the world by its \<open>preUpdate\<close>.
\<close>

datatype event =
    Tick Input
  | InputDown nat Pointer
  | TweenComplete
  | Contact body_ref body_ref
  | OutOfWorld bullet_ref

text \<open>A contact names bodies that exist: the player, a child of the bot group, a child of
  a bullet group.\<close>

definition valid_body :: "body_ref \<Rightarrow> Game \<Rightarrow> bool" where
  "valid_body a g =
     (case a of
        PlayerBody \<Rightarrow> True
      | BotBody i \<Rightarrow> i < length (bots g)
      | BulletBody r \<Rightarrow> snd r < length (bullets_of (fst r) g))"

definition step :: "phaser \<Rightarrow> event \<Rightarrow> Game \<Rightarrow> Game option" where
  "step ph ev g =
     (case ev of
        Tick inp \<Rightarrow> Game_update ph inp g
      | InputDown i pointer \<Rightarrow>
          Some (if inputHandler g \<and> i < length (bots g) then hotswitch i pointer g else g)
      | TweenComplete \<Rightarrow>
          Some (case botTween g of
                  NoTween \<Rightarrow> g
                | FadeOut i \<Rightarrow> swap i g
                | FadeIn i \<Rightarrow> endHotswitch g)
      | Contact a b \<Rightarrow> Some (if valid_body a g \<and> valid_body b g then contact a b g else g)
      | OutOfWorld r \<Rightarrow>
          Some (if snd r < length (bullets_of (fst r) g) \<and> alive (bullets_of (fst r) g ! snd r)
                then Bullet_kill r g else g))"

fun run :: "phaser \<Rightarrow> event list \<Rightarrow> Game \<Rightarrow> Game option" where
  "run ph [] g = Some g"
| "run ph (ev # evs) g = (case step ph ev g of None \<Rightarrow> None | Some g1 \<Rightarrow> run ph evs g1)"

text \<open>
  Whether a tick fires the player's weapon: the value of \<open>playerFired\<close> in \<open>update\<close>. And the
  number of ticks of a run that do.
\<close>

definition update_playerFired :: "phaser \<Rightarrow> Input \<Rightarrow> Game \<Rightarrow> bool" where
  "update_playerFired ph inp g =
     (if superhot g then False
      else case update_player ph inp (update_playerMoved inp g) (update_elapsedTime inp g)
                  (g\<lparr>player := snd (Player_rotate (angleToPointer inp) (player g)),
                     elapsedTime := update_elapsedTime inp g\<rparr>) of
             None \<Rightarrow> False
           | Some (playerFired, g2) \<Rightarrow> playerFired)"

fun shots_fired :: "phaser \<Rightarrow> event list \<Rightarrow> Game \<Rightarrow> nat" where
  "shots_fired ph [] g = 0"
| "shots_fired ph (ev # evs) g =
     (case step ph ev g of
        None \<Rightarrow> 0
      | Some g1 \<Rightarrow>
          (case ev of Tick inp \<Rightarrow> (if update_playerFired ph inp g then 1 else 0) | _ \<Rightarrow> 0)
            + shots_fired ph evs g1)"

section \<open>Projections used in the proofs\<close>

text \<open>What the bullet and trail operations leave alone, what firing a weapon leaves alone,
  what the operations on one bot leave alone, and what a whole tick leaves alone.\<close>

definition frame_bullets where
  "frame_bullets g =
     (level g, mutators g, counts_bots g, counts_bullets g, next_botTime g, next_hotSwitch g,
      elapsedTime g, hotswitching g, player g, bots g, weapons g, rnd_count g,
      inputHandler g, playerCollidesBullets g, botTween g, superhot_calls g, savedLevel g,
      loseOverlay g, camera_flashes g)"

definition frame_fire where
  "frame_fire g =
     (level g, mutators g, counts_bots g, counts_bullets g, next_botTime g, next_hotSwitch g,
      elapsedTime g, hotswitching g, player g, bots g,
      inputHandler g, playerCollidesBullets g, botTween g, superhot_calls g, savedLevel g,
      loseOverlay g, camera_flashes g)"

definition frame_bot where
  "frame_bot g =
     (level g, mutators g, counts_bots g, counts_bullets g, next_botTime g, next_hotSwitch g,
      elapsedTime g, hotswitching g, player g, map alive (bots g), map weapon (bots g),
      inputHandler g, playerCollidesBullets g, botTween g, superhot_calls g, savedLevel g,
      loseOverlay g, camera_flashes g)"

definition frame_tick where
  "frame_tick g =
     (level g, mutators g, hotswitching g, inputHandler g, playerCollidesBullets g,
      botTween g, superhot_calls g, savedLevel g, loseOverlay g, camera_flashes g)"

section \<open>Invariants used in the proofs\<close>

text \<open>The win sequence has been started once if the level is won, and not at all
  otherwise.\<close>

definition win_inv :: "Game \<Rightarrow> bool" where
  "win_inv g \<longleftrightarrow> superhot_calls g = (if superhot g then 1 else 0)"

text \<open>Every living bullet has an owner.\<close>

definition owned :: "Bullet list \<Rightarrow> bool" where
  "owned bs \<longleftrightarrow> (\<forall>b \<in> set bs. alive b \<longrightarrow> owner b \<noteq> None)"

definition bullets_inv :: "Game \<Rightarrow> bool" where
  "bullets_inv g \<longleftrightarrow> owned (bullets_of PlayerBullets g) \<and> owned (bullets_of BotBullets g)"

text \<open>The player and every bot hold a weapon.\<close>

definition weapons_ok :: "Game \<Rightarrow> bool" where
  "weapons_ok g \<longleftrightarrow> weapon (player g) \<noteq> None \<and> (\<forall>b \<in> set (bots g). weapon b \<noteq> None)"

section \<open>Running the model\<close>

text \<open>Firing one weapon \<open>k\<close> times in a row from the same stance, keeping the weapon and the
  draw counter.\<close>

fun Weapon_fire_times :: "phaser \<Rightarrow> nat \<Rightarrow> nat \<Rightarrow> Weapon \<Rightarrow> real \<Rightarrow> real \<Rightarrow> real \<Rightarrow> Weapon \<times> nat" where
  "Weapon_fire_times ph 0 n w ex ey rot = (w, n)"
| "Weapon_fire_times ph (Suc k) n w ex ey rot =
     (case Weapon_fire ph n w ex ey rot of
        (shots, w', n') \<Rightarrow> Weapon_fire_times ph k n' w' ex ey rot)"

text \<open>A generator used to run the model on concrete inputs: every ranged draw returns its
  lower bound, every \<open>frac\<close> is \<open>0\<close>, geometry helpers return \<open>0\<close>.\<close>

definition phaser0 :: phaser where
  "phaser0 =
     \<lparr>rnd_frac = (\<lambda>i. 0), rnd_realInRange = (\<lambda>i lo hi. lo), rnd_between = (\<lambda>i lo hi. lo),
      rnd_sign = (\<lambda>i. 1), angleBetween = (\<lambda>a b. 0), distanceBetween = (\<lambda>a b. 0),
      reverseAngle = (\<lambda>a. 0), normalizeAngle = (\<lambda>a. 0)\<rparr>"


text \<open>No mutators, no keys pressed, and the first level started with them.\<close>

definition mutators0 :: Mutators where
  "mutators0 =
     \<lparr>freelook = False, fasttime = False, freezetime = False, fastgun = False,
      bighead = False, chibi = False, dodge = False, lmtdbull = False,
      superhotswitch = False, secondchance = False, godmode = False\<rparr>"

definition nokeys :: dirkeys where
  "nokeys = \<lparr>key_up = False, key_down = False, key_left = False, key_right = False\<rparr>"

definition input0 :: Input where
  "input0 =
     \<lparr>wasd = nokeys, cursors = nokeys, fireKey_isDown = False, dodgeKey_isDown = False,
      fireButton_isDown = False, fireButton_shiftKey = False, angleToPointer = 0,
      physicsElapsed = 1 / 60, desiredFps = 60\<rparr>"

definition game0 :: Game where
  "game0 = Game_create phaser0 1 mutators0 (\<lambda>k. False) 0 0"

text \<open>A right click, which asks for a hotswitch.\<close>

definition rightClick :: Pointer where
  "rightClick = \<lparr>leftButton_isDown = False, leftButton_shiftKey = False, rightButton_isDown = True\<rparr>"

text \<open>The first level once it is won (the last bot dead, nothing left to spawn) with one of
  the bots' bullets still in flight.\<close>

definition game_won :: Game where
  "game_won =
     game0\<lparr>counts_bots := 0,
           bots := [Phaser_kill (bots game0 ! 0)],
           botBullets := [(new_Bullet 0)\<lparr>alive := True, exists := True, owner := Some (TheBot 0)\<rparr>],
           superhot_calls := 1, savedLevel := Some 2\<rparr>"


text \<open>The first level with limited bullets, and a tick with the fire key down.\<close>

definition game_lmtd :: Game where
  "game_lmtd = Game_create phaser0 1 (mutators0\<lparr>lmtdbull := True\<rparr>) (\<lambda>k. False) 0 0"

definition input_fire :: Input where
  "input_fire = input0\<lparr>fireKey_isDown := True\<rparr>"


section \<open>The generator's contract\<close>

lemma rnd_realInRange_bounds:
  "rnd_contract ph \<Longrightarrow> lo \<le> hi \<Longrightarrow>
     lo \<le> rnd_realInRange ph i lo hi \<and> rnd_realInRange ph i lo hi \<le> hi"
  unfolding rnd_contract_def by blast


section \<open>The rifle's cadence\<close>

lemma Rifle_fire_step:
  "kind w = Rifle \<Longrightarrow> Weapon_fire ph n w ex ey rot =
     (Rifle_shots ph n ex ey rot, fst (Rifle_cadence ph (Suc n) w), snd (Rifle_cadence ph (Suc n) w))"
  by (simp add: Weapon_fire_def split: prod.splits)

lemma Rifle_fire_times_early:
  "kind w = Rifle \<Longrightarrow> 0 < j \<Longrightarrow> int j < bulletCount w \<Longrightarrow>
   Weapon_fire_times ph j n w ex ey rot =
     (w\<lparr>bulletCount := bulletCount w - int j,
        fireRate := Rifle_FIRE_RATE * fireFactor w * rnd_realInRange ph (n + 2 * j - 1) 0.9 1.4\<rparr>,
      n + 2 * j)"
proof (induction j arbitrary: n w)
  case 0
  then show ?case by simp
next
  case (Suc j)
  let ?w1 = "w\<lparr>bulletCount := bulletCount w - 1,
        fireRate := Rifle_FIRE_RATE * fireFactor w * rnd_realInRange ph (Suc n) 0.9 1.4\<rparr>"
  have c: "Rifle_cadence ph (Suc n) w = (?w1, Suc (Suc n))"
    using Suc.prems by (simp add: Rifle_cadence_def Let_def)
  have step: "Weapon_fire_times ph (Suc j) n w ex ey rot = Weapon_fire_times ph j (Suc (Suc n)) ?w1 ex ey rot"
    using Suc.prems by (simp add: Rifle_fire_step c)
  show ?case
  proof (cases "j = 0")
    case True
    then show ?thesis using step by simp
  next
    case False
    have "Weapon_fire_times ph j (Suc (Suc n)) ?w1 ex ey rot =
      (?w1\<lparr>bulletCount := bulletCount ?w1 - int j,
        fireRate := Rifle_FIRE_RATE * fireFactor ?w1 * rnd_realInRange ph (Suc (Suc n) + 2 * j - 1) 0.9 1.4\<rparr>,
      Suc (Suc n) + 2 * j)"
      using Suc.prems False by (intro Suc.IH) auto
    then show ?thesis using step by (simp add: algebra_simps)
  qed
qed

lemma Rifle_fire_last:
  "kind w = Rifle \<Longrightarrow> bulletCount w = 1 \<Longrightarrow>
   Weapon_fire_times ph (Suc 0) n w ex ey rot =
     (w\<lparr>bulletCount := Rifle_BULLET_COUNT, fireRate := Rifle_FIRE_RATE * fireFactor w * 3.5\<rparr>, Suc n)"
  by (simp add: Rifle_fire_step Rifle_cadence_def Let_def)

lemma Weapon_fire_times_add:
  "Weapon_fire_times ph (j + k) n w ex ey rot =
     (case Weapon_fire_times ph j n w ex ey rot of (w', n') \<Rightarrow> Weapon_fire_times ph k n' w' ex ey rot)"
  by (induction j arbitrary: n w) (auto split: prod.splits)

text \<open>
  C6. A rifle starts with a shot counter of 10. Fired repeatedly from that state, each of
  the first nine shots leaves the counter one lower and sets the fire rate to the base rate
  (\<open>Rifle.FIRE_RATE\<close> times the fire factor) times the value drawn by
  \<open>rnd.realInRange(0.9, 1.4)\<close>, which lies between 0.9 and 1.4 times the base rate when the
  generator keeps to its bounds; the tenth shot sets the fire rate to 3.5 times the base
  rate and puts the counter back to 10.
\<close>

theorem Rifle_cadence_cycle:
  assumes "kind w = Rifle" and "bulletCount w = Rifle_BULLET_COUNT"
  shows "bulletCount (new_Weapon Rifle grp ff) = 10 \<and>
    (\<forall>j. 0 < j \<and> j < 10 \<longrightarrow>
       bulletCount (fst (Weapon_fire_times ph j n w ex ey rot)) = 10 - int j \<and>
       fireRate (fst (Weapon_fire_times ph j n w ex ey rot)) =
         Rifle_FIRE_RATE * fireFactor w * rnd_realInRange ph (n + 2 * j - 1) 0.9 1.4 \<and>
       (rnd_contract ph \<and> 0 \<le> fireFactor w \<longrightarrow>
          Rifle_FIRE_RATE * fireFactor w * 0.9 \<le> fireRate (fst (Weapon_fire_times ph j n w ex ey rot)) \<and>
          fireRate (fst (Weapon_fire_times ph j n w ex ey rot)) \<le> Rifle_FIRE_RATE * fireFactor w * 1.4)) \<and>
    fireRate (fst (Weapon_fire_times ph 10 n w ex ey rot)) = Rifle_FIRE_RATE * fireFactor w * 3.5 \<and>
    bulletCount (fst (Weapon_fire_times ph 10 n w ex ey rot)) = 10"
proof -
  have new: "bulletCount (new_Weapon Rifle grp ff) = 10"
    by (simp add: new_Weapon_def Rifle_BULLET_COUNT_def)
  have early: "Weapon_fire_times ph j n w ex ey rot =
     (w\<lparr>bulletCount := bulletCount w - int j,
        fireRate := Rifle_FIRE_RATE * fireFactor w * rnd_realInRange ph (n + 2 * j - 1) 0.9 1.4\<rparr>,
      n + 2 * j)" if "0 < j" "j < 10" for j
    using assms that by (intro Rifle_fire_times_early) (auto simp: Rifle_BULLET_COUNT_def)
  have base: "0 \<le> Rifle_FIRE_RATE"
    by (simp add: Rifle_FIRE_RATE_def baseFireRate_def)
  have rng: "Rifle_FIRE_RATE * fireFactor w * 0.9 \<le> Rifle_FIRE_RATE * fireFactor w * rnd_realInRange ph i 0.9 1.4 \<and>
      Rifle_FIRE_RATE * fireFactor w * rnd_realInRange ph i 0.9 1.4 \<le> Rifle_FIRE_RATE * fireFactor w * 1.4"
    if "rnd_contract ph" "0 \<le> fireFactor w" for i
  proof -
    define r where "r = rnd_realInRange ph i 0.9 1.4"
    define b where "b = Rifle_FIRE_RATE * fireFactor w"
    have r: "0.9 \<le> r" "r \<le> 1.4"
      using rnd_realInRange_bounds [OF that(1), of "0.9" "1.4" i] by (simp_all add: r_def)
    have b: "0 \<le> b" using base that(2) by (simp add: b_def)
    have "b * 0.9 \<le> b * r" by (rule mult_left_mono [OF r(1) b])
    moreover have "b * r \<le> b * 1.4" by (rule mult_left_mono [OF r(2) b])
    ultimately show ?thesis unfolding r_def b_def by blast
  qed
  have nine: "Weapon_fire_times ph 9 n w ex ey rot =
     (w\<lparr>bulletCount := bulletCount w - int 9,
        fireRate := Rifle_FIRE_RATE * fireFactor w * rnd_realInRange ph (n + 2 * 9 - 1) 0.9 1.4\<rparr>,
      n + 2 * 9)"
    by (rule early) simp_all
  have "Weapon_fire_times ph (9 + Suc 0) n w ex ey rot =
     (case Weapon_fire_times ph 9 n w ex ey rot of (w', n') \<Rightarrow> Weapon_fire_times ph (Suc 0) n' w' ex ey rot)"
    by (rule Weapon_fire_times_add)
  also have "\<dots> = Weapon_fire_times ph (Suc 0) (n + 2 * 9)
      (w\<lparr>bulletCount := bulletCount w - int 9,
        fireRate := Rifle_FIRE_RATE * fireFactor w * rnd_realInRange ph (n + 2 * 9 - 1) 0.9 1.4\<rparr>) ex ey rot"
    by (simp only: nine prod.case)
  also have "\<dots> = (w\<lparr>bulletCount := Rifle_BULLET_COUNT, fireRate := Rifle_FIRE_RATE * fireFactor w * 3.5\<rparr>,
      Suc (n + 2 * 9))"
    using assms by (subst Rifle_fire_last) (simp_all add: Rifle_BULLET_COUNT_def)
  finally have ten: "fst (Weapon_fire_times ph 10 n w ex ey rot) =
      w\<lparr>bulletCount := Rifle_BULLET_COUNT, fireRate := Rifle_FIRE_RATE * fireFactor w * 3.5\<rparr>"
    by simp
  have mid: "bulletCount (fst (Weapon_fire_times ph j n w ex ey rot)) = 10 - int j \<and>
       fireRate (fst (Weapon_fire_times ph j n w ex ey rot)) =
         Rifle_FIRE_RATE * fireFactor w * rnd_realInRange ph (n + 2 * j - 1) 0.9 1.4 \<and>
       (rnd_contract ph \<and> 0 \<le> fireFactor w \<longrightarrow>
          Rifle_FIRE_RATE * fireFactor w * 0.9 \<le> fireRate (fst (Weapon_fire_times ph j n w ex ey rot)) \<and>
          fireRate (fst (Weapon_fire_times ph j n w ex ey rot)) \<le> Rifle_FIRE_RATE * fireFactor w * 1.4)"
    if "0 < j \<and> j < 10" for j
  proof -
    have e: "fst (Weapon_fire_times ph j n w ex ey rot) =
       w\<lparr>bulletCount := bulletCount w - int j,
        fireRate := Rifle_FIRE_RATE * fireFactor w * rnd_realInRange ph (n + 2 * j - 1) 0.9 1.4\<rparr>"
      using early [of j] that by simp
    show ?thesis
      unfolding e using assms(2) rng [of "n + 2 * j - 1"] by (simp add: Rifle_BULLET_COUNT_def)
  qed
  have last: "fireRate (fst (Weapon_fire_times ph 10 n w ex ey rot)) = Rifle_FIRE_RATE * fireFactor w * 3.5 \<and>
    bulletCount (fst (Weapon_fire_times ph 10 n w ex ey rot)) = 10"
    unfolding ten by (simp add: Rifle_BULLET_COUNT_def)
  show ?thesis
    using new mid last by blast
qed

theorem Rifle_cadence_cycle_witness:
  "kind (new_Weapon Rifle PlayerBullets 1) = Rifle \<and>
   bulletCount (new_Weapon Rifle PlayerBullets 1) = Rifle_BULLET_COUNT \<and>
   bulletCount (fst (Weapon_fire_times phaser0 3 0 (new_Weapon Rifle PlayerBullets 1) 0 0 0)) = 7 \<and>
   fireRate (fst (Weapon_fire_times phaser0 3 0 (new_Weapon Rifle PlayerBullets 1) 0 0 0)) = 9 / 80 \<and>
   fireRate (fst (Weapon_fire_times phaser0 10 0 (new_Weapon Rifle PlayerBullets 1) 0 0 0)) = 7 / 16 \<and>
   bulletCount (fst (Weapon_fire_times phaser0 10 0 (new_Weapon Rifle PlayerBullets 1) 0 0 0)) = 10"
proof -
  have k: "kind (new_Weapon Rifle PlayerBullets 1) = Rifle"
    by (simp add: new_Weapon_def)
  have c: "bulletCount (new_Weapon Rifle PlayerBullets 1) = Rifle_BULLET_COUNT"
    by (simp add: new_Weapon_def)
  have ff: "fireFactor (new_Weapon Rifle PlayerBullets 1) = 1"
    by (simp add: new_Weapon_def)
  note t = Rifle_cadence_cycle [OF k c, of PlayerBullets 1 phaser0 0 0 0 0]
  from t have "bulletCount (fst (Weapon_fire_times phaser0 3 0 (new_Weapon Rifle PlayerBullets 1) 0 0 0)) = 10 - int 3 \<and>
       fireRate (fst (Weapon_fire_times phaser0 3 0 (new_Weapon Rifle PlayerBullets 1) 0 0 0)) =
         Rifle_FIRE_RATE * fireFactor (new_Weapon Rifle PlayerBullets 1) * rnd_realInRange phaser0 (0 + 2 * 3 - 1) 0.9 1.4"
    by (elim conjE allE [of _ 3]) simp
  moreover from t have "fireRate (fst (Weapon_fire_times phaser0 10 0 (new_Weapon Rifle PlayerBullets 1) 0 0 0)) = Rifle_FIRE_RATE * fireFactor (new_Weapon Rifle PlayerBullets 1) * 3.5 \<and>
    bulletCount (fst (Weapon_fire_times phaser0 10 0 (new_Weapon Rifle PlayerBullets 1) 0 0 0)) = 10"
    by blast
  ultimately show ?thesis
    using k c by (simp add: ff Rifle_FIRE_RATE_def baseFireRate_def phaser0_def)
qed

section \<open>Constants and the first level\<close>

lemmas consts_defs = NATIVE_WIDTH_def NATIVE_HEIGHT_def FACTOR_SLOW_def FACTOR_SLOWER_def FACTOR_SLOWEST_def
  PLAYER_SPEED_def BOT_SPEED_NORMAL_def BULLET_SPEED_NORMAL_def player_radius_def bullet_width_def
  baseFireRate_def fastFireFactor_def initFireDelay_def hotswitchTimeout_def superhotswitchTimeout_def
  CELLDIM_def world_width_def world_height_def PADDING_width_def PADDING_height_def bounds_left_def
  bounds_top_def bounds_right_def bounds_bottom_def Math_round_def

lemma speeds_bot_val: "speeds_bot = \<lparr>normal = 300, slow = 19, slower = 7, slowest = 2\<rparr>"
  by (simp add: speeds_bot_def consts_defs)

lemma speeds_bullet_val: "speeds_bullet = \<lparr>normal = 1500, slow = 94, slower = 36, slowest = 8\<rparr>"
  by (simp add: speeds_bullet_def consts_defs)

lemma game0_val:
  "game0 =
     \<lparr>level = 1, mutators = mutators0,
      counts_bots = 4, counts_bullets = - 1, next_botTime = 1 / 20,
      next_hotSwitch = 5 / 2, elapsedTime = 0, hotswitching = False,
      player =
        \<lparr>alive = True, exists = True, spr_x = 0, spr_y = 0, body_x = 0,
         body_y = 0, body_rotation = 0, velocity_x = 0, velocity_y = 0,
         remainingTime = 0, weapon = Some PlayerWeapon, dodging = False,
         direction = 0, duration = 0, radius = 25,
         dodgeRemainingTime = 3 / 40\<rparr>,
      bots =
        [\<lparr>alive = True, exists = True, spr_x = 867 / 2, spr_y = 0,
          body_x = 867 / 2, body_y = 0, body_rotation = 0,
          velocity_x = 0, velocity_y = 0, remainingTime = 1 / 8,
          weapon = Some (BotWeapon Rifle), dodging = False,
          direction = 0, duration = 0, radius = 25,
          move = StrafingDistantMover 300 (pi / 2)\<rparr>],
      playerBullets = [], botBullets = [],
      weapons =
        case_weapon_ref (new_Weapon Pistol PlayerBullets 1) (\<lambda>k. new_Weapon k BotBullets 1),
      trails = [], liveTrails = Map.empty, Bullet_count = 0, rnd_count = 10,
      inputHandler = True, playerCollidesBullets = True,
      botTween = NoTween, superhot_calls = 0, savedLevel = None,
      loseOverlay = False, camera_flashes = 0\<rparr>"
  by (simp add: game0_def Game_create_def Let_def phaser0_def Game_spawnBot_def
      bots_getFirstDead_def mutators0_def spriteScale_def new_Player_def new_Bot_def
      init_bots_def init_bullets_def setBotMovement_def assignBotWeapon_def upd_bot_def
      Game_hotswitchTimeout_def consts_defs Player_DODGE_RELOAD_TIME_def playerGun_def)

section \<open>The speed law\<close>

lemma getSpeed_first_match:
  "spec_first_match (spec_speed_rules m a mv rt) = Some t \<Longrightarrow> Game_getSpeed m a mv rt sp = tier_value sp t"
  by (auto simp: spec_speed_rules_def Game_getSpeed_def tier_value_def split: if_splits)

lemma first_match_total: "\<exists>t. spec_first_match (spec_speed_rules m a mv rt) = Some t"
  by (simp add: spec_speed_rules_def)

text \<open>
  C1. For every combination of player alive, moved, rotated and mutators, \<open>_getSpeed\<close>
  returns the value of exactly one tier: the one of the first matching rule of the ordered
  list (dead: slow; moved: normal; freeze-time: frozen, that is 0; fast-time: slow; rotated:
  slower; otherwise slowest). A dead player yields slow whatever the mutators. In \<open>update\<close>
  the bot speed and the bullet speed are the values, on their two scales, of the same tier.
\<close>

theorem speed_law:
  "(\<exists>t. spec_first_match (spec_speed_rules m a mv rt) = Some t \<and>
        Game_getSpeed m a mv rt sp = tier_value sp t) \<and>
   Game_getSpeed m False mv rt sp = slow sp \<and>
   (\<exists>t. spec_first_match
           (spec_speed_rules (mutators g) (alive (player g)) (update_playerMoved inp g)
              (update_playerRotated inp g)) = Some t \<and>
        update_botSpeed inp g = tier_value speeds_bot t \<and>
        update_bulletSpeed inp g = tier_value speeds_bullet t)"
proof (intro conjI)
  show "\<exists>t. spec_first_match (spec_speed_rules m a mv rt) = Some t \<and>
        Game_getSpeed m a mv rt sp = tier_value sp t"
    using first_match_total [of m a mv rt] getSpeed_first_match by blast
  show "Game_getSpeed m False mv rt sp = slow sp"
    by (simp add: Game_getSpeed_def)
  obtain t where t: "spec_first_match
           (spec_speed_rules (mutators g) (alive (player g)) (update_playerMoved inp g)
              (update_playerRotated inp g)) = Some t"
    using first_match_total by blast
  have "update_botSpeed inp g = tier_value speeds_bot t"
    unfolding update_botSpeed_def by (rule getSpeed_first_match [OF t])
  moreover have "update_bulletSpeed inp g = tier_value speeds_bullet t"
    unfolding update_bulletSpeed_def by (rule getSpeed_first_match [OF t])
  ultimately show "\<exists>t. spec_first_match
           (spec_speed_rules (mutators g) (alive (player g)) (update_playerMoved inp g)
              (update_playerRotated inp g)) = Some t \<and>
        update_botSpeed inp g = tier_value speeds_bot t \<and>
        update_bulletSpeed inp g = tier_value speeds_bullet t"
    using t by blast
qed

theorem speed_law_witness:
  "Game_getSpeed (mutators0\<lparr>freezetime := True\<rparr>) False True True speeds_bullet = 94 \<and>
   update_botSpeed input0 game0 = 2 \<and> update_bulletSpeed input0 game0 = 8"
proof -
  have r: "spec_first_match
           (spec_speed_rules (mutators game0) (alive (player game0)) (update_playerMoved input0 game0)
              (update_playerRotated input0 game0)) = Some Slowest"
    by (simp add: game0_val spec_speed_rules_def update_playerMoved_def update_playerRotated_def
        Player_rotate_def input0_def nokeys_def verVec_y_def horVec_x_def mutators0_def)
  from speed_law [of "mutators0\<lparr>freezetime := True\<rparr>" False True True speeds_bullet game0 input0]
  show ?thesis
    by (simp add: r tier_value_def speeds_bot_val speeds_bullet_val)
qed

section \<open>What the operations leave alone\<close>

lemma frame_set_bullets [simp]: "frame_bullets (set_bullets grp bs g) = frame_bullets g"
  by (cases grp) (simp_all add: set_bullets_def frame_bullets_def)

lemma frame_trails_getFirstDead: "frame_bullets (snd (trails_getFirstDead g)) = frame_bullets g"
  by (simp add: trails_getFirstDead_def frame_bullets_def split: option.splits)


lemma frame_bullets_upd [simp]:
  "frame_bullets (g\<lparr>trails := ts\<rparr>) = frame_bullets g"
  "frame_bullets (g\<lparr>liveTrails := lt\<rparr>) = frame_bullets g"
  "frame_bullets (g\<lparr>Bullet_count := n\<rparr>) = frame_bullets g"
  "frame_bullets (g\<lparr>playerBullets := bs\<rparr>) = frame_bullets g"
  "frame_bullets (g\<lparr>botBullets := bs\<rparr>) = frame_bullets g"
  by (simp_all add: frame_bullets_def)

lemma frame_startTrail [simp]: "frame_bullets (startTrail r g) = frame_bullets g"
proof -
  obtain t g1 where a: "trails_getFirstDead g = (t, g1)" by (cases "trails_getFirstDead g")
  then have "frame_bullets g1 = frame_bullets g"
    using frame_trails_getFirstDead [of g] by simp
  then show ?thesis by (simp add: startTrail_def Let_def a)
qed

lemma frame_stopTrail [simp]: "frame_bullets (stopTrail r g) = frame_bullets g"
  by (simp add: stopTrail_def Let_def split: option.splits)

lemma frame_Bullet_kill [simp]: "frame_bullets (Bullet_kill r g) = frame_bullets g"
  by (simp add: Bullet_kill_def Let_def)

lemma frame_getFirstExists: "frame_bullets (snd (bullets_getFirstExists grp g)) = frame_bullets g"
proof (cases "firstIndex (\<lambda>b. \<not> exists b) (bullets_of grp g)")
  case None
  from None show ?thesis by (simp add: bullets_getFirstExists_def Let_def)
next
  case (Some i)
  then show ?thesis by (simp add: bullets_getFirstExists_def Let_def)
qed

lemma frame_Bullet_fire [simp]: "frame_bullets (Bullet_fire ent rad sh r g) = frame_bullets g"
  by (simp add: Bullet_fire_def Let_def split: prod.splits)

lemma frame_fire_shots [simp]: "frame_bullets (fire_shots ent rad grp shs g) = frame_bullets g"
proof (induction shs arbitrary: g)
  case Nil
  show ?case by simp
next
  case (Cons sh shs)
  obtain i g1 where a: "bullets_getFirstExists grp g = (i, g1)" by (cases "bullets_getFirstExists grp g")
  then have "frame_bullets g1 = frame_bullets g"
    using frame_getFirstExists [of grp g] by simp
  then show ?case by (simp add: a Cons.IH)
qed

lemma frame_LiveSprite_fire:
  "LiveSprite_fire ph ent ex ey rot rad wr g = Some (rate, g') \<Longrightarrow> frame_fire g' = frame_fire g"
proof -
  assume a: "LiveSprite_fire ph ent ex ey rot rad wr g = Some (rate, g')"
  then obtain r where r: "wr = Some r" by (cases wr) (simp_all add: LiveSprite_fire_def)
  obtain shots w' n' where w: "Weapon_fire ph (rnd_count g) (weapons g r) ex ey rot = (shots, w', n')"
    by (cases "Weapon_fire ph (rnd_count g) (weapons g r) ex ey rot")
  from a r w have g': "g' = fire_shots ent rad (bullets w') shots (g\<lparr>weapons := (weapons g)(r := w'), rnd_count := n'\<rparr>)"
    by (simp add: LiveSprite_fire_def)
  have "frame_bullets g' = frame_bullets (g\<lparr>weapons := (weapons g)(r := w'), rnd_count := n'\<rparr>)"
    unfolding g' by simp
  then show ?thesis by (simp add: frame_bullets_def frame_fire_def)
qed


lemma frame_fire_imp_tick: "frame_fire g' = frame_fire g \<Longrightarrow> frame_tick g' = frame_tick g"
  by (simp add: frame_fire_def frame_tick_def)

lemma frame_bot_imp_tick: "frame_bot g' = frame_bot g \<Longrightarrow> frame_tick g' = frame_tick g"
  by (simp add: frame_bot_def frame_tick_def)

lemma frame_fire_imp_bot: "frame_fire g' = frame_fire g \<Longrightarrow> frame_bot g' = frame_bot g"
  by (simp add: frame_fire_def frame_bot_def)

lemma map_update_same:
  assumes "h (f (xs ! i)) = h (xs ! i)"
  shows "map h (xs[i := f (xs ! i)]) = map h xs"
proof (cases "i < length xs")
  case True
  then have "map h xs ! i = h (f (xs ! i))" using assms by simp
  then have "(map h xs)[i := h (f (xs ! i))] = map h xs"
    by (metis list_update_id)
  then show ?thesis by (simp add: map_update)
next
  case False
  then have "xs[i := f (xs ! i)] = xs" by (simp add: list_update_beyond)
  then show ?thesis by simp
qed

lemma frame_bot_upd_bot:
  "alive (f (bots g ! i)) = alive (bots g ! i) \<Longrightarrow> weapon (f (bots g ! i)) = weapon (bots g ! i) \<Longrightarrow>
   frame_bot (upd_bot i f g) = frame_bot g"
  by (simp add: frame_bot_def upd_bot_def map_update_same)

lemma frame_bot_rnd_count [simp]: "frame_bot (g\<lparr>rnd_count := n\<rparr>) = frame_bot g"
  by (simp add: frame_bot_def)

lemma Player_fire_frame:
  assumes "Player_fire ph g = Some g'"
  shows "frame_tick g' = frame_tick g \<and> bots g' = bots g \<and> counts_bots g' = counts_bots g \<and>
         counts_bullets g' = counts_bullets g \<and> next_botTime g' = next_botTime g \<and>
         next_hotSwitch g' = next_hotSwitch g"
proof -
  define res where "res = LiveSprite_fire ph ThePlayer (spr_x (player g)) (spr_y (player g))
      (body_rotation (player g)) (radius (player g)) (weapon (player g)) g"
  have pf: "Player_fire ph g = (case res of None \<Rightarrow> None
     | Some (rate, g1) \<Rightarrow> Some (g1\<lparr>player := (player g1)\<lparr>remainingTime := rate\<rparr>\<rparr>))"
    by (simp add: Player_fire_def Let_def res_def)
  from assms pf obtain rate g1 where f: "res = Some (rate, g1)"
    by (cases res) auto
  with assms pf have g': "g' = g1\<lparr>player := (player g1)\<lparr>remainingTime := rate\<rparr>\<rparr>" by simp
  have "frame_fire g1 = frame_fire g"
    using f unfolding res_def by (rule frame_LiveSprite_fire)
  then show ?thesis unfolding g' by (simp add: frame_fire_def frame_tick_def)
qed

lemma Bot_fire_frame:
  assumes "Bot_fire ph i g = Some g'"
  shows "frame_bot g' = frame_bot g"
proof -
  define g0 where "g0 = g\<lparr>rnd_count := Suc (rnd_count g)\<rparr>"
  define res where "res = LiveSprite_fire ph (TheBot i) (spr_x (bots g ! i)) (spr_y (bots g ! i))
      (body_rotation (bots g ! i) + rnd_realInRange ph (rnd_count g) (- (2 * ANGLE_1DEG)) (2 * ANGLE_1DEG))
      (radius (bots g ! i)) (weapon (bots g ! i)) g0"
  have bf: "Bot_fire ph i g = (case res of None \<Rightarrow> None
     | Some (rate, g1) \<Rightarrow>
         Some (upd_bot i (\<lambda>b. b\<lparr>remainingTime := rate, body_rotation := body_rotation (bots g ! i)\<rparr>) g1))"
    by (simp add: Bot_fire_def Let_def res_def g0_def)
  from assms bf obtain rate g1 where f: "res = Some (rate, g1)"
    by (cases res) auto
  with assms bf have g': "g' = upd_bot i (\<lambda>b. b\<lparr>remainingTime := rate, body_rotation := body_rotation (bots g ! i)\<rparr>) g1"
    by simp
  have "frame_fire g1 = frame_fire g0"
    using f unfolding res_def by (rule frame_LiveSprite_fire)
  then have "frame_bot g1 = frame_bot g0" by (rule frame_fire_imp_bot)
  then have "frame_bot g1 = frame_bot g" by (simp add: g0_def)
  moreover have "frame_bot g' = frame_bot g1" unfolding g' by (rule frame_bot_upd_bot) simp_all
  ultimately show ?thesis by simp
qed

lemma Bot__fire_frame:
  assumes "Bot__fire ph lv i g = Some g'"
  shows "frame_bot g' = frame_bot g"
proof (cases "rnd_frac ph (rnd_count g) \<le> 1 / 5")
  case True
  show ?thesis
  proof (cases "weapon (bots g ! i)")
    case None
    with True assms show ?thesis by (simp add: Bot__fire_def Let_def)
  next
    case (Some r)
    with True assms have g': "g' = upd_bot i (\<lambda>b. b\<lparr>remainingTime :=
                        rnd_between ph (Suc (rnd_count g)) 0
                          (max (fireRate (weapons g r) * (1 - real_of_int lv / 100)) 0)\<rparr>)
                     (g\<lparr>rnd_count := Suc (Suc (rnd_count g))\<rparr>)"
      by (simp add: Bot__fire_def Let_def)
    have "frame_bot g' = frame_bot (g\<lparr>rnd_count := Suc (Suc (rnd_count g))\<rparr>)"
      unfolding g' by (rule frame_bot_upd_bot) simp_all
    then show ?thesis by simp
  qed
next
  case False
  with assms have "Bot_fire ph i (g\<lparr>rnd_count := Suc (rnd_count g)\<rparr>) = Some g'"
    by (simp add: Bot__fire_def Let_def)
  from Bot_fire_frame [OF this] show ?thesis by simp
qed

lemma Bot__dodge_frame [simp]: "frame_bot (Bot__dodge ph fix i g) = frame_bot g"
proof -
  have "frame_bot (Bot__dodge ph fix i g) = frame_bot (g\<lparr>rnd_count := Suc (rnd_count g)\<rparr>)"
    unfolding Bot__dodge_def by (rule frame_bot_upd_bot) simp_all
  then show ?thesis by simp
qed

lemma Bot_advance_shoot_frame:
  assumes "Bot_advance_shoot ph e lv i g = Some g'"
  shows "frame_bot g' = frame_bot g"
proof -
  define g1 where "g1 = upd_bot i (\<lambda>b. b\<lparr>remainingTime := remainingTime b - e\<rparr>) g"
  define g2 where "g2 = upd_bot i (\<lambda>b. b\<lparr>body_rotation :=
      angleBetween ph (spr_x b, spr_y b) (spr_x (player g), spr_y (player g))\<rparr>) g1"
  have 1: "frame_bot g1 = frame_bot g" unfolding g1_def by (rule frame_bot_upd_bot) simp_all
  have 2: "frame_bot g2 = frame_bot g1" unfolding g2_def by (rule frame_bot_upd_bot) simp_all
  have sh: "Bot_advance_shoot ph e lv i g =
      (if distanceBetween ph (spr_x (bots g2 ! i), spr_y (bots g2 ! i)) (spr_x (player g), spr_y (player g))
              < (NATIVE_WIDTH + NATIVE_HEIGHT) / 2
         then (if remainingTime (bots g2 ! i) \<le> 0 then Bot__fire ph lv i g2 else Some g2)
         else Some g2)"
    by (simp add: Bot_advance_shoot_def Let_def g1_def g2_def)
  show ?thesis
  proof (cases "Bot_advance_shoot ph e lv i g = Some g2")
    case True
    with assms have "g' = g2" by simp
    then show ?thesis using 1 2 by simp
  next
    case False
    then have "Bot_advance_shoot ph e lv i g = Bot__fire ph lv i g2"
      unfolding sh by (simp split: if_splits)
    with assms have "Bot__fire ph lv i g2 = Some g'" by simp
    from Bot__fire_frame [OF this] show ?thesis using 1 2 by simp
  qed
qed

lemma moveForward_fields [simp]:
  "alive (moveForward rot sp s) = alive s"
  "weapon (moveForward rot sp b) = weapon b"
  "remainingTime (moveForward rot sp b) = remainingTime b"
  "dodging (moveForward rot sp b) = dodging b"
  "duration (moveForward rot sp b) = duration b"
  "direction (moveForward rot sp b) = direction b"
  "body_rotation (moveForward rot sp s) = body_rotation s"
  "body_x (moveForward rot sp s) = body_x s"
  "body_y (moveForward rot sp s) = body_y s"
  by (simp_all add: moveForward_def)

lemma Bot_move_fields [simp]:
  "alive (Bot_move ph sp p b) = alive b"
  "weapon (Bot_move ph sp p b) = weapon b"
  "remainingTime (Bot_move ph sp p b) = remainingTime b"
  "dodging (Bot_move ph sp p b) = dodging b"
  "duration (Bot_move ph sp p b) = duration b"
  by (simp_all add: Bot_move_def Let_def split: mover.splits)

lemma Bot_advance_dodging_fields [simp]:
  "alive (Bot_advance_dodging e sp b) = alive b"
  "weapon (Bot_advance_dodging e sp b) = weapon b"
  "remainingTime (Bot_advance_dodging e sp b) = remainingTime b"
  "duration (Bot_advance_dodging e sp b) = duration b - e"
  by (simp_all add: Bot_advance_dodging_def Let_def)

lemma Bot_random_dodge_frame [simp]:
  "frame_bot (Bot_random_dodge ph pe fps e lv i g) = frame_bot g"
  by (simp add: Bot_random_dodge_def Let_def)

lemma Bot_reactive_dodge_frame [simp]:
  "frame_bot (Bot_reactive_dodge ph lv fired i g) = frame_bot g"
  by (simp add: Bot_reactive_dodge_def Let_def)

lemma Bot_advance_move_frame [simp]:
  "frame_bot (Bot_advance_move ph pe fps e sp lv fired i g) = frame_bot g"
proof -
  have 1: "frame_bot (upd_bot i (Bot_move ph sp (player g)) g) = frame_bot g"
    by (rule frame_bot_upd_bot) simp_all
  show ?thesis
    by (simp add: Bot_advance_move_def 1)
qed

lemma Bot_advance_frame:
  assumes "Bot_advance ph pe fps e sp lv fired i g = Some g'"
  shows "frame_bot g' = frame_bot g"
proof (cases "Bot_advance_shoot ph e lv i g")
  case None
  with assms show ?thesis by (simp add: Bot_advance_def)
next
  case (Some g1)
  with assms have g': "g' = (if dodging (bots g1 ! i) then upd_bot i (Bot_advance_dodging e sp) g1
                   else Bot_advance_move ph pe fps e sp lv fired i g1)"
    by (simp add: Bot_advance_def split: if_splits)
  have "frame_bot (upd_bot i (Bot_advance_dodging e sp) g1) = frame_bot g1"
    by (rule frame_bot_upd_bot) simp_all
  then have "frame_bot g' = frame_bot g1" unfolding g' by simp
  with Bot_advance_shoot_frame [OF Some] show ?thesis by simp
qed

lemma BotGroup_advance_loop_frame:
  "BotGroup_advance_loop ph pe fps e sp lv fired k i g = Some g' \<Longrightarrow> frame_bot g' = frame_bot g"
proof (induction k arbitrary: i g)
  case 0
  then show ?case by simp
next
  case (Suc k)
  show ?case
  proof (cases "alive (bots g ! i)")
    case True
    show ?thesis
    proof (cases "Bot_advance ph pe fps e sp lv fired i g")
      case None
      with True Suc.prems show ?thesis by simp
    next
      case (Some g1)
      with True Suc.prems have l: "BotGroup_advance_loop ph pe fps e sp lv fired k (Suc i) g1 = Some g'"
        by simp
      from Suc.IH [OF l] Bot_advance_frame [OF Some] show ?thesis by simp
    qed
  next
    case False
    with Suc.prems have "BotGroup_advance_loop ph pe fps e sp lv fired k (Suc i) g = Some g'" by simp
    from Suc.IH [OF this] show ?thesis .
  qed
qed

lemma BotGroup_advance_frame:
  "BotGroup_advance ph pe fps e sp lv fired g = Some g' \<Longrightarrow> frame_bot g' = frame_bot g"
  unfolding BotGroup_advance_def by (rule BotGroup_advance_loop_frame)

section \<open>Spawning and the tick\<close>

lemma upd_bot_fields [simp]:
  "level (upd_bot i f g) = level g"
  "mutators (upd_bot i f g) = mutators g"
  "counts_bots (upd_bot i f g) = counts_bots g"
  "counts_bullets (upd_bot i f g) = counts_bullets g"
  "next_botTime (upd_bot i f g) = next_botTime g"
  "next_hotSwitch (upd_bot i f g) = next_hotSwitch g"
  "player (upd_bot i f g) = player g"
  "rnd_count (upd_bot i f g) = rnd_count g"
  "weapons (upd_bot i f g) = weapons g"
  "playerBullets (upd_bot i f g) = playerBullets g"
  "botBullets (upd_bot i f g) = botBullets g"
  "frame_tick (upd_bot i f g) = frame_tick g"
  "length (bots (upd_bot i f g)) = length (bots g)"
  by (simp_all add: upd_bot_def frame_tick_def)

lemma firstIndex_Some: "firstIndex P xs = Some i \<Longrightarrow> i < length xs \<and> P (xs ! i)"
proof (induction xs arbitrary: i)
  case Nil
  then show ?case by simp
next
  case (Cons c cs)
  then show ?case by (cases "P c") auto
qed

lemma firstIndex_None: "firstIndex P xs = None \<Longrightarrow> \<forall>c \<in> set xs. \<not> P c"
  by (induction xs) (auto split: if_splits)

lemma countLiving_revive:
  "i < length xs \<Longrightarrow> \<not> alive (xs ! i) \<Longrightarrow> alive c \<Longrightarrow>
     countLiving (xs[i := c]) = Suc (countLiving xs)"
proof (induction xs arbitrary: i)
  case Nil
  then show ?case by simp
next
  case (Cons a xs)
  then show ?case by (cases i) (simp_all add: countLiving_def)
qed

lemma countLiving_kill:
  "i < length xs \<Longrightarrow> alive (xs ! i) \<Longrightarrow> \<not> alive c \<Longrightarrow>
     Suc (countLiving (xs[i := c])) = countLiving xs"
proof (induction xs arbitrary: i)
  case Nil
  then show ?case by simp
next
  case (Cons a xs)
  then show ?case by (cases i) (simp_all add: countLiving_def)
qed

lemma countLiving_cong:
  assumes "map alive xs = map alive ys"
  shows "countLiving xs = countLiving ys"
proof -
  have h: "length (filter alive zs) = length (filter id (map alive zs))" for zs :: "Bot list"
    by (simp add: comp_def)
  show ?thesis by (simp only: countLiving_def h assms)
qed

lemma countLiving_0_iff: "countLiving xs = 0 \<longleftrightarrow> (\<forall>b \<in> set xs. \<not> alive b)"
  by (simp add: countLiving_def filter_empty_conv)

lemma bots_getFirstDead_frame:
  assumes "bots_getFirstDead px py g = (i, g')"
  shows "frame_tick g' = frame_tick g \<and> counts_bots g' = counts_bots g \<and>
     counts_bullets g' = counts_bullets g \<and> next_hotSwitch g' = next_hotSwitch g \<and>
     next_botTime g' = next_botTime g \<and> player g' = player g \<and>
     rnd_count g' = rnd_count g \<and>
     i < length (bots g') \<and> alive (bots g' ! i) \<and>
     countLiving (bots g') = Suc (countLiving (bots g))"
proof (cases "firstIndex (\<lambda>b. \<not> alive b) (bots g)")
  case None
  with assms have i: "i = length (bots g)"
    and g': "g' = g\<lparr>bots := bots g @ [new_Bot (spriteScale (mutators g)) px py]\<rparr>"
    by (auto simp: bots_getFirstDead_def)
  show ?thesis unfolding g' i
    by (simp add: frame_tick_def countLiving_def new_Bot_def)
next
  case (Some j)
  with assms have i: "i = j" and g': "g' = upd_bot j (Bot_reset px py) g"
    by (auto simp: bots_getFirstDead_def)
  from firstIndex_Some [OF Some] have j: "j < length (bots g)" "\<not> alive (bots g ! j)" by simp_all
  have al: "alive (Bot_reset px py (bots g ! j))"
    by (simp add: Bot_reset_def LiveSprite_reset_def Phaser_reset_def)
  have "countLiving (bots g') = Suc (countLiving (bots g))"
    unfolding g' upd_bot_def using countLiving_revive [OF j al] by simp
  moreover have "alive (bots g' ! i)" unfolding g' i upd_bot_def using j al by simp
  ultimately show ?thesis unfolding i using j by (simp add: g')
qed

lemma countLiving_upd_bot:
  "alive (f (bots g ! i)) = alive (bots g ! i) \<Longrightarrow> countLiving (bots (upd_bot i f g)) = countLiving (bots g)"
  by (rule countLiving_cong) (simp add: upd_bot_def map_update_same)

lemma bots_getFirstDead_snd [simp]:
  "frame_tick (snd (bots_getFirstDead px py g)) = frame_tick g"
  "counts_bots (snd (bots_getFirstDead px py g)) = counts_bots g"
  "counts_bullets (snd (bots_getFirstDead px py g)) = counts_bullets g"
  "next_hotSwitch (snd (bots_getFirstDead px py g)) = next_hotSwitch g"
  "next_botTime (snd (bots_getFirstDead px py g)) = next_botTime g"
  "player (snd (bots_getFirstDead px py g)) = player g"
  "countLiving (bots (snd (bots_getFirstDead px py g))) = Suc (countLiving (bots g))"
  using bots_getFirstDead_frame [of px py g "fst (bots_getFirstDead px py g)" "snd (bots_getFirstDead px py g)"]
  by simp_all

lemma frame_tick_upd [simp]:
  "frame_tick (g\<lparr>rnd_count := n\<rparr>) = frame_tick g"
  "frame_tick (g\<lparr>counts_bots := c\<rparr>) = frame_tick g"
  "frame_tick (g\<lparr>counts_bullets := c\<rparr>) = frame_tick g"
  "frame_tick (g\<lparr>next_botTime := t\<rparr>) = frame_tick g"
  "frame_tick (g\<lparr>next_hotSwitch := t\<rparr>) = frame_tick g"
  "frame_tick (g\<lparr>elapsedTime := t\<rparr>) = frame_tick g"
  "frame_tick (g\<lparr>player := p\<rparr>) = frame_tick g"
  "frame_tick (g\<lparr>bots := bs\<rparr>) = frame_tick g"
  "frame_tick (g\<lparr>playerBullets := pb\<rparr>) = frame_tick g"
  "frame_tick (g\<lparr>botBullets := pb\<rparr>) = frame_tick g"
  by (simp_all add: frame_tick_def)

lemma Game_spawnBot_frame [simp]:
  "frame_tick (Game_spawnBot ph closer g) = frame_tick g"
  "counts_bots (Game_spawnBot ph closer g) = counts_bots g - 1"
  "counts_bullets (Game_spawnBot ph closer g) = counts_bullets g"
  "next_hotSwitch (Game_spawnBot ph closer g) = next_hotSwitch g"
  "next_botTime (Game_spawnBot ph closer g) = next_botTime g"
  "player (Game_spawnBot ph closer g) = player g"
  "countLiving (bots (Game_spawnBot ph closer g)) = Suc (countLiving (bots g))"
  by (simp_all add: Game_spawnBot_def Let_def split_def countLiving_upd_bot)

lemma update_hotSwitch_frame:
  "frame_tick (update_hotSwitch e g) = frame_tick g \<and> bots (update_hotSwitch e g) = bots g \<and>
   counts_bots (update_hotSwitch e g) = counts_bots g \<and>
   counts_bullets (update_hotSwitch e g) = counts_bullets g \<and>
   next_botTime (update_hotSwitch e g) = next_botTime g \<and>
   player (update_hotSwitch e g) = player g \<and>
   next_hotSwitch (update_hotSwitch e g) = (if hotswitching g then next_hotSwitch g else next_hotSwitch g - e)"
  by (simp add: update_hotSwitch_def frame_tick_def)

lemma update_spawn_frame:
  "frame_tick (update_spawn ph e g) = frame_tick g \<and>
   counts_bullets (update_spawn ph e g) = counts_bullets g \<and>
   next_hotSwitch (update_spawn ph e g) = next_hotSwitch g \<and>
   player (update_spawn ph e g) = player g \<and>
   ((counts_bots (update_spawn ph e g) = counts_bots g \<and>
     countLiving (bots (update_spawn ph e g)) = countLiving (bots g)) \<or>
    (0 < counts_bots g \<and> counts_bots (update_spawn ph e g) = counts_bots g - 1 \<and>
     countLiving (bots (update_spawn ph e g)) = Suc (countLiving (bots g))))"
  by (simp add: update_spawn_def Let_def)

lemma Game_firePlayerBullet_frame:
  assumes "Game_firePlayerBullet ph g = Some (fired, g')"
  shows "frame_tick g' = frame_tick g \<and> bots g' = bots g \<and> counts_bots g' = counts_bots g \<and>
         next_botTime g' = next_botTime g \<and> next_hotSwitch g' = next_hotSwitch g \<and>
         counts_bullets g' = counts_bullets g - (if fired then 1 else 0) \<and>
         (fired \<longleftrightarrow> \<not> (remainingTime (player g) > 0 \<or> counts_bullets g = 0)) \<and>
         (\<not> fired \<longrightarrow> g' = g)"
proof (cases "remainingTime (player g) > 0 \<or> counts_bullets g = 0")
  case True
  with assms show ?thesis by (auto simp: Game_firePlayerBullet_def)
next
  case False
  show ?thesis
  proof (cases "Player_fire ph g")
    case None
    with False assms show ?thesis by (simp add: Game_firePlayerBullet_def)
  next
    case (Some g1)
    with False assms have "fired" and g': "g' = g1\<lparr>counts_bullets := counts_bullets g1 - 1\<rparr>"
      by (auto simp: Game_firePlayerBullet_def)
    from Player_fire_frame [OF Some] show ?thesis
      using \<open>fired\<close> False unfolding g' by (simp add: frame_tick_def)
  qed
qed


lemma update_player_frame:
  assumes "update_player ph inp moved e g = Some (fired, g')"
  shows "frame_tick g' = frame_tick g \<and> bots g' = bots g \<and> counts_bots g' = counts_bots g \<and>
         next_botTime g' = next_botTime g \<and> next_hotSwitch g' = next_hotSwitch g \<and>
         counts_bullets g' = counts_bullets g - (if fired then 1 else 0)"
proof (cases "alive (player g)")
  case False
  with assms show ?thesis by (simp add: update_player_def)
next
  case True
  define res where "res = (if (fireButton_isDown inp \<and> \<not> fireButton_shiftKey inp) \<or> fireKey_isDown inp
                  then Game_firePlayerBullet ph g else Some (False, g))"
  have up: "update_player ph inp moved e g =
     (case res of None \<Rightarrow> None
      | Some (playerFired, g1) \<Rightarrow>
           Some (playerFired, g1\<lparr>player := Player_advance moved (angleBetween ph (0, verVec_y inp) (horVec_x inp, 0)) e
              (if moved \<and> dodge (mutators g1) \<and> dodgeKey_isDown inp
               then Player_dodge (angleBetween ph (0, verVec_y inp) (horVec_x inp, 0)) (player g1)
               else player g1)\<rparr>))"
    unfolding update_player_def res_def Let_def using True by simp
  from assms up obtain g1 where r: "res = Some (fired, g1)"
    and g': "g' = g1\<lparr>player := Player_advance moved (angleBetween ph (0, verVec_y inp) (horVec_x inp, 0)) e
              (if moved \<and> dodge (mutators g1) \<and> dodgeKey_isDown inp
               then Player_dodge (angleBetween ph (0, verVec_y inp) (horVec_x inp, 0)) (player g1)
               else player g1)\<rparr>"
    by (cases res) auto
  have "frame_tick g1 = frame_tick g \<and> bots g1 = bots g \<and> counts_bots g1 = counts_bots g \<and>
         next_botTime g1 = next_botTime g \<and> next_hotSwitch g1 = next_hotSwitch g \<and>
         counts_bullets g1 = counts_bullets g - (if fired then 1 else 0)"
  proof (cases "(fireButton_isDown inp \<and> \<not> fireButton_shiftKey inp) \<or> fireKey_isDown inp")
    case True
    with r have "Game_firePlayerBullet ph g = Some (fired, g1)" by (simp add: res_def)
    from Game_firePlayerBullet_frame [OF this] show ?thesis by simp
  next
    case False
    with r show ?thesis by (auto simp: res_def)
  qed
  then show ?thesis unfolding g' by simp
qed

lemma Game_update_superhot: "superhot g \<Longrightarrow> Game_update ph inp g = Some g"
  by (simp add: Game_update_def)

lemma Game_update_cases:
  assumes "Game_update ph inp g = Some g'" and "\<not> superhot g"
  obtains fired g2 g3 where
    "update_player ph inp (update_playerMoved inp g) (update_elapsedTime inp g)
       (g\<lparr>player := snd (Player_rotate (angleToPointer inp) (player g)),
          elapsedTime := update_elapsedTime inp g\<rparr>) = Some (fired, g2)"
    "BotGroup_advance ph (physicsElapsed inp) (desiredFps inp) (update_elapsedTime inp g)
       (update_botSpeed inp g) (level g2) fired
       (update_spawn ph (update_elapsedTime inp g) (update_hotSwitch (update_elapsedTime inp g) g2)) = Some g3"
    "g' = g3\<lparr>playerBullets := BulletGroup_advance (update_bulletSpeed inp g) (playerBullets g3),
             botBullets := BulletGroup_advance (update_bulletSpeed inp g) (botBullets g3)\<rparr>"
proof -
  define g1 where "g1 = g\<lparr>player := snd (Player_rotate (angleToPointer inp) (player g)),
          elapsedTime := update_elapsedTime inp g\<rparr>"
  define e where "e = update_elapsedTime inp g"
  define r1 where "r1 = update_player ph inp (update_playerMoved inp g) e g1"
  have gu: "Game_update ph inp g =
     (case r1 of None \<Rightarrow> None
      | Some (playerFired, g2) \<Rightarrow>
          (case BotGroup_advance ph (physicsElapsed inp) (desiredFps inp) e (update_botSpeed inp g)
                  (level g2) playerFired (update_spawn ph e (update_hotSwitch e g2)) of
             None \<Rightarrow> None
           | Some g3 \<Rightarrow>
               Some (g3\<lparr>playerBullets := BulletGroup_advance (update_bulletSpeed inp g) (playerBullets g3),
                        botBullets := BulletGroup_advance (update_bulletSpeed inp g) (botBullets g3)\<rparr>)))"
    unfolding Game_update_def Let_def r1_def g1_def e_def using assms(2) by simp
  from assms(1) gu obtain fired g2 where r: "r1 = Some (fired, g2)" by (cases r1) auto
  define r2 where "r2 = BotGroup_advance ph (physicsElapsed inp) (desiredFps inp) e (update_botSpeed inp g)
                  (level g2) fired (update_spawn ph e (update_hotSwitch e g2))"
  from assms(1) gu r obtain g3 where r3: "r2 = Some g3" by (cases r2) (auto simp: r2_def)
  with assms(1) gu r have "g' = g3\<lparr>playerBullets := BulletGroup_advance (update_bulletSpeed inp g) (playerBullets g3),
             botBullets := BulletGroup_advance (update_bulletSpeed inp g) (botBullets g3)\<rparr>"
    by (simp add: r2_def)
  with r r3 that show ?thesis unfolding r1_def r2_def g1_def e_def by blast
qed

lemma Game_update_frame:
  assumes "Game_update ph inp g = Some g'"
  shows "frame_tick g' = frame_tick g"
proof (cases "superhot g")
  case True
  with assms show ?thesis by (simp add: Game_update_def)
next
  case False
  from Game_update_cases [OF assms False] obtain fired g2 g3 where
    a: "update_player ph inp (update_playerMoved inp g) (update_elapsedTime inp g)
       (g\<lparr>player := snd (Player_rotate (angleToPointer inp) (player g)),
          elapsedTime := update_elapsedTime inp g\<rparr>) = Some (fired, g2)"
    and b: "BotGroup_advance ph (physicsElapsed inp) (desiredFps inp) (update_elapsedTime inp g)
       (update_botSpeed inp g) (level g2) fired
       (update_spawn ph (update_elapsedTime inp g) (update_hotSwitch (update_elapsedTime inp g) g2)) = Some g3"
    and c: "g' = g3\<lparr>playerBullets := BulletGroup_advance (update_bulletSpeed inp g) (playerBullets g3),
             botBullets := BulletGroup_advance (update_bulletSpeed inp g) (botBullets g3)\<rparr>"
    by blast
  from update_player_frame [OF a] have 1: "frame_tick g2 = frame_tick g" by simp
  from BotGroup_advance_frame [OF b] have "frame_tick g3 =
      frame_tick (update_spawn ph (update_elapsedTime inp g) (update_hotSwitch (update_elapsedTime inp g) g2))"
    by (rule frame_bot_imp_tick)
  also have "\<dots> = frame_tick g2"
    using update_spawn_frame [of ph "update_elapsedTime inp g" "update_hotSwitch (update_elapsedTime inp g) g2"]
      update_hotSwitch_frame [of "update_elapsedTime inp g" g2] by simp
  finally show ?thesis using 1 c by simp
qed

lemma Game_update_not_superhot:
  assumes "Game_update ph inp g = Some g'" and "\<not> superhot g"
  shows "\<not> superhot g'"
proof -
  from Game_update_cases [OF assms] obtain fired g2 g3 where
    a: "update_player ph inp (update_playerMoved inp g) (update_elapsedTime inp g)
       (g\<lparr>player := snd (Player_rotate (angleToPointer inp) (player g)),
          elapsedTime := update_elapsedTime inp g\<rparr>) = Some (fired, g2)"
    and b: "BotGroup_advance ph (physicsElapsed inp) (desiredFps inp) (update_elapsedTime inp g)
       (update_botSpeed inp g) (level g2) fired
       (update_spawn ph (update_elapsedTime inp g) (update_hotSwitch (update_elapsedTime inp g) g2)) = Some g3"
    and c: "g' = g3\<lparr>playerBullets := BulletGroup_advance (update_bulletSpeed inp g) (playerBullets g3),
             botBullets := BulletGroup_advance (update_bulletSpeed inp g) (botBullets g3)\<rparr>"
    by blast
  define e where "e = update_elapsedTime inp g"
  define g4 where "g4 = update_spawn ph e (update_hotSwitch e g2)"
  from update_player_frame [OF a] have 2: "bots g2 = bots g" "counts_bots g2 = counts_bots g" by simp_all
  have 3: "bots (update_hotSwitch e g2) = bots g" "counts_bots (update_hotSwitch e g2) = counts_bots g"
    using update_hotSwitch_frame [of e g2] 2 by simp_all
  have 4: "(counts_bots g4 = counts_bots g \<and> countLiving (bots g4) = countLiving (bots g)) \<or>
    (0 < counts_bots g \<and> counts_bots g4 = counts_bots g - 1 \<and> countLiving (bots g4) = Suc (countLiving (bots g)))"
    using update_spawn_frame [of ph e "update_hotSwitch e g2"] 3 unfolding g4_def by simp
  from BotGroup_advance_frame [OF b] have "frame_bot g3 = frame_bot g4" by (simp add: g4_def e_def)
  then have 5: "counts_bots g3 = counts_bots g4" "map alive (bots g3) = map alive (bots g4)"
    by (simp_all add: frame_bot_def)
  from 5(2) have 6: "countLiving (bots g3) = countLiving (bots g4)" by (rule countLiving_cong)
  have "counts_bots g' = counts_bots g3" "bots g' = bots g3" unfolding c by simp_all
  with 4 5 6 assms(2) show ?thesis by (auto simp: superhot_def)
qed

section \<open>The win sequence\<close>

lemma upd_bot_fields2 [simp]:
  "superhot_calls (upd_bot i f g) = superhot_calls g"
  "hotswitching (upd_bot i f g) = hotswitching g"
  "botTween (upd_bot i f g) = botTween g"
  "camera_flashes (upd_bot i f g) = camera_flashes g"
  "inputHandler (upd_bot i f g) = inputHandler g"
  "playerCollidesBullets (upd_bot i f g) = playerCollidesBullets g"
  "bullets_of grp (upd_bot i f g) = bullets_of grp g"
  "trails (upd_bot i f g) = trails g"
  "liveTrails (upd_bot i f g) = liveTrails g"
  by (simp_all add: upd_bot_def bullets_of_def split: bullet_group.splits)

lemma bullets_of_simps [simp]:
  "bullets_of grp (set_bullets grp' bs g) = (if grp = grp' then bs else bullets_of grp g)"
  "bullets_of grp (g\<lparr>trails := ts\<rparr>) = bullets_of grp g"
  "bullets_of grp (g\<lparr>liveTrails := lt\<rparr>) = bullets_of grp g"
  "bullets_of grp (g\<lparr>player := p\<rparr>) = bullets_of grp g"
  "bullets_of grp (g\<lparr>mutators := m\<rparr>) = bullets_of grp g"
  "bullets_of grp (g\<lparr>rnd_count := n\<rparr>) = bullets_of grp g"
  "bullets_of grp (g\<lparr>Bullet_count := n\<rparr>) = bullets_of grp g"
  "bullets_of grp (g\<lparr>weapons := ws\<rparr>) = bullets_of grp g"
  "bullets_of grp (g\<lparr>bots := bs'\<rparr>) = bullets_of grp g"
  "bullets_of grp (g\<lparr>superhot_calls := k\<rparr>) = bullets_of grp g"
  "bullets_of grp (g\<lparr>savedLevel := sl\<rparr>) = bullets_of grp g"
  "bullets_of grp (g\<lparr>loseOverlay := lo\<rparr>) = bullets_of grp g"
  "bullets_of grp (g\<lparr>inputHandler := ih\<rparr>) = bullets_of grp g"
  "bullets_of grp (g\<lparr>playerCollidesBullets := pc\<rparr>) = bullets_of grp g"
  by (cases grp; cases grp'; simp add: bullets_of_def set_bullets_def)+

lemma bullets_of_stopTrail [simp]: "bullets_of grp (stopTrail r g) = bullets_of grp g"
  by (simp add: stopTrail_def Let_def split: option.splits)

lemma bullets_of_Bullet_kill:
  "bullets_of grp (Bullet_kill r g) =
     (if fst r = grp then (bullets_of grp g)[snd r := Phaser_kill (bullets_of grp g ! snd r)]
      else bullets_of grp g)"
  by (auto simp: Bullet_kill_def Let_def list_update_beyond)

lemma length_bullets_Bullet_kill [simp]:
  "length (bullets_of grp (Bullet_kill r g)) = length (bullets_of grp g)"
  by (simp add: bullets_of_Bullet_kill)

lemma frame_bullets_fields:
  assumes "frame_bullets g' = frame_bullets g"
  shows "bots g' = bots g" "counts_bots g' = counts_bots g" "superhot_calls g' = superhot_calls g"
    "player g' = player g" "mutators g' = mutators g" "frame_tick g' = frame_tick g"
    "counts_bullets g' = counts_bullets g" "level g' = level g"
    "next_hotSwitch g' = next_hotSwitch g" "next_botTime g' = next_botTime g"
    "weapons g' = weapons g" "rnd_count g' = rnd_count g"
  using assms by (simp_all add: frame_bullets_def frame_tick_def)

lemma superhot_cong:
  "counts_bots g' = counts_bots g \<Longrightarrow> map alive (bots g') = map alive (bots g) \<Longrightarrow>
     superhot g' = superhot g"
  using countLiving_cong [of "bots g'" "bots g"] by (simp add: superhot_def)

lemma Bullet_kill_fields [simp]:
  "bots (Bullet_kill r g) = bots g" "counts_bots (Bullet_kill r g) = counts_bots g"
  "superhot_calls (Bullet_kill r g) = superhot_calls g" "player (Bullet_kill r g) = player g"
  "mutators (Bullet_kill r g) = mutators g" "frame_tick (Bullet_kill r g) = frame_tick g"
  "counts_bullets (Bullet_kill r g) = counts_bullets g" "level (Bullet_kill r g) = level g"
  "next_hotSwitch (Bullet_kill r g) = next_hotSwitch g" "next_botTime (Bullet_kill r g) = next_botTime g"
  "weapons (Bullet_kill r g) = weapons g" "rnd_count (Bullet_kill r g) = rnd_count g"
  "superhot (Bullet_kill r g) = superhot g"
  using frame_bullets_fields [OF frame_Bullet_kill [of r g]]
  by (simp_all add: superhot_def)

lemma Game_superhot_fields [simp]:
  "bots (Game_superhot g) = bots g" "counts_bots (Game_superhot g) = counts_bots g"
  "superhot_calls (Game_superhot g) = Suc (superhot_calls g)"
  "superhot (Game_superhot g) = superhot g"
  by (simp_all add: Game_superhot_def superhot_def)

text \<open>The kill handler starts the win sequence exactly when it kills the last living bot
  with nothing left to spawn.\<close>

lemma botKillHandler_calls:
  assumes "i < length (bots g)"
  shows "superhot_calls (Game_botKillHandler i r g) =
           superhot_calls g +
             (if alive (bots g ! i) \<and> counts_bots g = 0 \<and> countLiving (bots g) = 1 then 1 else 0)"
    and "superhot (Game_botKillHandler i r g) \<longleftrightarrow>
           counts_bots g = 0 \<and>
             countLiving (bots g) = (if alive (bots g ! i) then 1 else 0)"
    and "counts_bots (Game_botKillHandler i r g) = counts_bots g"
proof -
  show "counts_bots (Game_botKillHandler i r g) = counts_bots g"
    by (simp add: Game_botKillHandler_def Let_def)
  show "superhot_calls (Game_botKillHandler i r g) =
           superhot_calls g +
             (if alive (bots g ! i) \<and> counts_bots g = 0 \<and> countLiving (bots g) = 1 then 1 else 0)"
  proof (cases "alive (bots g ! i)")
    case False
    then show ?thesis by (simp add: Game_botKillHandler_def)
  next
    case True
    have k: "Suc (countLiving (bots (upd_bot i Phaser_kill g))) = countLiving (bots g)"
      unfolding upd_bot_def using countLiving_kill [OF assms True, of "Phaser_kill (bots g ! i)"]
      by (simp add: Phaser_kill_def)
    then show ?thesis using True
      by (auto simp: Game_botKillHandler_def Let_def superhot_def)
  qed
  show "superhot (Game_botKillHandler i r g) \<longleftrightarrow>
           counts_bots g = 0 \<and>
             countLiving (bots g) = (if alive (bots g ! i) then 1 else 0)"
  proof (cases "alive (bots g ! i)")
    case False
    then show ?thesis by (simp add: Game_botKillHandler_def superhot_def)
  next
    case True
    have k: "Suc (countLiving (bots (upd_bot i Phaser_kill g))) = countLiving (bots g)"
      unfolding upd_bot_def using countLiving_kill [OF assms True, of "Phaser_kill (bots g ! i)"]
      by (simp add: Phaser_kill_def)
    then show ?thesis using True
      by (auto simp: Game_botKillHandler_def Let_def superhot_def)
  qed
qed

lemma Game_lose_fields [simp]:
  "bots (Game_lose r g) = bots g" "counts_bots (Game_lose r g) = counts_bots g"
  "superhot_calls (Game_lose r g) = superhot_calls g" "superhot (Game_lose r g) = superhot g"
  by (simp_all add: Game_lose_def Let_def superhot_def)

lemma callback_win_inv:
  assumes "win_inv g" and "valid_body a g"
  shows "win_inv (callback a b g)"
proof (cases a)
  case PlayerBody
  then show ?thesis using assms(1)
    by (cases b) (simp_all add: callback_def win_inv_def)
next
  case (BulletBody r)
  then show ?thesis using assms(1)
    by (cases b) (simp_all add: callback_def win_inv_def bulletHandler_def)
next
  case (BotBody i)
  show ?thesis
  proof (cases b)
    case (BulletBody r)
    from assms(2) BotBody have i: "i < length (bots g)" by (simp add: valid_body_def)
    have "alive (bots g ! i) \<Longrightarrow> countLiving (bots g) \<noteq> 0"
      using i by (auto simp: countLiving_0_iff)
    then show ?thesis
      using assms(1) botKillHandler_calls [OF i, of r] BotBody BulletBody
      by (auto simp: callback_def win_inv_def superhot_def split: if_splits)
  qed (use assms(1) BotBody in \<open>simp_all add: callback_def\<close>)
qed

lemma valid_body_callback [simp]: "valid_body c (callback a b g) = valid_body c g"
proof -
  have l: "length (bots (callback a b g)) = length (bots g)"
    by (cases a; cases b)
       (simp_all add: callback_def bulletHandler_def Game_botKillHandler_def Let_def Game_lose_def)
  have m: "length (bullets_of grp (callback a b g)) = length (bullets_of grp g)" for grp
    by (cases a; cases b)
       (simp_all add: callback_def bulletHandler_def Game_botKillHandler_def Let_def Game_lose_def
          Game_superhot_def)
  show ?thesis by (cases c) (simp_all add: valid_body_def l m)
qed

lemma contact_win_inv:
  "win_inv g \<Longrightarrow> valid_body a g \<Longrightarrow> valid_body b g \<Longrightarrow> win_inv (contact a b g)"
  unfolding contact_def by (intro callback_win_inv) simp_all

lemma hotswitch_fields [simp]:
  "bots (hotswitch i pt g) = bots g" "counts_bots (hotswitch i pt g) = counts_bots g"
  "superhot_calls (hotswitch i pt g) = superhot_calls g" "superhot (hotswitch i pt g) = superhot g"
  "camera_flashes (hotswitch i pt g) = camera_flashes g"
  "player (hotswitch i pt g) = player g"
  by (simp_all add: hotswitch_def superhot_def)

lemma swap_fields [simp]:
  "counts_bots (swap i g) = counts_bots g" "superhot_calls (swap i g) = superhot_calls g"
  "map alive (bots (swap i g)) = map alive (bots g)"
  "length (bots (swap i g)) = length (bots g)"
  "camera_flashes (swap i g) = Suc (camera_flashes g)"
  "hotswitching (swap i g) = hotswitching g"
  "botTween (swap i g) = FadeIn i"
proof -
  have "map alive ((bots g)[i := (bots g ! i)\<lparr>body_x := body_x (player g), body_y := body_y (player g)\<rparr>])
      = map alive (bots g)"
    using map_update_same [of alive "\<lambda>b. b\<lparr>body_x := body_x (player g), body_y := body_y (player g)\<rparr>" "bots g" i]
    by simp
  then show "map alive (bots (swap i g)) = map alive (bots g)"
    by (simp add: swap_def Let_def)
qed (simp_all add: swap_def Let_def)

lemma superhot_swap [simp]: "superhot (swap i g) = superhot g"
  by (rule superhot_cong) simp_all

lemma endHotswitch_fields [simp]:
  "bots (endHotswitch g) = bots g" "counts_bots (endHotswitch g) = counts_bots g"
  "superhot_calls (endHotswitch g) = superhot_calls g" "superhot (endHotswitch g) = superhot g"
  "camera_flashes (endHotswitch g) = camera_flashes g"
  by (simp_all add: endHotswitch_def superhot_def)

lemma frame_tick_superhot_calls: "frame_tick g' = frame_tick g \<Longrightarrow> superhot_calls g' = superhot_calls g"
  by (simp add: frame_tick_def)

lemma step_win_inv:
  assumes "win_inv g" and "step ph ev g = Some g'"
  shows "win_inv g'"
proof (cases ev)
  case (Tick inp)
  with assms(2) have u: "Game_update ph inp g = Some g'" by (simp add: step_def)
  show ?thesis
  proof (cases "superhot g")
    case True
    with u assms(1) show ?thesis by (simp add: Game_update_def)
  next
    case False
    from Game_update_not_superhot [OF u False] frame_tick_superhot_calls [OF Game_update_frame [OF u]]
    show ?thesis using assms(1) False by (simp add: win_inv_def)
  qed
next
  case (InputDown i pt)
  with assms show ?thesis by (auto simp: step_def win_inv_def split: if_splits)
next
  case TweenComplete
  with assms show ?thesis by (cases "botTween g") (auto simp: step_def win_inv_def)
next
  case (Contact a b)
  with assms show ?thesis by (auto simp: step_def contact_win_inv)
next
  case (OutOfWorld r)
  with assms show ?thesis by (auto simp: step_def win_inv_def split: if_splits)
qed

lemma run_win_inv: "win_inv g \<Longrightarrow> run ph evs g = Some g' \<Longrightarrow> win_inv g'"
proof (induction evs arbitrary: g)
  case Nil
  then show ?case by simp
next
  case (Cons ev evs)
  from Cons.prems(2) obtain g1 where s: "step ph ev g = Some g1" and r: "run ph evs g1 = Some g'"
    by (auto split: option.splits)
  from Cons.IH [OF step_win_inv [OF Cons.prems(1) s] r] show ?case .
qed

lemma frame_tick_fields:
  assumes "frame_tick g' = frame_tick g"
  shows "level g' = level g" "mutators g' = mutators g" "hotswitching g' = hotswitching g"
    "inputHandler g' = inputHandler g" "playerCollidesBullets g' = playerCollidesBullets g"
    "botTween g' = botTween g" "superhot_calls g' = superhot_calls g"
    "savedLevel g' = savedLevel g" "loseOverlay g' = loseOverlay g"
    "camera_flashes g' = camera_flashes g"
  using assms by (simp_all add: frame_tick_def)

lemmas Game_spawnBot_tick_fields [simp] = frame_tick_fields [OF Game_spawnBot_frame(1)]

lemma countLiving_Nil: "countLiving [] = 0"
  by (simp add: countLiving_def)

lemma Game_create_fields:
  "level (Game_create ph lv m guns cnt e0) = lv"
  "mutators (Game_create ph lv m guns cnt e0) = m"
  "counts_bots (Game_create ph lv m guns cnt e0) = init_bots lv - 1"
  "counts_bullets (Game_create ph lv m guns cnt e0) = init_bullets m (init_bots lv)"
  "countLiving (bots (Game_create ph lv m guns cnt e0)) = 1"
  "superhot_calls (Game_create ph lv m guns cnt e0) = 0"
  "camera_flashes (Game_create ph lv m guns cnt e0) = 0"
  "hotswitching (Game_create ph lv m guns cnt e0) = False"
  "botTween (Game_create ph lv m guns cnt e0) = NoTween"
  "inputHandler (Game_create ph lv m guns cnt e0) = True"
  "playerCollidesBullets (Game_create ph lv m guns cnt e0) = True"
  "loseOverlay (Game_create ph lv m guns cnt e0) = False"
  unfolding Game_create_def Let_def by (simp_all add: countLiving_Nil)

lemma create_win_inv: "win_inv (Game_create ph lv m guns cnt e0)"
  by (simp add: win_inv_def superhot_def Game_create_fields)

lemma step_calls_only_kill:
  assumes "step ph ev g = Some g'" and "superhot_calls g' \<noteq> superhot_calls g"
  shows "\<exists>i r. (ev = Contact (BotBody i) (BulletBody r) \<or> ev = Contact (BulletBody r) (BotBody i)) \<and>
            i < length (bots g) \<and> alive (bots g ! i) \<and> counts_bots g = 0 \<and> countLiving (bots g) = 1"
proof (cases ev)
  case (Tick inp)
  with assms(1) have "Game_update ph inp g = Some g'" by (simp add: step_def)
  from frame_tick_superhot_calls [OF Game_update_frame [OF this]] assms(2) show ?thesis by simp
next
  case (InputDown i pt)
  with assms show ?thesis by (auto simp: step_def split: if_splits)
next
  case TweenComplete
  with assms show ?thesis by (cases "botTween g") (auto simp: step_def)
next
  case (OutOfWorld r)
  with assms show ?thesis by (auto simp: step_def split: if_splits)
next
  case (Contact a b)
  have other: "superhot_calls (callback x y h) = superhot_calls h"
    if "\<not> (\<exists>i r. x = BotBody i \<and> y = BulletBody r)" for x y h
    using that by (cases x; cases y) (simp_all add: callback_def bulletHandler_def)
  from Contact assms have v: "valid_body a g" "valid_body b g" and g': "g' = contact a b g"
    by (auto simp: step_def split: if_splits)
  show ?thesis
  proof (cases "\<exists>i r. a = BotBody i \<and> b = BulletBody r")
    case True
    then obtain i r where ab: "a = BotBody i" "b = BulletBody r" by blast
    from v ab have i: "i < length (bots g)" by (simp add: valid_body_def)
    have "superhot_calls g' = superhot_calls (Game_botKillHandler i r g)"
      unfolding g' contact_def ab by (simp add: callback_def)
    with assms(2) botKillHandler_calls(1) [OF i, of r] show ?thesis
      using Contact ab i by (auto split: if_splits)
  next
    case False
    then have 1: "superhot_calls (callback a b g) = superhot_calls g" by (rule other)
    show ?thesis
    proof (cases "\<exists>i r. b = BotBody i \<and> a = BulletBody r")
      case True
      then obtain i r where ab: "b = BotBody i" "a = BulletBody r" by blast
      from v ab have i: "i < length (bots g)" by (simp add: valid_body_def)
      have cb: "callback a b g = g"
        unfolding ab by (simp add: callback_def)
      have "superhot_calls g' = superhot_calls (Game_botKillHandler i r g)"
        unfolding g' contact_def cb unfolding ab by (simp add: callback_def)
      with assms(2) botKillHandler_calls(1) [OF i, of r] show ?thesis
        using Contact ab i by (auto split: if_splits)
    next
      case False
      then have "superhot_calls (callback b a (callback a b g)) = superhot_calls (callback a b g)"
        by (rule other)
      with 1 assms(2) show ?thesis unfolding g' contact_def by simp
    qed
  qed
qed

text \<open>
  C3. In every state that a level can reach from its start, the win sequence has been
  started exactly once if nothing is left to spawn and no bot lives, and not at all
  otherwise. The kill handler starts it exactly when it kills the last living bot with a
  spawn counter of zero, never while that counter is positive. No other event starts it:
  a step that starts it is a contact of a living bot with a bullet, in a state with a spawn
  counter of zero and that bot the only one alive.
\<close>

theorem win_exactly_once:
  assumes "run ph evs (Game_create ph lv m guns cnt e0) = Some g"
  shows "superhot_calls g = (if counts_bots g = 0 \<and> countLiving (bots g) = 0 then 1 else 0) \<and>
    (\<forall>i r. i < length (bots g) \<longrightarrow>
       superhot_calls (Game_botKillHandler i r g) =
         superhot_calls g +
           (if alive (bots g ! i) \<and> counts_bots g = 0 \<and> countLiving (bots g) = 1 then 1 else 0) \<and>
       (0 < counts_bots g \<longrightarrow>
          superhot_calls (Game_botKillHandler i r g) = superhot_calls g)) \<and>
    (\<forall>ev g'. step ph ev g = Some g' \<and> superhot_calls g' \<noteq> superhot_calls g \<longrightarrow>
       (\<exists>i r. (ev = Contact (BotBody i) (BulletBody r) \<or> ev = Contact (BulletBody r) (BotBody i)) \<and>
          i < length (bots g) \<and> alive (bots g ! i) \<and> counts_bots g = 0 \<and>
          countLiving (bots g) = 1))"
proof (intro conjI allI impI)
  from run_win_inv [OF create_win_inv assms]
  show "superhot_calls g = (if counts_bots g = 0 \<and> countLiving (bots g) = 0 then 1 else 0)"
    by (simp add: win_inv_def superhot_def)
next
  fix i r assume i: "i < length (bots g)"
  from botKillHandler_calls(1) [OF i]
  show "superhot_calls (Game_botKillHandler i r g) =
         superhot_calls g +
           (if alive (bots g ! i) \<and> counts_bots g = 0 \<and> countLiving (bots g) = 1 then 1 else 0)" .
  assume "0 < counts_bots g"
  with botKillHandler_calls(1) [OF i, of r]
  show "superhot_calls (Game_botKillHandler i r g) = superhot_calls g" by simp
next
  fix ev g' assume "step ph ev g = Some g' \<and> superhot_calls g' \<noteq> superhot_calls g"
  then show "\<exists>i r. (ev = Contact (BotBody i) (BulletBody r) \<or> ev = Contact (BulletBody r) (BotBody i)) \<and>
          i < length (bots g) \<and> alive (bots g ! i) \<and> counts_bots g = 0 \<and>
          countLiving (bots g) = 1"
    using step_calls_only_kill by blast
qed

theorem win_exactly_once_witness:
  "run phaser0 [InputDown 0 rightClick, TweenComplete] (Game_create phaser0 1 mutators0 (\<lambda>k. False) 0 0)
     = Some game0 \<and>
   superhot_calls game0 = 0 \<and>
   superhot_calls (Game_botKillHandler 0 (BotBullets, 0) game0) = 0"
proof -
  have r: "run phaser0 [InputDown 0 rightClick, TweenComplete] (Game_create phaser0 1 mutators0 (\<lambda>k. False) 0 0)
     = Some game0"
    unfolding game0_def [symmetric]
    by (simp add: step_def hotswitch_def rightClick_def game0_val)
  have c: "counts_bots game0 = 4" "countLiving (bots game0) = 1" "length (bots game0) = 1"
    by (simp_all add: game0_val countLiving_def)
  from win_exactly_once [OF r] have
    "superhot_calls game0 = (if counts_bots game0 = 0 \<and> countLiving (bots game0) = 0 then 1 else 0)"
    and "0 < length (bots game0) \<longrightarrow>
       superhot_calls (Game_botKillHandler 0 (BotBullets, 0) game0) =
         superhot_calls game0 +
           (if alive (bots game0 ! 0) \<and> counts_bots game0 = 0 \<and> countLiving (bots game0) = 1 then 1 else 0)"
    by blast+
  with r c show ?thesis by simp
qed

section \<open>The hotswitch\<close>

lemma Game_superhot_tick [simp]: "frame_tick (Game_superhot g) = frame_tick (g\<lparr>superhot_calls := Suc (superhot_calls g), savedLevel := Some (level g + 1)\<rparr>)"
  by (simp add: Game_superhot_def frame_tick_def)

lemma callback_hotswitch_fields [simp]:
  "hotswitching (callback a b g) = hotswitching g"
  "botTween (callback a b g) = botTween g"
  "camera_flashes (callback a b g) = camera_flashes g"
proof -
  have k: "hotswitching (Bullet_kill r h) = hotswitching h \<and> botTween (Bullet_kill r h) = botTween h \<and>
      camera_flashes (Bullet_kill r h) = camera_flashes h" for r h
    using frame_tick_fields [OF Bullet_kill_fields(6) [of r h]] by simp
  have "hotswitching (callback a b g) = hotswitching g \<and> botTween (callback a b g) = botTween g \<and>
      camera_flashes (callback a b g) = camera_flashes g"
    by (cases a; cases b)
       (simp_all add: callback_def bulletHandler_def Game_botKillHandler_def Game_lose_def Let_def
          Game_superhot_def k)
  then show "hotswitching (callback a b g) = hotswitching g"
    "botTween (callback a b g) = botTween g"
    "camera_flashes (callback a b g) = camera_flashes g" by simp_all
qed

lemma step_window:
  assumes "ev \<noteq> TweenComplete" and "hotswitching g" and "step ph ev g = Some g1"
  shows "hotswitching g1 \<and> botTween g1 = botTween g \<and> camera_flashes g1 = camera_flashes g"
proof (cases ev)
  case (Tick inp)
  with assms(3) have "Game_update ph inp g = Some g1" by (simp add: step_def)
  from frame_tick_fields [OF Game_update_frame [OF this]] assms(2) show ?thesis by simp
next
  case (InputDown i pt)
  with assms(2,3) show ?thesis by (auto simp: step_def hotswitch_def split: if_splits)
next
  case TweenComplete
  with assms(1) show ?thesis by simp
next
  case (Contact a b)
  with assms(2,3) show ?thesis by (auto simp: step_def contact_def split: if_splits)
next
  case (OutOfWorld r)
  have "hotswitching (Bullet_kill r g) = hotswitching g \<and> botTween (Bullet_kill r g) = botTween g \<and>
      camera_flashes (Bullet_kill r g) = camera_flashes g"
    using frame_tick_fields [OF Bullet_kill_fields(6) [of r g]] by simp
  with OutOfWorld assms(2,3) show ?thesis by (auto simp: step_def split: if_splits)
qed

lemma run_window:
  assumes "\<forall>ev \<in> set evs. ev \<noteq> TweenComplete" and "hotswitching g" and "run ph evs g = Some g1"
  shows "hotswitching g1 \<and> botTween g1 = botTween g \<and> camera_flashes g1 = camera_flashes g"
  using assms
proof (induction evs arbitrary: g)
  case Nil
  then show ?case by simp
next
  case (Cons ev evs)
  from Cons.prems(3) obtain g2 where s: "step ph ev g = Some g2" and r: "run ph evs g2 = Some g1"
    by (auto split: option.splits)
  from Cons.prems(1) have ne: "ev \<noteq> TweenComplete" and rest: "\<forall>ev \<in> set evs. ev \<noteq> TweenComplete"
    by simp_all
  from step_window [OF ne Cons.prems(2) s] Cons.IH [OF rest _ r] show ?case by simp
qed

lemma run_append:
  "run ph (xs @ ys) g = (case run ph xs g of None \<Rightarrow> None | Some g1 \<Rightarrow> run ph ys g1)"
  by (induction xs arbitrary: g) (auto split: option.splits)

text \<open>
  C4. A request is rejected, leaving the game as it is, while the cooldown is positive or a
  swap is in progress. Once a request is accepted, whatever else happens before the two
  fades complete (further requests, ticks, contacts), the window from the request to the
  end of the fade-in holds exactly one swap: the camera has flashed once more and the
  hotswitch is over. The swap itself is exact: the player's body takes the position the
  clicked bot's body had, and the bot's body the position the player's body had.
\<close>

theorem hotswitch_exclusive_exact:
  "((0 < next_hotSwitch g \<or> hotswitching g) \<longrightarrow> hotswitch i pointer g = g) \<and>
   (inputHandler g \<and> i < length (bots g) \<and>
    ((leftButton_isDown pointer \<and> leftButton_shiftKey pointer) \<or> rightButton_isDown pointer) \<and>
    next_hotSwitch g \<le> 0 \<and> \<not> hotswitching g \<and>
    (\<forall>ev \<in> set evs1. ev \<noteq> TweenComplete) \<and> (\<forall>ev \<in> set evs2. ev \<noteq> TweenComplete) \<and>
    run ph (InputDown i pointer # evs1 @ TweenComplete # evs2 @ [TweenComplete]) g = Some g'
    \<longrightarrow> camera_flashes g' = Suc (camera_flashes g) \<and> \<not> hotswitching g' \<and> botTween g' = NoTween) \<and>
   (i < length (bots g) \<and> botTween g = FadeOut i \<longrightarrow>
      (\<exists>g1. step ph TweenComplete g = Some g1 \<and>
         body_x (player g1) = body_x (bots g ! i) \<and> body_y (player g1) = body_y (bots g ! i) \<and>
         body_x (bots g1 ! i) = body_x (player g) \<and> body_y (bots g1 ! i) = body_y (player g) \<and>
         camera_flashes g1 = Suc (camera_flashes g)))"
proof (intro conjI impI)
  assume "0 < next_hotSwitch g \<or> hotswitching g"
  then show "hotswitch i pointer g = g" by (auto simp: hotswitch_def)
next
  assume a: "inputHandler g \<and> i < length (bots g) \<and>
    ((leftButton_isDown pointer \<and> leftButton_shiftKey pointer) \<or> rightButton_isDown pointer) \<and>
    next_hotSwitch g \<le> 0 \<and> \<not> hotswitching g \<and>
    (\<forall>ev \<in> set evs1. ev \<noteq> TweenComplete) \<and> (\<forall>ev \<in> set evs2. ev \<noteq> TweenComplete) \<and>
    run ph (InputDown i pointer # evs1 @ TweenComplete # evs2 @ [TweenComplete]) g = Some g'"
  define g1 where "g1 = g\<lparr>hotswitching := True, botTween := FadeOut i\<rparr>"
  from a have s1: "step ph (InputDown i pointer) g = Some g1"
    by (auto simp: step_def hotswitch_def g1_def)
  with a have r1: "run ph (evs1 @ TweenComplete # evs2 @ [TweenComplete]) g1 = Some g'" by simp
  then obtain g2 where r2: "run ph evs1 g1 = Some g2"
    and r3: "run ph (TweenComplete # evs2 @ [TweenComplete]) g2 = Some g'"
    by (auto simp: run_append split: option.splits)
  have w1: "hotswitching g2 \<and> botTween g2 = FadeOut i \<and> camera_flashes g2 = camera_flashes g"
    using run_window [OF _ _ r2] a by (simp add: g1_def)
  then have s2: "step ph TweenComplete g2 = Some (swap i g2)" by (simp add: step_def)
  with r3 have r4: "run ph (evs2 @ [TweenComplete]) (swap i g2) = Some g'" by simp
  then obtain g3 where r5: "run ph evs2 (swap i g2) = Some g3"
    and r6: "run ph [TweenComplete] g3 = Some g'"
    by (auto simp: run_append split: option.splits)
  have w2: "hotswitching g3 \<and> botTween g3 = FadeIn i \<and> camera_flashes g3 = Suc (camera_flashes g)"
    using run_window [OF _ _ r5] a w1 by simp
  with r6 have "g' = endHotswitch g3" by (simp add: step_def)
  with w2 show "camera_flashes g' = Suc (camera_flashes g)" "\<not> hotswitching g'" "botTween g' = NoTween"
    by (simp_all add: endHotswitch_def)
next
  assume a: "i < length (bots g) \<and> botTween g = FadeOut i"
  then have "step ph TweenComplete g = Some (swap i g)" by (simp add: step_def)
  moreover have "body_x (player (swap i g)) = body_x (bots g ! i) \<and> body_y (player (swap i g)) = body_y (bots g ! i) \<and>
         body_x (bots (swap i g) ! i) = body_x (player g) \<and> body_y (bots (swap i g) ! i) = body_y (player g)"
    using a by (simp add: swap_def Let_def)
  ultimately show "\<exists>g1. step ph TweenComplete g = Some g1 \<and>
         body_x (player g1) = body_x (bots g ! i) \<and> body_y (player g1) = body_y (bots g ! i) \<and>
         body_x (bots g1 ! i) = body_x (player g) \<and> body_y (bots g1 ! i) = body_y (player g) \<and>
         camera_flashes g1 = Suc (camera_flashes g)"
    by simp
qed

theorem hotswitch_exclusive_exact_witness:
  "hotswitch 0 rightClick game0 = game0 \<and>
   run phaser0 [InputDown 0 rightClick, InputDown 0 rightClick, TweenComplete,
                InputDown 0 rightClick, TweenComplete] (game0\<lparr>next_hotSwitch := 0\<rparr>)
     = Some (game0\<lparr>player := (player game0)\<lparr>body_x := 867 / 2\<rparr>,
                    bots := [(bots game0 ! 0)\<lparr>body_x := 0\<rparr>],
                    camera_flashes := 1\<rparr>) \<and>
   camera_flashes (game0\<lparr>player := (player game0)\<lparr>body_x := 867 / 2\<rparr>,
                    bots := [(bots game0 ! 0)\<lparr>body_x := 0\<rparr>],
                    camera_flashes := 1\<rparr>) = Suc (camera_flashes (game0\<lparr>next_hotSwitch := 0\<rparr>))"
proof -
  let ?g = "game0\<lparr>next_hotSwitch := 0\<rparr>"
  let ?g' = "game0\<lparr>player := (player game0)\<lparr>body_x := 867 / 2\<rparr>,
                    bots := [(bots game0 ! 0)\<lparr>body_x := 0\<rparr>],
                    camera_flashes := 1\<rparr>"
  have r: "run phaser0 (InputDown 0 rightClick # [InputDown 0 rightClick] @ TweenComplete #
                [InputDown 0 rightClick] @ [TweenComplete]) ?g = Some ?g'"
    by (simp add: step_def hotswitch_def swap_def endHotswitch_def rightClick_def game0_val
        Game_hotswitchTimeout_def mutators0_def hotswitchTimeout_def)
  have pos: "0 < next_hotSwitch game0" by (simp add: game0_val)
  have pre: "inputHandler ?g \<and> 0 < length (bots ?g) \<and>
    ((leftButton_isDown rightClick \<and> leftButton_shiftKey rightClick) \<or> rightButton_isDown rightClick) \<and>
    next_hotSwitch ?g \<le> 0 \<and> \<not> hotswitching ?g \<and>
    (\<forall>ev \<in> set [InputDown 0 rightClick]. ev \<noteq> TweenComplete) \<and>
    (\<forall>ev \<in> set [InputDown 0 rightClick]. ev \<noteq> TweenComplete)"
    by (simp add: game0_val rightClick_def)
  from hotswitch_exclusive_exact [of game0 0 rightClick "[]" "[]" phaser0 game0] pos
  have 1: "hotswitch 0 rightClick game0 = game0" by blast
  from hotswitch_exclusive_exact [of ?g 0 rightClick "[InputDown 0 rightClick]" "[InputDown 0 rightClick]"
      phaser0 ?g'] pre r
  have 2: "camera_flashes ?g' = Suc (camera_flashes ?g)" by blast
  from 1 2 r show ?thesis by simp
qed

section \<open>Losing\<close>

lemma alive_after_Bullet_kill:
  "snd r < length (bullets_of (fst r) g) \<Longrightarrow> \<not> alive (bullets_of (fst r) (Bullet_kill r g) ! snd r)"
  by (simp add: bullets_of_Bullet_kill Phaser_kill_def)

lemma Game_lose_cases:
  "Game_lose r g =
     (if \<not> alive (bullets_of (fst r) g ! snd r) then g
      else if \<not> alive (player g) then Bullet_kill r g
      else if secondchance (mutators g)
      then (Bullet_kill r g)\<lparr>mutators := (mutators g)\<lparr>secondchance := False\<rparr>\<rparr>
      else if superhot g \<or> godmode (mutators g) then Bullet_kill r g
      else (Bullet_kill r g)\<lparr>loseOverlay := True, inputHandler := False,
              playerCollidesBullets := False, player := Phaser_kill (player g)\<rparr>)"
  by (simp add: Game_lose_def Let_def)

lemma Game_lose_bullet_dead:
  assumes "snd r < length (bullets_of (fst r) g)"
  shows "\<not> alive (bullets_of (fst r) (Game_lose r g) ! snd r)"
  using alive_after_Bullet_kill [OF assms] by (simp add: Game_lose_cases)

lemma Game_lose_player:
  "alive (player (Game_lose r g)) \<longleftrightarrow>
     alive (player g) \<and>
     (\<not> alive (bullets_of (fst r) g ! snd r) \<or> secondchance (mutators g) \<or> superhot g \<or>
      godmode (mutators g))"
  by (auto simp: Game_lose_cases Phaser_kill_def)

lemma Game_lose_secondchance:
  "secondchance (mutators (Game_lose r g)) \<longleftrightarrow>
     secondchance (mutators g) \<and> \<not> (alive (bullets_of (fst r) g ! snd r) \<and> alive (player g))"
  by (auto simp: Game_lose_cases)

lemma Game_lose_detaches:
  "alive (player g) \<Longrightarrow> \<not> alive (player (Game_lose r g)) \<Longrightarrow>
     \<not> inputHandler (Game_lose r g) \<and> \<not> playerCollidesBullets (Game_lose r g) \<and> loseOverlay (Game_lose r g)"
  by (auto simp: Game_lose_cases split: if_splits)

lemma callback_detached_fields:
  "inputHandler (callback a b g) \<longrightarrow> inputHandler g"
  "playerCollidesBullets (callback a b g) \<longrightarrow> playerCollidesBullets g"
proof -
  have k: "inputHandler (Bullet_kill r h) = inputHandler h \<and>
      playerCollidesBullets (Bullet_kill r h) = playerCollidesBullets h" for r h
    using frame_tick_fields [OF Bullet_kill_fields(6) [of r h]] by simp
  show "inputHandler (callback a b g) \<longrightarrow> inputHandler g"
    by (cases a; cases b)
       (simp_all add: callback_def bulletHandler_def Game_botKillHandler_def Game_lose_cases Let_def
          Game_superhot_def k)
  show "playerCollidesBullets (callback a b g) \<longrightarrow> playerCollidesBullets g"
    by (cases a; cases b)
       (simp_all add: callback_def bulletHandler_def Game_botKillHandler_def Game_lose_cases Let_def
          Game_superhot_def k)
qed

lemma step_detached:
  assumes "step ph ev g = Some g'"
  shows "(inputHandler g' \<longrightarrow> inputHandler g) \<and> (playerCollidesBullets g' \<longrightarrow> playerCollidesBullets g)"
proof (cases ev)
  case (Tick inp)
  with assms have "Game_update ph inp g = Some g'" by (simp add: step_def)
  from frame_tick_fields [OF Game_update_frame [OF this]] show ?thesis by simp
next
  case (InputDown i pt)
  with assms show ?thesis by (auto simp: step_def hotswitch_def split: if_splits)
next
  case TweenComplete
  with assms show ?thesis
    by (cases "botTween g") (auto simp: step_def swap_def endHotswitch_def Let_def)
next
  case (Contact a b)
  with assms show ?thesis
    using callback_detached_fields [of b a "callback a b g"] callback_detached_fields [of a b g]
    by (auto simp: step_def contact_def split: if_splits)
next
  case (OutOfWorld r)
  have "inputHandler (Bullet_kill r g) = inputHandler g \<and>
      playerCollidesBullets (Bullet_kill r g) = playerCollidesBullets g"
    using frame_tick_fields [OF Bullet_kill_fields(6) [of r g]] by simp
  with OutOfWorld assms show ?thesis by (auto simp: step_def split: if_splits)
qed

lemma run_detached:
  "run ph evs g = Some g' \<Longrightarrow>
     (inputHandler g' \<longrightarrow> inputHandler g) \<and> (playerCollidesBullets g' \<longrightarrow> playerCollidesBullets g)"
proof (induction evs arbitrary: g)
  case Nil
  then show ?case by simp
next
  case (Cons ev evs)
  from Cons.prems obtain g1 where s: "step ph ev g = Some g1" and r: "run ph evs g1 = Some g'"
    by (auto split: option.splits)
  from step_detached [OF s] Cons.IH [OF r] show ?case by blast
qed

text \<open>
  C5, as the code has it. When \<open>_lose\<close> is called for a bullet in contact with the player,
  the bullet is dead afterwards. The player is dead afterwards unless the player was dead
  already, the bullet was dead already, the second-chance mutator is on, the level is
  already won, or godmode is on. A hit on a living player by a living bullet always turns
  second-chance off, so it saves the player once. When the hit kills the player, the
  hotswitch handler is detached and the player no longer collides with bullets, and this
  stays so whatever happens next: a later click does nothing and a later contact of the
  player with a bullet runs no handler.
\<close>

theorem lose_handler:
  assumes "snd r < length (bullets_of (fst r) g)"
  shows "\<not> alive (bullets_of (fst r) (Game_lose r g) ! snd r) \<and>
    (alive (player (Game_lose r g)) \<longleftrightarrow>
       alive (player g) \<and>
       (\<not> alive (bullets_of (fst r) g ! snd r) \<or> secondchance (mutators g) \<or> superhot g \<or>
        godmode (mutators g))) \<and>
    (secondchance (mutators (Game_lose r g)) \<longleftrightarrow>
       secondchance (mutators g) \<and> \<not> (alive (bullets_of (fst r) g ! snd r) \<and> alive (player g))) \<and>
    (alive (player g) \<and> \<not> alive (player (Game_lose r g)) \<longrightarrow>
       (\<forall>evs g'. run ph evs (Game_lose r g) = Some g' \<longrightarrow>
          \<not> inputHandler g' \<and> \<not> playerCollidesBullets g' \<and>
          (\<forall>i pointer. step ph (InputDown i pointer) g' = Some g') \<and>
          (\<forall>r'. callback PlayerBody (BulletBody r') g' = g')))"
proof (intro conjI impI allI)
  show "\<not> alive (bullets_of (fst r) (Game_lose r g) ! snd r)"
    by (rule Game_lose_bullet_dead [OF assms])
  show "alive (player (Game_lose r g)) \<longleftrightarrow>
       alive (player g) \<and>
       (\<not> alive (bullets_of (fst r) g ! snd r) \<or> secondchance (mutators g) \<or> superhot g \<or>
        godmode (mutators g))"
    by (rule Game_lose_player)
  show "secondchance (mutators (Game_lose r g)) \<longleftrightarrow>
       secondchance (mutators g) \<and> \<not> (alive (bullets_of (fst r) g ! snd r) \<and> alive (player g))"
    by (rule Game_lose_secondchance)
next
  fix evs g' i pointer r'
  assume d: "alive (player g) \<and> \<not> alive (player (Game_lose r g))"
    and run: "run ph evs (Game_lose r g) = Some g'"
  from d Game_lose_detaches [of g r]
  have "\<not> inputHandler (Game_lose r g) \<and> \<not> playerCollidesBullets (Game_lose r g)" by blast
  with run_detached [OF run] show 1: "\<not> inputHandler g'" and 2: "\<not> playerCollidesBullets g'"
    by blast+
  from 1 show "step ph (InputDown i pointer) g' = Some g'" by (simp add: step_def)
  from 2 show "callback PlayerBody (BulletBody r') g' = g'" by (simp add: callback_def)
qed

lemma game_won_val:
  "superhot game_won" "alive (player game_won)" "alive (bullets_of BotBullets game_won ! 0)"
  "\<not> godmode (mutators game_won)" "\<not> secondchance (mutators game_won)"
  "length (bullets_of BotBullets game_won) = 1"
  by (simp_all add: game_won_def game0_val superhot_def countLiving_def Phaser_kill_def
      bullets_of_def mutators0_def)

text \<open>C5 as stated fails: after the level is won, a living bullet hitting the living
  player, with neither godmode nor second-chance on, does not kill the player.\<close>

theorem lose_handler_counterexample:
  "alive (bullets_of BotBullets game_won ! 0) \<and> alive (player game_won) \<and>
   \<not> godmode (mutators game_won) \<and> \<not> secondchance (mutators game_won) \<and>
   alive (player (Game_lose (BotBullets, 0) game_won))"
  using game_won_val by (simp add: Game_lose_player)

theorem lose_handler_witness:
  "snd (BotBullets, 0::nat) < length (bullets_of (fst (BotBullets, 0::nat)) game_won) \<and>
   \<not> alive (bullets_of BotBullets (Game_lose (BotBullets, 0) game_won) ! 0) \<and>
   alive (player (Game_lose (BotBullets, 0) game_won))"
proof -
  have v: "snd (BotBullets, 0::nat) < length (bullets_of (fst (BotBullets, 0::nat)) game_won)"
    using game_won_val by simp
  from lose_handler [OF v, of phaser0] game_won_val v show ?thesis by simp
qed

section \<open>Bullets against bullets, and calling a handler again\<close>


lemma Phaser_kill_idem [simp]: "Phaser_kill (Phaser_kill s) = Phaser_kill s"
  by (simp add: Phaser_kill_def)

lemma name_Phaser_kill [simp]: "name (Phaser_kill b) = name b"
  by (simp add: Phaser_kill_def)

lemma liveTrails_simps [simp]:
  "liveTrails (set_bullets grp bs g) = liveTrails g"
  "trails (set_bullets grp bs g) = trails g"
  by (cases grp; simp add: set_bullets_def)+









section \<open>Bullets and their owners\<close>

lemma bullets_inv_cong:
  "(\<And>grp. bullets_of grp g' = bullets_of grp g) \<Longrightarrow> bullets_inv g' = bullets_inv g"
  by (simp add: bullets_inv_def)






lemma bullets_of_trails_getFirstDead [simp]:
  "bullets_of grp (snd (trails_getFirstDead g)) = bullets_of grp g"
  by (simp add: trails_getFirstDead_def split: option.splits)

lemma bullets_of_startTrail [simp]: "bullets_of grp (startTrail r g) = bullets_of grp g"
  by (simp add: startTrail_def Let_def split_def)






lemma bullets_inv_upd [simp]:
  "bullets_inv (g\<lparr>weapons := ws\<rparr>) = bullets_inv g"
  "bullets_inv (g\<lparr>rnd_count := n\<rparr>) = bullets_inv g"
  "bullets_inv (g\<lparr>player := p\<rparr>) = bullets_inv g"
  "bullets_inv (g\<lparr>bots := bs\<rparr>) = bullets_inv g"
  "bullets_inv (g\<lparr>mutators := m\<rparr>) = bullets_inv g"
  "bullets_inv (g\<lparr>counts_bots := c\<rparr>) = bullets_inv g"
  "bullets_inv (g\<lparr>counts_bullets := c\<rparr>) = bullets_inv g"
  "bullets_inv (g\<lparr>next_botTime := t\<rparr>) = bullets_inv g"
  "bullets_inv (g\<lparr>next_hotSwitch := t\<rparr>) = bullets_inv g"
  "bullets_inv (g\<lparr>elapsedTime := t\<rparr>) = bullets_inv g"
  "bullets_inv (g\<lparr>hotswitching := h\<rparr>) = bullets_inv g"
  "bullets_inv (g\<lparr>botTween := tw\<rparr>) = bullets_inv g"
  "bullets_inv (g\<lparr>camera_flashes := k\<rparr>) = bullets_inv g"
  "bullets_inv (g\<lparr>superhot_calls := k\<rparr>) = bullets_inv g"
  "bullets_inv (g\<lparr>savedLevel := sl\<rparr>) = bullets_inv g"
  "bullets_inv (g\<lparr>loseOverlay := lo\<rparr>) = bullets_inv g"
  "bullets_inv (g\<lparr>inputHandler := ih\<rparr>) = bullets_inv g"
  "bullets_inv (g\<lparr>playerCollidesBullets := pc\<rparr>) = bullets_inv g"
  "bullets_inv (upd_bot i f g) = bullets_inv g"
  by (simp_all add: bullets_inv_def bullets_of_def upd_bot_def)



text \<open>How the composite operations succeed, step by step.\<close>

lemma Player_fire_cases:
  assumes "Player_fire ph g = Some g'"
  obtains rate g1 where
    "LiveSprite_fire ph ThePlayer (spr_x (player g)) (spr_y (player g)) (body_rotation (player g))
       (radius (player g)) (weapon (player g)) g = Some (rate, g1)"
    "g' = g1\<lparr>player := (player g1)\<lparr>remainingTime := rate\<rparr>\<rparr>"
proof -
  define res where "res = LiveSprite_fire ph ThePlayer (spr_x (player g)) (spr_y (player g))
      (body_rotation (player g)) (radius (player g)) (weapon (player g)) g"
  have pf: "Player_fire ph g = (case res of None \<Rightarrow> None
     | Some (rate, g1) \<Rightarrow> Some (g1\<lparr>player := (player g1)\<lparr>remainingTime := rate\<rparr>\<rparr>))"
    by (simp add: Player_fire_def Let_def res_def)
  from assms pf obtain rate g1 where f: "res = Some (rate, g1)"
    by (cases res) auto
  with assms pf have "g' = g1\<lparr>player := (player g1)\<lparr>remainingTime := rate\<rparr>\<rparr>" by simp
  with f that show ?thesis unfolding res_def by blast
qed





lemma update_player_cases:
  assumes "update_player ph inp moved e g = Some (fired, g')"
  obtains (is_dead) "\<not> alive (player g)" "\<not> fired" "g' = g"
  | (is_alive) g1 where "alive (player g)"
      "(if (fireButton_isDown inp \<and> \<not> fireButton_shiftKey inp) \<or> fireKey_isDown inp
        then Game_firePlayerBullet ph g else Some (False, g)) = Some (fired, g1)"
      "g' = g1\<lparr>player := Player_advance moved (angleBetween ph (0, verVec_y inp) (horVec_x inp, 0)) e
              (if moved \<and> dodge (mutators g1) \<and> dodgeKey_isDown inp
               then Player_dodge (angleBetween ph (0, verVec_y inp) (horVec_x inp, 0)) (player g1)
               else player g1)\<rparr>"
proof (cases "alive (player g)")
  case False
  with assms have "\<not> fired" "g' = g" by (simp_all add: update_player_def)
  with False show ?thesis by (rule is_dead)
next
  case True
  define res where "res = (if (fireButton_isDown inp \<and> \<not> fireButton_shiftKey inp) \<or> fireKey_isDown inp
                  then Game_firePlayerBullet ph g else Some (False, g))"
  have up: "update_player ph inp moved e g =
     (case res of None \<Rightarrow> None
      | Some (playerFired, g1) \<Rightarrow>
           Some (playerFired, g1\<lparr>player := Player_advance moved (angleBetween ph (0, verVec_y inp) (horVec_x inp, 0)) e
              (if moved \<and> dodge (mutators g1) \<and> dodgeKey_isDown inp
               then Player_dodge (angleBetween ph (0, verVec_y inp) (horVec_x inp, 0)) (player g1)
               else player g1)\<rparr>))"
    unfolding update_player_def res_def Let_def using True by simp
  from assms up obtain g1 where r: "res = Some (fired, g1)"
    and g': "g' = g1\<lparr>player := Player_advance moved (angleBetween ph (0, verVec_y inp) (horVec_x inp, 0)) e
              (if moved \<and> dodge (mutators g1) \<and> dodgeKey_isDown inp
               then Player_dodge (angleBetween ph (0, verVec_y inp) (horVec_x inp, 0)) (player g1)
               else player g1)\<rparr>"
    by (cases res) auto
  from True r [unfolded res_def] g' show ?thesis by (rule is_alive)
qed

lemma Game_firePlayerBullet_cases:
  assumes "Game_firePlayerBullet ph g = Some (fired, g')"
  obtains (refused) "remainingTime (player g) > 0 \<or> counts_bullets g = 0" "\<not> fired" "g' = g"
  | (shot) g1 where "\<not> (remainingTime (player g) > 0 \<or> counts_bullets g = 0)" "fired"
      "Player_fire ph g = Some g1" "g' = g1\<lparr>counts_bullets := counts_bullets g1 - 1\<rparr>"
proof (cases "remainingTime (player g) > 0 \<or> counts_bullets g = 0")
  case True
  with assms have "\<not> fired" "g' = g" by (simp_all add: Game_firePlayerBullet_def)
  with True show ?thesis by (rule refused)
next
  case False
  show ?thesis
  proof (cases "Player_fire ph g")
    case None
    with False assms show ?thesis by (simp add: Game_firePlayerBullet_def)
  next
    case (Some g1)
    with False assms have f: "fired" "g' = g1\<lparr>counts_bullets := counts_bullets g1 - 1\<rparr>"
      by (auto simp: Game_firePlayerBullet_def)
    from False f(1) Some f(2) show ?thesis by (rule shot)
  qed
qed






lemma bullets_inv_dodges [simp]:
  "bullets_inv (Bot__dodge ph dfix i g) = bullets_inv g"
  "bullets_inv (Bot_random_dodge ph pe fps e lv i g) = bullets_inv g"
  "bullets_inv (Bot_reactive_dodge ph lv fired i g) = bullets_inv g"
  "bullets_inv (Bot_advance_move ph pe fps e sp lv fired i g) = bullets_inv g"
proof -
  show 1: "bullets_inv (Bot__dodge ph dfix i g) = bullets_inv g" for dfix g
    by (simp add: Bot__dodge_def)
  show 2: "bullets_inv (Bot_random_dodge ph pe fps e lv i g) = bullets_inv g" for g
    by (simp add: Bot_random_dodge_def Let_def 1)
  show 3: "bullets_inv (Bot_reactive_dodge ph lv fired i g) = bullets_inv g" for g
    by (simp add: Bot_reactive_dodge_def Let_def 1)
  show "bullets_inv (Bot_advance_move ph pe fps e sp lv fired i g) = bullets_inv g"
    by (simp add: Bot_advance_move_def 2 3)
qed



lemma bullets_of_bots_getFirstDead [simp]:
  "bullets_of grp (snd (bots_getFirstDead px py g)) = bullets_of grp g"
  by (simp add: bots_getFirstDead_def split: option.splits)

lemma bullets_of_counts [simp]:
  "bullets_of grp (g\<lparr>counts_bots := c\<rparr>) = bullets_of grp g"
  "bullets_of grp (g\<lparr>counts_bullets := c\<rparr>) = bullets_of grp g"
  "bullets_of grp (g\<lparr>next_botTime := t\<rparr>) = bullets_of grp g"
  "bullets_of grp (g\<lparr>next_hotSwitch := t\<rparr>) = bullets_of grp g"
  "bullets_of grp (g\<lparr>elapsedTime := t\<rparr>) = bullets_of grp g"
  "bullets_of grp (g\<lparr>hotswitching := h\<rparr>) = bullets_of grp g"
  "bullets_of grp (g\<lparr>botTween := tw\<rparr>) = bullets_of grp g"
  "bullets_of grp (g\<lparr>camera_flashes := k\<rparr>) = bullets_of grp g"
  by (cases grp; simp add: bullets_of_def)+

lemma bullets_inv_spawn [simp]:
  "bullets_inv (Game_spawnBot ph closer g) = bullets_inv g"
  by (rule bullets_inv_cong) (simp add: Game_spawnBot_def Let_def split_def)

lemma bullets_inv_update_spawn [simp]: "bullets_inv (update_spawn ph e g) = bullets_inv g"
  by (simp add: update_spawn_def Let_def)

lemma bullets_inv_update_hotSwitch [simp]: "bullets_inv (update_hotSwitch e g) = bullets_inv g"
  by (simp add: update_hotSwitch_def)















section \<open>A level never throws\<close>

lemma LiveSprite_fire_total:
  "wr \<noteq> None \<Longrightarrow> \<exists>rate g'. LiveSprite_fire ph ent ex ey rot rad wr g = Some (rate, g')"
  by (cases wr) (auto simp: LiveSprite_fire_def split: prod.splits)

lemma Player_fire_total:
  assumes "weapon (player g) \<noteq> None"
  shows "\<exists>g'. Player_fire ph g = Some g'"
proof -
  from LiveSprite_fire_total [OF assms] obtain rate g1 where
    "LiveSprite_fire ph ThePlayer (spr_x (player g)) (spr_y (player g)) (body_rotation (player g))
       (radius (player g)) (weapon (player g)) g = Some (rate, g1)" by blast
  then show ?thesis by (simp add: Player_fire_def Let_def)
qed

lemma Bot_fire_total:
  assumes "weapon (bots g ! i) \<noteq> None"
  shows "\<exists>g'. Bot_fire ph i g = Some g'"
proof -
  from LiveSprite_fire_total [OF assms] obtain rate g1 where
    "LiveSprite_fire ph (TheBot i) (spr_x (bots g ! i)) (spr_y (bots g ! i))
       (body_rotation (bots g ! i)
          + rnd_realInRange ph (rnd_count g) (- (2 * ANGLE_1DEG)) (2 * ANGLE_1DEG))
       (radius (bots g ! i)) (weapon (bots g ! i)) (g\<lparr>rnd_count := Suc (rnd_count g)\<rparr>)
     = Some (rate, g1)" by blast
  then show ?thesis by (simp add: Bot_fire_def Let_def)
qed

lemma Bot__fire_total:
  assumes "weapon (bots g ! i) \<noteq> None"
  shows "\<exists>g'. Bot__fire ph lv i g = Some g'"
proof (cases "rnd_frac ph (rnd_count g) \<le> 1 / 5")
  case True
  with assms show ?thesis by (auto simp: Bot__fire_def Let_def)
next
  case False
  have "weapon (bots (g\<lparr>rnd_count := Suc (rnd_count g)\<rparr>) ! i) \<noteq> None" using assms by simp
  from Bot_fire_total [OF this] False show ?thesis by (simp add: Bot__fire_def Let_def)
qed

lemma weapon_upd_bot:
  "weapon (f (bots g ! i)) = weapon (bots g ! i) \<Longrightarrow> i < length (bots g) \<Longrightarrow>
     weapon (bots (upd_bot i f g) ! i) = weapon (bots g ! i)"
  by (simp add: upd_bot_def)

lemma Bot_advance_total:
  assumes "weapon (bots g ! i) \<noteq> None" and "i < length (bots g)"
  shows "\<exists>g'. Bot_advance ph pe fps e sp lv fired i g = Some g'"
proof -
  define g2 where "g2 = upd_bot i (\<lambda>b. b\<lparr>body_rotation :=
              angleBetween ph (spr_x b, spr_y b) (spr_x (player g), spr_y (player g))\<rparr>)
             (upd_bot i (\<lambda>b. b\<lparr>remainingTime := remainingTime b - e\<rparr>) g)"
  have "weapon (bots g2 ! i) = weapon (bots g ! i)"
    using assms(2) by (simp add: g2_def upd_bot_def)
  with assms(1) have "weapon (bots g2 ! i) \<noteq> None" by simp
  from Bot__fire_total [OF this] obtain g3 where f: "Bot__fire ph lv i g2 = Some g3" by blast
  have "\<exists>g1. Bot_advance_shoot ph e lv i g = Some g1"
    using f by (simp add: Bot_advance_shoot_def Let_def g2_def [symmetric])
  then show ?thesis by (auto simp: Bot_advance_def)
qed

lemma loop_total:
  "\<forall>b \<in> set (bots g). weapon b \<noteq> None \<Longrightarrow> i + k \<le> length (bots g) \<Longrightarrow>
     \<exists>g'. BotGroup_advance_loop ph pe fps e sp lv fired k i g = Some g'"
proof (induction k arbitrary: i g)
  case 0
  then show ?case by simp
next
  case (Suc k)
  from Suc.prems have i: "i < length (bots g)" by simp
  show ?case
  proof (cases "alive (bots g ! i)")
    case False
    from Suc.IH [of g "Suc i"] Suc.prems False show ?thesis by simp
  next
    case True
    from Suc.prems(1) i have "weapon (bots g ! i) \<noteq> None" by simp
    from Bot_advance_total [OF this i] obtain g1 where
      a: "Bot_advance ph pe fps e sp lv fired i g = Some g1" by blast
    from Bot_advance_frame [OF a] have m: "map weapon (bots g1) = map weapon (bots g)"
      by (simp add: frame_bot_def)
    then have l: "length (bots g1) = length (bots g)" by (metis length_map)
    have w: "\<forall>b \<in> set (bots g1). weapon b \<noteq> None"
    proof
      fix b assume "b \<in> set (bots g1)"
      then have "weapon b \<in> set (map weapon (bots g1))" by simp
      with m have "weapon b \<in> weapon ` set (bots g)" by simp
      with Suc.prems(1) show "weapon b \<noteq> None" by auto
    qed
    from Suc.IH [OF w, of "Suc i"] Suc.prems(2) l obtain g' where
      "BotGroup_advance_loop ph pe fps e sp lv fired k (Suc i) g1 = Some g'" by auto
    with True a show ?thesis by simp
  qed
qed

lemma Player_advance_weapon [simp]: "weapon (Player_advance mv d e p) = weapon p"
  by (simp add: Player_advance_def Let_def moveForward_def setZeroVelocity_def)

lemma Player_dodge_weapon [simp]: "weapon (Player_dodge d p) = weapon p"
  by (simp add: Player_dodge_def)

lemma Player_fire_weapon:
  assumes "Player_fire ph g = Some g'"
  shows "weapon (player g') = weapon (player g)"
proof -
  from assms obtain rate g1 where
    a: "LiveSprite_fire ph ThePlayer (spr_x (player g)) (spr_y (player g)) (body_rotation (player g))
       (radius (player g)) (weapon (player g)) g = Some (rate, g1)"
    and b: "g' = g1\<lparr>player := (player g1)\<lparr>remainingTime := rate\<rparr>\<rparr>"
    by (rule Player_fire_cases)
  from frame_LiveSprite_fire [OF a] have "player g1 = player g" by (simp add: frame_fire_def)
  with b show ?thesis by simp
qed

lemma Game_firePlayerBullet_weapon:
  assumes "Game_firePlayerBullet ph g = Some (fired, g')"
  shows "weapon (player g') = weapon (player g)"
  using assms
proof (cases rule: Game_firePlayerBullet_cases)
  case refused
  then show ?thesis by simp
next
  case (shot g1)
  with Player_fire_weapon [of ph g g1] show ?thesis by simp
qed

lemma list_all_update:
  assumes "\<forall>b \<in> set xs. P b" and "i < length xs \<Longrightarrow> P v"
  shows "\<forall>b \<in> set (xs[i := v]). P b"
proof (cases "i < length xs")
  case True
  with assms show ?thesis by (auto dest!: set_update_subset_insert [THEN subsetD])
next
  case False
  then have "xs[i := v] = xs" by (intro list_update_beyond) simp
  with assms(1) show ?thesis by simp
qed

lemma update_player_total:
  assumes "weapon (player g) \<noteq> None"
  shows "\<exists>fired g'. update_player ph inp moved e g = Some (fired, g') \<and> weapon (player g') \<noteq> None"
proof (cases "alive (player g)")
  case False
  with assms show ?thesis
    by (intro exI [of _ False] exI [of _ g]) (simp add: update_player_def)
next
  case True
  have "\<exists>fired g1. (if (fireButton_isDown inp \<and> \<not> fireButton_shiftKey inp) \<or> fireKey_isDown inp
                  then Game_firePlayerBullet ph g else Some (False, g)) = Some (fired, g1)"
    using Player_fire_total [OF assms, of ph] by (auto simp: Game_firePlayerBullet_def)
  then obtain fired g1 where r: "(if (fireButton_isDown inp \<and> \<not> fireButton_shiftKey inp) \<or> fireKey_isDown inp
                  then Game_firePlayerBullet ph g else Some (False, g)) = Some (fired, g1)" by blast
  have "weapon (player g1) = weapon (player g)"
  proof (cases "(fireButton_isDown inp \<and> \<not> fireButton_shiftKey inp) \<or> fireKey_isDown inp")
    case True
    with r have "Game_firePlayerBullet ph g = Some (fired, g1)" by simp
    then show ?thesis by (rule Game_firePlayerBullet_weapon)
  next
    case False
    with r show ?thesis by simp
  qed
  with assms have "weapon (player g1) \<noteq> None" by simp
  with r True show ?thesis by (simp add: update_player_def Let_def)
qed


lemma weapons_ok_frame_bot:
  "frame_bot g' = frame_bot g \<Longrightarrow> weapons_ok g \<Longrightarrow> weapons_ok g'"
proof -
  assume f: "frame_bot g' = frame_bot g" and w: "weapons_ok g"
  from f have m: "map weapon (bots g') = map weapon (bots g)" and p: "player g' = player g"
    by (simp_all add: frame_bot_def)
  have "\<forall>b \<in> set (bots g'). weapon b \<noteq> None"
  proof
    fix b assume "b \<in> set (bots g')"
    then have "weapon b \<in> set (map weapon (bots g'))" by simp
    with m have "weapon b \<in> weapon ` set (bots g)" by simp
    with w show "weapon b \<noteq> None" by (auto simp: weapons_ok_def)
  qed
  with w p show ?thesis by (simp add: weapons_ok_def)
qed

lemma weapons_ok_bots_cong:
  "bots g' = bots g \<Longrightarrow> weapon (player g') = weapon (player g) \<Longrightarrow> weapons_ok g' = weapons_ok g"
  by (simp add: weapons_ok_def)

lemma weapons_ok_spawn: "weapons_ok g \<Longrightarrow> weapons_ok (Game_spawnBot ph closer g)"
proof -
  assume w: "weapons_ok g"
  define g1 where "g1 = g\<lparr>counts_bots := counts_bots g - 1\<rparr>"
  have key: "\<forall>b \<in> set (bots (upd_bot (fst (bots_getFirstDead px py g1))
        (\<lambda>b. b\<lparr>weapon := Some wr, move := mv\<rparr>) (snd (bots_getFirstDead px py g1)))). weapon b \<noteq> None"
    for px py wr mv
  proof (cases "firstIndex (\<lambda>b. \<not> alive b) (bots g1)")
    case None
    then show ?thesis using w
      by (auto simp: bots_getFirstDead_def upd_bot_def g1_def weapons_ok_def nth_append
          dest!: set_update_subset_insert [THEN subsetD])
  next
    case (Some j)
    then show ?thesis using w
      by (auto simp: bots_getFirstDead_def upd_bot_def g1_def weapons_ok_def
          dest!: set_update_subset_insert [THEN subsetD])
  qed
  have "player (Game_spawnBot ph closer g) = player g" by simp
  moreover have "\<forall>b \<in> set (bots (Game_spawnBot ph closer g)). weapon b \<noteq> None"
    using key by (simp add: Game_spawnBot_def Let_def split_def g1_def)
  ultimately show ?thesis using w by (simp add: weapons_ok_def)
qed

lemma weapons_ok_update_spawn: "weapons_ok g \<Longrightarrow> weapons_ok (update_spawn ph e g)"
proof -
  assume w: "weapons_ok g"
  then have 1: "weapons_ok (g\<lparr>next_botTime := next_botTime g - e\<rparr>)" by (simp add: weapons_ok_def)
  from weapons_ok_spawn [OF 1, of ph False] have
    "weapons_ok (Game_spawnBot ph False (g\<lparr>next_botTime := next_botTime g - e\<rparr>))" .
  then have 2: "weapons_ok ((Game_spawnBot ph False (g\<lparr>next_botTime := next_botTime g - e\<rparr>))
      \<lparr>next_botTime := t, rnd_count := n\<rparr>)" for t n
    by (simp add: weapons_ok_def)
  show ?thesis using w 1 2 by (simp add: update_spawn_def Let_def)
qed

lemma Game_update_total:
  assumes "weapons_ok g"
  shows "\<exists>g'. Game_update ph inp g = Some g' \<and> weapons_ok g'"
proof (cases "superhot g")
  case True
  with assms show ?thesis by (simp add: Game_update_def)
next
  case False
  define e where "e = update_elapsedTime inp g"
  define g1 where "g1 = g\<lparr>player := snd (Player_rotate (angleToPointer inp) (player g)), elapsedTime := e\<rparr>"
  have "weapon (player g1) \<noteq> None"
    using assms by (simp add: g1_def weapons_ok_def Player_rotate_def)
  from update_player_total [OF this, of ph inp "update_playerMoved inp g" e]
  obtain fired g2 where a: "update_player ph inp (update_playerMoved inp g) e g1 = Some (fired, g2)"
    and w2: "weapon (player g2) \<noteq> None" by blast
  from update_player_frame [OF a] have "bots g2 = bots g" by (simp add: g1_def)
  with w2 assms have ok2: "weapons_ok g2" by (simp add: weapons_ok_def)
  define g4 where "g4 = update_spawn ph e (update_hotSwitch e g2)"
  have "weapons_ok (update_hotSwitch e g2)" using ok2 by (simp add: update_hotSwitch_def weapons_ok_def)
  then have ok4: "weapons_ok g4" unfolding g4_def by (rule weapons_ok_update_spawn)
  then have "\<forall>b \<in> set (bots g4). weapon b \<noteq> None" by (simp add: weapons_ok_def)
  from loop_total [OF this, of 0 "length (bots g4)" ph "physicsElapsed inp" "desiredFps inp" e
      "update_botSpeed inp g" "level g2" fired]
  obtain g3 where b: "BotGroup_advance ph (physicsElapsed inp) (desiredFps inp) e
      (update_botSpeed inp g) (level g2) fired g4 = Some g3"
    by (auto simp: BotGroup_advance_def)
  from weapons_ok_frame_bot [OF BotGroup_advance_frame [OF b] ok4] have ok3: "weapons_ok g3" .
  have "Game_update ph inp g = Some (g3\<lparr>playerBullets := BulletGroup_advance (update_bulletSpeed inp g) (playerBullets g3),
             botBullets := BulletGroup_advance (update_bulletSpeed inp g) (botBullets g3)\<rparr>)"
    unfolding Game_update_def Let_def
    using False a [unfolded g1_def e_def] b [unfolded g4_def e_def]
    by simp
  moreover have "weapons_ok (g3\<lparr>playerBullets := BulletGroup_advance (update_bulletSpeed inp g) (playerBullets g3),
             botBullets := BulletGroup_advance (update_bulletSpeed inp g) (botBullets g3)\<rparr>)"
    using ok3 by (simp add: weapons_ok_def)
  ultimately show ?thesis by blast
qed

lemma weapons_ok_Bullet_kill [simp]: "weapons_ok (Bullet_kill r g) = weapons_ok g"
  by (simp add: weapons_ok_def)

lemma weapons_ok_kill_bot:
  assumes "weapons_ok g"
  shows "weapons_ok (upd_bot i Phaser_kill g)"
proof -
  from assms have a: "\<forall>b \<in> set (bots g). weapon b \<noteq> None" by (simp add: weapons_ok_def)
  have "\<forall>b \<in> set ((bots g)[i := Phaser_kill (bots g ! i)]). weapon b \<noteq> None"
  proof (rule list_all_update [OF a])
    assume "i < length (bots g)"
    then have "bots g ! i \<in> set (bots g)" by simp
    with a show "weapon (Phaser_kill (bots g ! i)) \<noteq> None" by (simp add: Phaser_kill_def)
  qed
  with assms show ?thesis by (simp add: upd_bot_def weapons_ok_def)
qed

lemma weapons_ok_Game_superhot: "weapons_ok g \<Longrightarrow> weapons_ok (Game_superhot g)"
  by (simp add: weapons_ok_def Game_superhot_def setZeroVelocity_def)

lemma weapons_ok_botKillHandler: "weapons_ok g \<Longrightarrow> weapons_ok (Game_botKillHandler i r g)"
proof -
  assume w: "weapons_ok g"
  then have "weapons_ok (Bullet_kill r (upd_bot i Phaser_kill g))"
    by (simp add: weapons_ok_kill_bot)
  with w show ?thesis
    by (simp add: Game_botKillHandler_def Let_def weapons_ok_Game_superhot)
qed

lemma weapons_ok_Game_lose: "weapons_ok g \<Longrightarrow> weapons_ok (Game_lose r g)"
proof -
  assume w: "weapons_ok g"
  then have k: "weapons_ok (Bullet_kill r g)" by simp
  have 1: "weapons_ok ((Bullet_kill r g)\<lparr>mutators := mm\<rparr>)" for mm
    using k by (simp add: weapons_ok_def)
  have 2: "weapons_ok ((Bullet_kill r g)\<lparr>loseOverlay := True, inputHandler := False,
              playerCollidesBullets := False, player := Phaser_kill (player g)\<rparr>)"
    using k by (simp add: weapons_ok_def Phaser_kill_def)
  show ?thesis unfolding Game_lose_cases using w k 1 2 by simp
qed

lemma callback_weapons_ok: "weapons_ok g \<Longrightarrow> weapons_ok (callback a b g)"
  by (cases a; cases b)
     (simp_all add: callback_def bulletHandler_def weapons_ok_botKillHandler weapons_ok_Game_lose)

lemma weapons_ok_swap:
  assumes "weapons_ok g"
  shows "weapons_ok (swap i g)"
proof -
  from assms have a: "\<forall>b \<in> set (bots g). weapon b \<noteq> None" by (simp add: weapons_ok_def)
  have "\<forall>b \<in> set ((bots g)[i := (bots g ! i)\<lparr>body_x := body_x (player g), body_y := body_y (player g)\<rparr>]).
      weapon b \<noteq> None"
  proof (rule list_all_update [OF a])
    assume "i < length (bots g)"
    then have "bots g ! i \<in> set (bots g)" by simp
    with a show "weapon ((bots g ! i)\<lparr>body_x := body_x (player g), body_y := body_y (player g)\<rparr>) \<noteq> None"
      by simp
  qed
  with assms show ?thesis by (simp add: swap_def Let_def weapons_ok_def)
qed

lemma weapons_ok_tween:
  "weapons_ok g \<Longrightarrow> weapons_ok (case botTween g of NoTween \<Rightarrow> g | FadeOut i \<Rightarrow> swap i g
      | FadeIn i \<Rightarrow> endHotswitch g)"
  by (cases "botTween g") (simp_all add: weapons_ok_swap, simp add: weapons_ok_def endHotswitch_def)

lemma step_total:
  assumes "weapons_ok g"
  shows "\<exists>g'. step ph ev g = Some g' \<and> weapons_ok g'"
proof (cases ev)
  case (Tick inp)
  with Game_update_total [OF assms, of ph inp] show ?thesis by (simp add: step_def)
next
  case (InputDown i pt)
  with assms show ?thesis by (simp add: step_def hotswitch_def weapons_ok_def)
next
  case TweenComplete
  with weapons_ok_tween [OF assms] show ?thesis by (simp add: step_def)
next
  case (Contact a b)
  with assms show ?thesis by (simp add: step_def contact_def callback_weapons_ok)
next
  case (OutOfWorld r)
  with assms show ?thesis by (simp add: step_def weapons_ok_def)
qed

lemma run_total: "weapons_ok g \<Longrightarrow> \<exists>g'. run ph evs g = Some g' \<and> weapons_ok g'"
proof (induction evs arbitrary: g)
  case Nil
  then show ?case by simp
next
  case (Cons ev evs)
  from step_total [OF Cons.prems, of ph ev] obtain g1 where
    s: "step ph ev g = Some g1" and w: "weapons_ok g1" by blast
  from Cons.IH [OF w] s show ?case by simp
qed

lemma weapons_ok_timers [simp]:
  "weapons_ok (g\<lparr>next_botTime := a, rnd_count := b, next_hotSwitch := c, hotswitching := d\<rparr>)
     = weapons_ok g"
  by (simp add: weapons_ok_def)

lemma create_weapons_ok: "weapons_ok (Game_create ph lv m guns cnt e0)"
  unfolding Game_create_def Let_def weapons_ok_timers
  by (rule weapons_ok_spawn) (simp add: weapons_ok_def new_Player_def)

text \<open>Whatever happens in a level, no step of it throws: every run from the start of a
  level ends in a state.\<close>

lemma level_total: "\<exists>g. run ph evs (Game_create ph lv m guns cnt e0) = Some g"
  using run_total [OF create_weapons_ok] by blast

section \<open>The bullet budget\<close>

lemma Game_update_budget:
  assumes "Game_update ph inp g = Some g'"
  shows "counts_bullets g' = counts_bullets g - (if update_playerFired ph inp g then 1 else 0)"
proof (cases "superhot g")
  case True
  with assms show ?thesis by (simp add: Game_update_def update_playerFired_def)
next
  case False
  from Game_update_cases [OF assms False] obtain fired g2 g3 where
    a: "update_player ph inp (update_playerMoved inp g) (update_elapsedTime inp g)
       (g\<lparr>player := snd (Player_rotate (angleToPointer inp) (player g)),
          elapsedTime := update_elapsedTime inp g\<rparr>) = Some (fired, g2)"
    and b: "BotGroup_advance ph (physicsElapsed inp) (desiredFps inp) (update_elapsedTime inp g)
       (update_botSpeed inp g) (level g2) fired
       (update_spawn ph (update_elapsedTime inp g) (update_hotSwitch (update_elapsedTime inp g) g2)) = Some g3"
    and c: "g' = g3\<lparr>playerBullets := BulletGroup_advance (update_bulletSpeed inp g) (playerBullets g3),
             botBullets := BulletGroup_advance (update_bulletSpeed inp g) (botBullets g3)\<rparr>"
    by blast
  have f: "update_playerFired ph inp g = fired"
    using False a by (simp add: update_playerFired_def)
  from update_player_frame [OF a] have 1: "counts_bullets g2 = counts_bullets g - (if fired then 1 else 0)"
    by simp
  from BotGroup_advance_frame [OF b] have "counts_bullets g3 =
      counts_bullets (update_spawn ph (update_elapsedTime inp g) (update_hotSwitch (update_elapsedTime inp g) g2))"
    by (simp add: frame_bot_def)
  also have "\<dots> = counts_bullets g2"
    using update_spawn_frame [of ph "update_elapsedTime inp g" "update_hotSwitch (update_elapsedTime inp g) g2"]
      update_hotSwitch_frame [of "update_elapsedTime inp g" g2] by simp
  finally show ?thesis using 1 f c by simp
qed

lemma update_playerFired_budget:
  "update_playerFired ph inp g \<Longrightarrow> counts_bullets g \<noteq> 0"
proof -
  assume a: "update_playerFired ph inp g"
  then have ns: "\<not> superhot g" by (auto simp: update_playerFired_def)
  define g1 where "g1 = g\<lparr>player := snd (Player_rotate (angleToPointer inp) (player g)),
                     elapsedTime := update_elapsedTime inp g\<rparr>"
  from a ns obtain g2 where u: "update_player ph inp (update_playerMoved inp g) (update_elapsedTime inp g) g1
      = Some (True, g2)"
    by (auto simp: update_playerFired_def g1_def split: option.splits)
  from u show ?thesis
  proof (cases rule: update_player_cases)
    case is_dead
    then show ?thesis by simp
  next
    case (is_alive g0)
    then have "Game_firePlayerBullet ph g1 = Some (True, g0)" by (auto split: if_splits)
    from Game_firePlayerBullet_frame [OF this] show ?thesis by (simp add: g1_def)
  qed
qed

lemma callback_budget [simp]: "counts_bullets (callback a b g) = counts_bullets g"
  by (cases a; cases b)
     (simp_all add: callback_def bulletHandler_def Game_botKillHandler_def Game_lose_cases Let_def
        Game_superhot_def)

lemma step_budget:
  assumes "step ph ev g = Some g'"
  shows "counts_bullets g' =
    counts_bullets g - (case ev of Tick inp \<Rightarrow> (if update_playerFired ph inp g then 1 else 0) | _ \<Rightarrow> 0)"
proof (cases ev)
  case (Tick inp)
  with assms have "Game_update ph inp g = Some g'" by (simp add: step_def)
  from Game_update_budget [OF this] Tick show ?thesis by simp
next
  case (InputDown i pt)
  with assms show ?thesis by (auto simp: step_def hotswitch_def split: if_splits)
next
  case TweenComplete
  with assms show ?thesis
    by (cases "botTween g") (auto simp: step_def swap_def endHotswitch_def Let_def)
next
  case (Contact a b)
  with assms show ?thesis by (auto simp: step_def contact_def split: if_splits)
next
  case (OutOfWorld r)
  with assms show ?thesis by (auto simp: step_def split: if_splits)
qed

lemma step_budget_sign:
  assumes "step ph ev g = Some g'"
  shows "(0 \<le> counts_bullets g \<longrightarrow> 0 \<le> counts_bullets g') \<and> (counts_bullets g < 0 \<longrightarrow> counts_bullets g' < 0)"
proof -
  have "counts_bullets g \<noteq> 0" if "ev = Tick inp" "update_playerFired ph inp g" for inp
    using that update_playerFired_budget by blast
  with step_budget [OF assms] show ?thesis by (cases ev) (auto split: if_splits)
qed

lemma run_budget:
  "run ph evs g = Some g' \<Longrightarrow>
     counts_bullets g' = counts_bullets g - int (shots_fired ph evs g) \<and>
     (0 \<le> counts_bullets g \<longrightarrow> 0 \<le> counts_bullets g') \<and>
     (counts_bullets g < 0 \<longrightarrow> counts_bullets g' < 0)"
proof (induction evs arbitrary: g)
  case Nil
  then show ?case by simp
next
  case (Cons ev evs)
  from Cons.prems obtain g1 where s: "step ph ev g = Some g1" and r: "run ph evs g1 = Some g'"
    by (auto split: option.splits)
  from step_budget [OF s] step_budget_sign [OF s] Cons.IH [OF r] s show ?case
    by (cases ev) (auto split: if_splits)
qed

lemma init_bots_nonneg: "0 \<le> lv \<Longrightarrow> 0 \<le> init_bots lv"
proof -
  assume "0 \<le> lv"
  then have "0 \<le> \<lfloor>real_of_int lv * 0.666\<rfloor>" by simp
  with \<open>0 \<le> lv\<close> show ?thesis by (auto simp: init_bots_def)
qed

text \<open>
  C10. With the limited-bullets mutator on, a level starts with a budget of three bullets
  per bot of the level; with it off, with a budget of \<open>-1\<close>. A fire request with a budget
  of zero is refused: it reports false and leaves the game as it is, so no bullet is
  spawned. A fire request that succeeds lowers the budget by one. Over any run of a level
  (of number \<open>lv \<ge> 0\<close>) the budget is the initial one less the number of ticks in which the
  player fired; with the mutator on it never drops below zero, so the player fires at most
  three times the number of bots; with the mutator off it stays negative, so the test for
  zero never refuses a shot.
\<close>

theorem bullet_budget:
  assumes "0 \<le> lv" and "run ph evs (Game_create ph lv m guns cnt e0) = Some g"
  shows "counts_bullets (Game_create ph lv m guns cnt e0) = (if lmtdbull m then 3 * init_bots lv else - 1) \<and>
    (counts_bullets g = 0 \<longrightarrow> Game_firePlayerBullet ph g = Some (False, g)) \<and>
    (\<forall>g'. Game_firePlayerBullet ph g = Some (True, g') \<longrightarrow>
        counts_bullets g' = counts_bullets g - 1) \<and>
    (\<forall>fired g'. Game_firePlayerBullet ph g = Some (fired, g') \<longrightarrow>
        (fired \<longleftrightarrow> \<not> (remainingTime (player g) > 0 \<or> counts_bullets g = 0)) \<and>
        (\<not> fired \<longrightarrow> g' = g)) \<and>
    counts_bullets g = counts_bullets (Game_create ph lv m guns cnt e0)
                         - int (shots_fired ph evs (Game_create ph lv m guns cnt e0)) \<and>
    (lmtdbull m \<longrightarrow>
       0 \<le> counts_bullets g \<and>
       int (shots_fired ph evs (Game_create ph lv m guns cnt e0)) \<le> 3 * init_bots lv) \<and>
    (\<not> lmtdbull m \<longrightarrow> counts_bullets g < 0 \<and> counts_bullets g \<noteq> 0)"
proof -
  let ?g0 = "Game_create ph lv m guns cnt e0"
  have c0: "counts_bullets ?g0 = (if lmtdbull m then 3 * init_bots lv else - 1)"
    by (simp add: Game_create_fields init_bullets_def)
  have z: "counts_bullets g = 0 \<longrightarrow> Game_firePlayerBullet ph g = Some (False, g)"
    by (simp add: Game_firePlayerBullet_def)
  have f: "\<forall>fired g'. Game_firePlayerBullet ph g = Some (fired, g') \<longrightarrow>
        counts_bullets g' = counts_bullets g - (if fired then 1 else 0) \<and>
        (fired \<longleftrightarrow> \<not> (remainingTime (player g) > 0 \<or> counts_bullets g = 0)) \<and>
        (\<not> fired \<longrightarrow> g' = g)"
    using Game_firePlayerBullet_frame by blast
  note r = run_budget [OF assms(2)]
  have on: "0 \<le> counts_bullets g \<and> int (shots_fired ph evs ?g0) \<le> 3 * init_bots lv" if "lmtdbull m"
  proof -
    from that c0 init_bots_nonneg [OF assms(1)] have "0 \<le> counts_bullets ?g0" by simp
    with r have "0 \<le> counts_bullets g" by blast
    with r c0 that show ?thesis by simp
  qed
  have off: "counts_bullets g < 0 \<and> counts_bullets g \<noteq> 0" if "\<not> lmtdbull m"
    using that c0 r by simp
  from c0 z f r on off show ?thesis by (simp add: all_conj_distrib)
qed

lemma game_lmtd_val:
  "game_lmtd = game0\<lparr>mutators := mutators0\<lparr>lmtdbull := True\<rparr>, counts_bullets := 15\<rparr>"
  unfolding game0_val
  by (simp add: game_lmtd_def Game_create_def Let_def phaser0_def Game_spawnBot_def
      bots_getFirstDead_def mutators0_def spriteScale_def new_Player_def new_Bot_def
      init_bots_def init_bullets_def setBotMovement_def assignBotWeapon_def upd_bot_def
      Game_hotswitchTimeout_def consts_defs Player_DODGE_RELOAD_TIME_def playerGun_def)

lemma game_lmtd_fires: "update_playerFired phaser0 input_fire game_lmtd"
proof -
  have a: "\<not> superhot game_lmtd" "alive (player game_lmtd)"
    "\<not> (remainingTime (player game_lmtd) > 0 \<or> counts_bullets game_lmtd = 0)"
    "weapon (player game_lmtd) \<noteq> None"
    by (simp_all add: game_lmtd_val game0_val superhot_def)
  define g1 where "g1 = game_lmtd\<lparr>player := snd (Player_rotate (angleToPointer input_fire) (player game_lmtd)),
                     elapsedTime := update_elapsedTime input_fire game_lmtd\<rparr>"
  have b: "alive (player g1)" "\<not> (remainingTime (player g1) > 0 \<or> counts_bullets g1 = 0)"
    "weapon (player g1) \<noteq> None"
    using a by (simp_all add: g1_def Player_rotate_def)
  from Player_fire_total [OF b(3), of phaser0] obtain g2 where "Player_fire phaser0 g1 = Some g2" by blast
  with b have "Game_firePlayerBullet phaser0 g1 = Some (True, g2\<lparr>counts_bullets := counts_bullets g2 - 1\<rparr>)"
    by (simp add: Game_firePlayerBullet_def)
  with b(1) have "\<exists>g3. update_player phaser0 input_fire (update_playerMoved input_fire game_lmtd)
      (update_elapsedTime input_fire game_lmtd) g1 = Some (True, g3)"
    by (simp add: update_player_def Let_def input_fire_def)
  then show ?thesis using a(1) unfolding update_playerFired_def g1_def [symmetric] by auto
qed

theorem bullet_budget_witness:
  "(0::int) \<le> 1 \<and> counts_bullets game_lmtd = 15 \<and>
   shots_fired phaser0 [Tick input_fire] game_lmtd = 1 \<and>
   (\<exists>g. run phaser0 [Tick input_fire] game_lmtd = Some g \<and> counts_bullets g = 14)"
proof -
  obtain g where r: "run phaser0 [Tick input_fire] game_lmtd = Some g"
    using level_total [of phaser0 "[Tick input_fire]" 1 "mutators0\<lparr>lmtdbull := True\<rparr>" "\<lambda>k. False" 0 0]
    unfolding game_lmtd_def by blast
  then have "step phaser0 (Tick input_fire) game_lmtd = Some g"
    by (cases "step phaser0 (Tick input_fire) game_lmtd") simp_all
  then have s: "shots_fired phaser0 [Tick input_fire] game_lmtd = 1"
    using game_lmtd_fires by simp
  have c: "counts_bullets game_lmtd = 15" by (simp add: game_lmtd_val)
  from bullet_budget [of 1 phaser0 "[Tick input_fire]" "mutators0\<lparr>lmtdbull := True\<rparr>" "\<lambda>k. False" 0 0 g]
    r s c
  show ?thesis unfolding game_lmtd_def by simp
qed

section \<open>A bot's decision to shoot\<close>










end
